theory Spec2Isabelle
  imports Main "HOL-Library.Sublist" "HOL-Library.Char_ord" "HOL-Library.List_Lexorder"
begin

section \<open>Go values: errors, panics, decimal identifiers\<close>

text \<open>
  A Go \<^verbatim>\<open>error\<close> is a value of \<open>error\<close>. The store (ent on a SQL database) reports
  \<^verbatim>\<open>*ent.NotFoundError\<close>, \<^verbatim>\<open>*ent.NotSingularError\<close> and \<^verbatim>\<open>sql.ErrNoRows\<close>;
  the backend builds \<^verbatim>\<open>gqlerror.Errorf\<close> errors (a formatted message; the unqualified
  \<^verbatim>\<open>Errorf\<close> of sbom.go is taken to be the same function) and
  \<^verbatim>\<open>errors.Wrap(err, msg)\<close>; \<^verbatim>\<open>strconv.Atoi\<close> fails with a \<^verbatim>\<open>*NumError\<close>.
  A run-time panic (nil dereference, index out of range) is the value \<open>Panic\<close>: it is
  never caught by an \<^verbatim>\<open>if err != nil\<close>.

  \<open>err_Error\<close> is the \<^verbatim>\<open>Error()\<close> method, the text a \<^verbatim>\<open>%s\<close> or \<^verbatim>\<open>%v\<close> verb
  prints, written as these libraries print it: ent's \<^verbatim>\<open>ent: <label> not found\<close>, a
  \<^verbatim>\<open>gqlerror\<close> without a location as \<^verbatim>\<open>input: <message>\<close>, a wrapped error as
  \<^verbatim>\<open><msg>: <cause>\<close>.
\<close>

datatype error =
    NotFoundError string
  | NotSingularError string
  | ErrNoRows
  | GqlError string
  | Wrap error string
  | NumError string
  | Panic string

fun err_Error :: "error \<Rightarrow> string" where
  "err_Error (NotFoundError label) = ''ent: '' @ label @ '' not found''"
| "err_Error (NotSingularError label) = ''ent: '' @ label @ '' not singular''"
| "err_Error ErrNoRows = ''sql: no rows in result set''"
| "err_Error (GqlError msg) = ''input: '' @ msg"
| "err_Error (Wrap e msg) = msg @ '': '' @ err_Error e"
| "err_Error (NumError s) = ''strconv.Atoi: parsing '' @ s @ '': invalid syntax''"
| "err_Error (Panic msg) = ''panic: '' @ msg"

text \<open>
  \<^verbatim>\<open>if err != nil { return ..., f(err) }\<close>: an error is rewrapped by \<open>f\<close>, a panic
  passes through untouched.
\<close>

definition on_err :: "(error \<Rightarrow> error) \<Rightarrow> error + 'a \<Rightarrow> error + 'a" where
  "on_err f r =
     (case r of
        Inl (Panic m) \<Rightarrow> Inl (Panic m)
      | Inl e \<Rightarrow> Inl (f e)
      | Inr a \<Rightarrow> Inr a)"

text \<open>\<^verbatim>\<open>strconv.Itoa\<close> on a non-negative identifier, and \<^verbatim>\<open>nodeID\<close>, its alias.\<close>

definition digit_char :: "nat \<Rightarrow> char" where
  "digit_char d = char_of (48 + d)"

function Itoa :: "nat \<Rightarrow> string" where
  "Itoa n = (if n < 10 then [digit_char n] else Itoa (n div 10) @ [digit_char (n mod 10)])"
  by pat_completeness auto
termination
  by (relation "measure (\<lambda>n. n)") auto

definition nodeID :: "nat \<Rightarrow> string" where
  "nodeID n = Itoa n"

text \<open>
  \<^verbatim>\<open>strconv.Atoi\<close> restricted to unsigned decimal strings (identifiers are never
  negative); \<open>None\<close> is its \<^verbatim>\<open>*NumError\<close>.
\<close>

definition digit_val :: "char \<Rightarrow> nat option" where
  "digit_val c =
     (let k = (of_char c :: nat) in if 48 \<le> k \<and> k \<le> 57 then Some (k - 48) else None)"

fun Atoi_acc :: "nat \<Rightarrow> string \<Rightarrow> nat option" where
  "Atoi_acc a [] = Some a"
| "Atoi_acc a (c # cs) =
     (case digit_val c of None \<Rightarrow> None | Some d \<Rightarrow> Atoi_acc (10 * a + d) cs)"

definition Atoi :: "string \<Rightarrow> nat option" where
  "Atoi s = (if s = [] then None else Atoi_acc 0 s)"

text \<open>\<^verbatim>\<open>strings.ToLower\<close> on ASCII text.\<close>

definition lower_char :: "char \<Rightarrow> char" where
  "lower_char c =
     (let k = (of_char c :: nat) in if 65 \<le> k \<and> k \<le> 90 then char_of (k + 32) else c)"

definition ToLower :: "string \<Rightarrow> string" where
  "ToLower s = map lower_char s"


section \<open>The graph store\<close>

text \<open>
  The backend keeps its facts in the tables of a relational store, reached through the
  generated client (\<^verbatim>\<open>b.client.Occurrence\<close>, \<^verbatim>\<open>client.Artifact\<close>, ...). A table
  is the list of its rows in insertion order; identifiers are the store-assigned integer
  keys. The edge sets of a bill of materials (its included packages, artifacts,
  dependencies and occurrences) are kept with the row.
\<close>

datatype DependencyType = DependencyTypeDirect | DependencyTypeIndirect | DependencyTypeUnknown

datatype dependency_DependencyType =
  DependencyTypeDIRECT | DependencyTypeINDIRECT | DependencyTypeUNKNOWN

datatype val = Null | IntV nat | StrV string | EnumV dependency_DependencyType | TimeV int

record Artifact_row =
  art_id :: nat
  art_algorithm :: string
  art_digest :: string

record PackageName_row =
  pn_id :: nat
  pn_type :: string
  pn_namespace :: string
  pn_name :: string

record PackageVersion_row =
  pv_id :: nat
  pv_name_id :: nat
  pv_version :: string
  pv_subpath :: string
  pv_qualifiers :: "(string \<times> string) list"

record SourceName_row =
  sn_id :: nat
  sn_type :: string
  sn_namespace :: string
  sn_name :: string
  sn_commit :: string
  sn_tag :: string

record Occurrence_row =
  occ_id :: nat
  occ_artifact_id :: nat
  occ_justification :: string
  occ_origin :: string
  occ_collector :: string
  occ_package_id :: "nat option"
  occ_source_id :: "nat option"

record Dependency_row =
  dep_id :: nat
  dep_package_id :: nat
  dep_version_range :: string
  dep_dependency_type :: dependency_DependencyType
  dep_justification :: string
  dep_origin :: string
  dep_collector :: string
  dep_dependent_package_name_id :: "nat option"
  dep_dependent_package_version_id :: "nat option"

record BillOfMaterials_row =
  bom_id :: nat
  bom_uri :: string
  bom_algorithm :: string
  bom_digest :: string
  bom_download_location :: string
  bom_origin :: string
  bom_collector :: string
  bom_known_since :: int
  bom_package_id :: "nat option"
  bom_artifact_id :: "nat option"
  bom_included_software_packages :: "nat list"
  bom_included_software_artifacts :: "nat list"
  bom_included_dependencies :: "nat list"
  bom_included_occurrences :: "nat list"

record DB =
  Artifact :: "Artifact_row list"
  PackageName :: "PackageName_row list"
  PackageVersion :: "PackageVersion_row list"
  SourceName :: "SourceName_row list"
  Occurrence :: "Occurrence_row list"
  Dependency :: "Dependency_row list"
  BillOfMaterials :: "BillOfMaterials_row list"

text \<open>
  \<^verbatim>\<open>Query().Where(p).Only(ctx)\<close> of ent: the single row that matches, a
  \<^verbatim>\<open>NotFoundError\<close> when none does, a \<^verbatim>\<open>NotSingularError\<close> when several do.
  \<^verbatim>\<open>OnlyID\<close> is the same with the row's identifier.
\<close>

definition Only :: "string \<Rightarrow> 'r list \<Rightarrow> error + 'r" where
  "Only label rows =
     (case rows of
        [] \<Rightarrow> Inl (NotFoundError label)
      | [r] \<Rightarrow> Inr r
      | _ \<Rightarrow> Inl (NotSingularError label))"

definition OnlyID :: "string \<Rightarrow> ('r \<Rightarrow> nat) \<Rightarrow> 'r list \<Rightarrow> error + nat" where
  "OnlyID label idf rows = (case Only label rows of Inl e \<Rightarrow> Inl e | Inr r \<Rightarrow> Inr (idf r))"

text \<open>
  Modelled from the spec: \<^verbatim>\<open>IDEQ\<close>, the predicate "the row's identifier is the one this
  string names" (the helper is not among the sources). The string is read with
  \<^verbatim>\<open>strconv.Atoi\<close>; a string that is no number matches no row.
\<close>

definition IDEQ :: "string \<Rightarrow> nat \<Rightarrow> bool" where
  "IDEQ s n = (case Atoi s of None \<Rightarrow> False | Some k \<Rightarrow> n = k)"

subsection \<open>Conflict-resolving upserts\<close>

text \<open>
  The scoping predicate of an upsert, \<^verbatim>\<open>sql.And(sql.NotNull(c), sql.IsNull(d))\<close>,
  over the columns \<open>'c\<close> of a table; \<open>col\<close> reads a column of a row.
\<close>

datatype 'c Predicate = NotNull 'c | IsNull 'c | And "'c Predicate" "'c Predicate"

fun holds :: "('c \<Rightarrow> 'r \<Rightarrow> val) \<Rightarrow> 'c Predicate \<Rightarrow> 'r \<Rightarrow> bool" where
  "holds col (NotNull c) r = (col c r \<noteq> Null)"
| "holds col (IsNull c) r = (col c r = Null)"
| "holds col (And p q) r = (holds col p r \<and> holds col q r)"

text \<open>
  Modelled from the spec: the upsert engine of the store (section 4.3), which is the SQL
  statement \<^verbatim>\<open>INSERT ... ON CONFLICT (columns) WHERE predicate DO ...\<close> run by ent and
  the database, not code of the sources. A stored row conflicts with the candidate when
  it satisfies the scoping predicate and agrees with the candidate on every conflict
  column (SQL equality: a NULL equals nothing). Without a conflict the candidate is
  inserted under a fresh identifier. On a conflict
  \<^item> \<^verbatim>\<open>UpdateNewValues().ID\<close> (merge) overwrites the stored row's columns with the
    candidate's and returns the stored identifier;
  \<^item> \<^verbatim>\<open>Ignore().ID\<close> (ignore) leaves the stored row untouched and returns its
    identifier;
  \<^item> \<^verbatim>\<open>DoNothing().ID\<close> affects no row and returns none: the caller sees
    \<^verbatim>\<open>sql.ErrNoRows\<close>.
\<close>

definition conflicts ::
  "('c \<Rightarrow> 'r \<Rightarrow> val) \<Rightarrow> 'c list \<Rightarrow> 'c Predicate \<Rightarrow> 'r \<Rightarrow> 'r \<Rightarrow> bool" where
  "conflicts col cs w cand r =
     (holds col w r \<and> list_all (\<lambda>c. col c r \<noteq> Null \<and> col c r = col c cand) cs)"

definition fresh_id :: "('r \<Rightarrow> nat) \<Rightarrow> 'r list \<Rightarrow> nat" where
  "fresh_id idf rows = Suc (fold max (map idf rows) 0)"

definition UpdateNewValues ::
  "('r \<Rightarrow> nat) \<Rightarrow> (nat \<Rightarrow> 'r \<Rightarrow> 'r) \<Rightarrow> ('c \<Rightarrow> 'r \<Rightarrow> val) \<Rightarrow> 'c list \<Rightarrow> 'c Predicate \<Rightarrow>
     'r \<Rightarrow> 'r list \<Rightarrow> (error + nat) \<times> 'r list" where
  "UpdateNewValues idf setid col cs w cand rows =
     (case List.extract (conflicts col cs w cand) rows of
        Some (before, r, after) \<Rightarrow> (Inr (idf r), before @ [setid (idf r) cand] @ after)
      | None \<Rightarrow> (Inr (fresh_id idf rows), rows @ [setid (fresh_id idf rows) cand]))"

definition Ignore ::
  "('r \<Rightarrow> nat) \<Rightarrow> (nat \<Rightarrow> 'r \<Rightarrow> 'r) \<Rightarrow> ('c \<Rightarrow> 'r \<Rightarrow> val) \<Rightarrow> 'c list \<Rightarrow> 'c Predicate \<Rightarrow>
     'r \<Rightarrow> 'r list \<Rightarrow> (error + nat) \<times> 'r list" where
  "Ignore idf setid col cs w cand rows =
     (case List.find (conflicts col cs w cand) rows of
        Some r \<Rightarrow> (Inr (idf r), rows)
      | None \<Rightarrow> (Inr (fresh_id idf rows), rows @ [setid (fresh_id idf rows) cand]))"

definition DoNothing ::
  "('r \<Rightarrow> nat) \<Rightarrow> (nat \<Rightarrow> 'r \<Rightarrow> 'r) \<Rightarrow> ('c \<Rightarrow> 'r \<Rightarrow> val) \<Rightarrow> 'c list \<Rightarrow> 'c Predicate \<Rightarrow>
     'r \<Rightarrow> 'r list \<Rightarrow> (error + nat) \<times> 'r list" where
  "DoNothing idf setid col cs w cand rows =
     (case List.find (conflicts col cs w cand) rows of
        Some r \<Rightarrow> (Inl ErrNoRows, rows)
      | None \<Rightarrow> (Inr (fresh_id idf rows), rows @ [setid (fresh_id idf rows) cand]))"

text \<open>
  Modelled from the spec: \<^verbatim>\<open>WithinTX\<close> (section 4.4, steps 1 and 5; the helper is not
  among the sources). The body runs on the transaction's view of the store; its writes
  are committed when it returns a value and rolled back, all of them, when it returns an
  error or panics.
\<close>

definition WithinTX :: "DB \<Rightarrow> (DB \<Rightarrow> (error + 'a) \<times> DB) \<Rightarrow> (error + 'a) \<times> DB" where
  "WithinTX client body =
     (case body client of
        (Inl e, _) \<Rightarrow> (Inl e, client)
      | (Inr a, client') \<Rightarrow> (Inr a, client'))"

section \<open>Inputs of the ingestion entry points\<close>

text \<open>
  The GraphQL input structures. A Go pointer field is an \<open>option\<close> (\<open>None\<close> is nil).
  The elements of the batch slices (\<^verbatim>\<open>[]*model.IDorPkgInput\<close>, ...) are taken to be
  non-nil, as the schema's non-null list elements make them.
\<close>

record PkgInputSpec =
  pkg_Type :: string
  pkg_Namespace :: "string option"
  pkg_Name :: string
  pkg_Version :: "string option"
  pkg_Qualifiers :: "(string \<times> string) list"
  pkg_Subpath :: "string option"

record IDorPkgInput =
  PackageVersionID :: "string option"
  PackageInput :: "PkgInputSpec option"

record SourceInputSpec =
  src_Type :: string
  src_Namespace :: string
  src_Name :: string
  src_Tag :: "string option"
  src_Commit :: "string option"

record IDorSourceInput =
  SourceNameID :: "string option"
  SourceInput :: "SourceInputSpec option"

record ArtifactInputSpec =
  art_Algorithm :: string
  art_Digest :: string

record IDorArtifactInput =
  ArtifactID :: "string option"
  ArtifactInput :: "ArtifactInputSpec option"

record PackageOrSourceInput =
  pos_Package :: "IDorPkgInput option"
  pos_Source :: "IDorSourceInput option"

record PackageOrSourceInputs =
  pos_Packages :: "IDorPkgInput list"
  pos_Sources :: "IDorSourceInput list"

record PackageOrArtifactInput =
  poa_Package :: "IDorPkgInput option"
  poa_Artifact :: "IDorArtifactInput option"

record PackageOrArtifactInputs =
  poa_Packages :: "IDorPkgInput list"
  poa_Artifacts :: "IDorArtifactInput list"

record IsOccurrenceInputSpec =
  occ_Justification :: string
  occ_Origin :: string
  occ_Collector :: string

record IsDependencyInputSpec =
  dep_VersionRange :: string
  dep_DependencyType :: DependencyType
  dep_Justification :: string
  dep_Origin :: string
  dep_Collector :: string

datatype PkgMatchType = PkgMatchTypeAllVersions | PkgMatchTypeSpecificVersion

record MatchFlags =
  Pkg :: PkgMatchType

record HasSBOMInputSpec =
  sbom_URI :: string
  sbom_Algorithm :: string
  sbom_Digest :: string
  sbom_DownloadLocation :: string
  sbom_Origin :: string
  sbom_Collector :: string
  sbom_KnownSince :: int

record HasSBOMIncludesInputSpec =
  inc_Packages :: "string list"
  inc_Artifacts :: "string list"
  inc_Dependencies :: "string list"
  inc_Occurrences :: "string list"



section \<open>Identity resolution\<close>

text \<open>
  Modelled from the spec: the identity resolver (section 4.1), \<^verbatim>\<open>getPkgName\<close>,
  \<^verbatim>\<open>getPkgVersion\<close> and \<^verbatim>\<open>upsertSource\<close>, which are not among the sources. A
  description is resolved to its canonical node, found by its full path or created with
  its missing ancestors; an absent namespace, subpath, tag or commit is the empty string.
  A version-level request without a version string fails.
\<close>

definition find_or_create ::
  "('r \<Rightarrow> nat) \<Rightarrow> (nat \<Rightarrow> 'r \<Rightarrow> 'r) \<Rightarrow> ('r \<Rightarrow> bool) \<Rightarrow> 'r \<Rightarrow> 'r list \<Rightarrow> 'r \<times> 'r list" where
  "find_or_create idf setid same cand rows =
     (case List.find same rows of
        Some r \<Rightarrow> (r, rows)
      | None \<Rightarrow> (setid (fresh_id idf rows) cand, rows @ [setid (fresh_id idf rows) cand]))"

definition orEmpty :: "string option \<Rightarrow> string" where
  "orEmpty s = (case s of None \<Rightarrow> [] | Some x \<Rightarrow> x)"

definition getPkgName :: "DB \<Rightarrow> PkgInputSpec \<Rightarrow> (error + PackageName_row) \<times> DB" where
  "getPkgName client pkgin =
     (case find_or_create pn_id (\<lambda>n r. r\<lparr>pn_id := n\<rparr>)
             (\<lambda>r. pn_type r = pkg_Type pkgin \<and> pn_namespace r = orEmpty (pkg_Namespace pkgin)
                  \<and> pn_name r = pkg_Name pkgin)
             \<lparr>pn_id = 0, pn_type = pkg_Type pkgin,
              pn_namespace = orEmpty (pkg_Namespace pkgin), pn_name = pkg_Name pkgin\<rparr>
             (PackageName client) of
        (row, tbl) \<Rightarrow> (Inr row, client\<lparr>PackageName := tbl\<rparr>))"

definition getPkgVersion :: "DB \<Rightarrow> PkgInputSpec \<Rightarrow> (error + PackageVersion_row) \<times> DB" where
  "getPkgVersion client pkgin =
     (case pkg_Version pkgin of
        None \<Rightarrow> (Inl (NotFoundError ''package_version''), client)
      | Some v \<Rightarrow>
          (case getPkgName client pkgin of
             (Inl e, c) \<Rightarrow> (Inl e, c)
           | (Inr nm, c) \<Rightarrow>
               (case find_or_create pv_id (\<lambda>n r. r\<lparr>pv_id := n\<rparr>)
                       (\<lambda>r. pv_name_id r = pn_id nm \<and> pv_version r = v
                            \<and> pv_subpath r = orEmpty (pkg_Subpath pkgin)
                            \<and> pv_qualifiers r = pkg_Qualifiers pkgin)
                       \<lparr>pv_id = 0, pv_name_id = pn_id nm, pv_version = v,
                        pv_subpath = orEmpty (pkg_Subpath pkgin),
                        pv_qualifiers = pkg_Qualifiers pkgin\<rparr>
                       (PackageVersion c) of
                  (row, tbl) \<Rightarrow> (Inr row, c\<lparr>PackageVersion := tbl\<rparr>))))"

record SourceIDs =
  ids_SourceNameID :: string

definition upsertSource :: "DB \<Rightarrow> SourceInputSpec \<Rightarrow> (error + SourceIDs) \<times> DB" where
  "upsertSource tx src =
     (case find_or_create sn_id (\<lambda>n r. r\<lparr>sn_id := n\<rparr>)
             (\<lambda>r. sn_type r = src_Type src \<and> sn_namespace r = src_Namespace src
                  \<and> sn_name r = src_Name src \<and> sn_commit r = orEmpty (src_Commit src)
                  \<and> sn_tag r = orEmpty (src_Tag src))
             \<lparr>sn_id = 0, sn_type = src_Type src, sn_namespace = src_Namespace src,
              sn_name = src_Name src, sn_commit = orEmpty (src_Commit src),
              sn_tag = orEmpty (src_Tag src)\<rparr>
             (SourceName tx) of
        (row, tbl) \<Rightarrow> (Inr \<lparr>ids_SourceNameID = Itoa (sn_id row)\<rparr>, tx\<lparr>SourceName := tbl\<rparr>))"

text \<open>
  Modelled from the spec: \<^verbatim>\<open>artifactQueryInputPredicates\<close> (not among the sources). An
  artifact is identified by its algorithm and digest, both in lower case.
\<close>

definition artifactQueryInputPredicates :: "ArtifactInputSpec \<Rightarrow> Artifact_row \<Rightarrow> bool" where
  "artifactQueryInputPredicates spec r =
     (art_algorithm r = ToLower (art_Algorithm spec) \<and> art_digest r = ToLower (art_Digest spec))"

text \<open>
  Modelled from the spec: \<^verbatim>\<open>helper.SortAndRemoveDups\<close> (not among the sources): an
  included set is de-duplicated and order-normalised before use.
\<close>

definition SortAndRemoveDups :: "string list \<Rightarrow> string list" where
  "SortAndRemoveDups ids = remdups_adj (sort ids)"

section \<open>Occurrence ingestion (occurrence.go)\<close>

datatype occurrence_Field =
    occurrence_FieldArtifactID
  | occurrence_FieldJustification
  | occurrence_FieldOrigin
  | occurrence_FieldCollector
  | occurrence_FieldPackageID
  | occurrence_FieldSourceID

definition optInt :: "nat option \<Rightarrow> val" where
  "optInt x = (case x of None \<Rightarrow> Null | Some n \<Rightarrow> IntV n)"

fun occurrence_col :: "occurrence_Field \<Rightarrow> Occurrence_row \<Rightarrow> val" where
  "occurrence_col occurrence_FieldArtifactID r = IntV (occ_artifact_id r)"
| "occurrence_col occurrence_FieldJustification r = StrV (occ_justification r)"
| "occurrence_col occurrence_FieldOrigin r = StrV (occ_origin r)"
| "occurrence_col occurrence_FieldCollector r = StrV (occ_collector r)"
| "occurrence_col occurrence_FieldPackageID r = optInt (occ_package_id r)"
| "occurrence_col occurrence_FieldSourceID r = optInt (occ_source_id r)"

definition occurrence_upsert ::
  "DB \<Rightarrow> Occurrence_row \<Rightarrow> occurrence_Field list \<Rightarrow> occurrence_Field Predicate \<Rightarrow>
     (error + nat) \<times> DB" where
  "occurrence_upsert client occurrenceCreate occurrenceConflictColumns conflictWhere =
     (case UpdateNewValues occ_id (\<lambda>n r. r\<lparr>occ_id := n\<rparr>) occurrence_col
             occurrenceConflictColumns conflictWhere occurrenceCreate (Occurrence client) of
        (res, tbl) \<Rightarrow> (res, client\<lparr>Occurrence := tbl\<rparr>))"

text \<open>The function run inside the transaction (occurrence.go, lines 100 to 170).\<close>

definition IngestOccurrence_tx ::
  "DB \<Rightarrow> PackageOrSourceInput \<Rightarrow> IDorArtifactInput \<Rightarrow> IsOccurrenceInputSpec \<Rightarrow>
     (error + nat) \<times> DB" where
  "IngestOccurrence_tx client subject art spec =
     (case ArtifactInput art of
        None \<Rightarrow> (Inl (Panic ''nil pointer dereference''), client)
      | Some artInput \<Rightarrow>
     (case Only ''artifact'' (filter (artifactQueryInputPredicates artInput) (Artifact client)) of
        Inl err \<Rightarrow> (Inl err, client)
      | Inr artRecord \<Rightarrow>
     (let occurrenceCreate =
            \<lparr>occ_id = 0, occ_artifact_id = art_id artRecord,
             occ_justification = occ_Justification spec, occ_origin = occ_Origin spec,
             occ_collector = occ_Collector spec, occ_package_id = None, occ_source_id = None\<rparr>;
          occurrenceConflictColumns =
            [occurrence_FieldArtifactID, occurrence_FieldJustification,
             occurrence_FieldOrigin, occurrence_FieldCollector]
      in
     (case pos_Package subject of
        Some p \<Rightarrow>
          (case PackageInput p of
             None \<Rightarrow> (Inl (Panic ''nil pointer dereference''), client)
           | Some pkgInput \<Rightarrow>
               (case getPkgVersion client pkgInput of
                  (Inl err, c) \<Rightarrow> (Inl (Wrap err ''failed to get package version''), c)
                | (Inr pkgVersion, c) \<Rightarrow>
                    occurrence_upsert c
                      (occurrenceCreate\<lparr>occ_package_id := Some (pv_id pkgVersion)\<rparr>)
                      (occurrenceConflictColumns @ [occurrence_FieldPackageID])
                      (And (NotNull occurrence_FieldPackageID) (IsNull occurrence_FieldSourceID))))
      | None \<Rightarrow>
          (case pos_Source subject of
             Some s \<Rightarrow>
               (case SourceInput s of
                  None \<Rightarrow> (Inl (Panic ''nil pointer dereference''), client)
                | Some srcInput \<Rightarrow>
                    (case upsertSource client srcInput of
                       (Inl err, c) \<Rightarrow> (Inl err, c)
                     | (Inr srcNameID, c) \<Rightarrow>
                         (case Atoi (ids_SourceNameID srcNameID) of
                            None \<Rightarrow>
                              (Inl (Wrap (NumError (ids_SourceNameID srcNameID))
                                         ''failed to get Source ID''), c)
                          | Some srcID \<Rightarrow>
                              occurrence_upsert c
                                (occurrenceCreate\<lparr>occ_source_id := Some srcID\<rparr>)
                                (occurrenceConflictColumns @ [occurrence_FieldSourceID])
                                (And (IsNull occurrence_FieldPackageID)
                                     (NotNull occurrence_FieldSourceID)))))
           | None \<Rightarrow>
               (Inl (GqlError (''IngestOccurrence'' @ '' :: '' @
                               ''subject must be either a package or source'')), client))))))"

definition IngestOccurrence ::
  "DB \<Rightarrow> PackageOrSourceInput \<Rightarrow> IDorArtifactInput \<Rightarrow> IsOccurrenceInputSpec \<Rightarrow>
     (error + string) \<times> DB" where
  "IngestOccurrence client subject art spec =
     (case WithinTX client (\<lambda>tx. IngestOccurrence_tx tx subject art spec) of
        (Inl err, c) \<Rightarrow>
          (on_err (\<lambda>e. GqlError (''IngestOccurrence'' @ '' :: '' @ err_Error e)) (Inl err), c)
      | (Inr recordID, c) \<Rightarrow>
          (case Only ''occurrence'' (filter (\<lambda>r. occ_id r = recordID) (Occurrence c)) of
             Inl err \<Rightarrow> (Inl (GqlError (''IngestOccurrence'' @ '' :: '' @ err_Error err)), c)
           | Inr record \<Rightarrow> (Inr (nodeID (occ_id record)), c)))"

section \<open>Dependency ingestion (dependency.go)\<close>

datatype dependency_Field =
    dependency_FieldPackageID
  | dependency_FieldVersionRange
  | dependency_FieldDependencyType
  | dependency_FieldJustification
  | dependency_FieldOrigin
  | dependency_FieldCollector
  | dependency_FieldDependentPackageNameID
  | dependency_FieldDependentPackageVersionID

fun dependency_col :: "dependency_Field \<Rightarrow> Dependency_row \<Rightarrow> val" where
  "dependency_col dependency_FieldPackageID r = IntV (dep_package_id r)"
| "dependency_col dependency_FieldVersionRange r = StrV (dep_version_range r)"
| "dependency_col dependency_FieldDependencyType r = EnumV (dep_dependency_type r)"
| "dependency_col dependency_FieldJustification r = StrV (dep_justification r)"
| "dependency_col dependency_FieldOrigin r = StrV (dep_origin r)"
| "dependency_col dependency_FieldCollector r = StrV (dep_collector r)"
| "dependency_col dependency_FieldDependentPackageNameID r =
     optInt (dep_dependent_package_name_id r)"
| "dependency_col dependency_FieldDependentPackageVersionID r =
     optInt (dep_dependent_package_version_id r)"

fun dependencyTypeToEnum :: "DependencyType \<Rightarrow> dependency_DependencyType" where
  "dependencyTypeToEnum DependencyTypeDirect = DependencyTypeDIRECT"
| "dependencyTypeToEnum DependencyTypeIndirect = DependencyTypeINDIRECT"
| "dependencyTypeToEnum _ = DependencyTypeUNKNOWN"

definition dependency_upsert ::
  "DB \<Rightarrow> Dependency_row \<Rightarrow> dependency_Field list \<Rightarrow> dependency_Field Predicate \<Rightarrow>
     (error + nat) \<times> DB" where
  "dependency_upsert client query conflictColumns conflictWhere =
     (case Ignore dep_id (\<lambda>n r. r\<lparr>dep_id := n\<rparr>) dependency_col
             conflictColumns conflictWhere query (Dependency client) of
        (res, tbl) \<Rightarrow> (res, client\<lparr>Dependency := tbl\<rparr>))"

text \<open>The function run inside the transaction (dependency.go, lines 79 to 139).\<close>

definition IngestDependency_tx ::
  "DB \<Rightarrow> IDorPkgInput \<Rightarrow> IDorPkgInput \<Rightarrow> MatchFlags \<Rightarrow> IsDependencyInputSpec \<Rightarrow>
     (error + nat) \<times> DB" where
  "IngestDependency_tx client pkg depPkg depPkgMatchType dep =
     (case PackageInput pkg of
        None \<Rightarrow> (Inl (Panic ''nil pointer dereference''), client)
      | Some pkgInput \<Rightarrow>
     (case getPkgVersion client pkgInput of
        (Inl err, c) \<Rightarrow> (Inl err, c)
      | (Inr p, c) \<Rightarrow>
     (let query =
            \<lparr>dep_id = 0, dep_package_id = pv_id p, dep_version_range = dep_VersionRange dep,
             dep_dependency_type = dependencyTypeToEnum (dep_DependencyType dep),
             dep_justification = dep_Justification dep, dep_origin = dep_Origin dep,
             dep_collector = dep_Collector dep,
             dep_dependent_package_name_id = None, dep_dependent_package_version_id = None\<rparr>;
          conflictColumns =
            [dependency_FieldPackageID, dependency_FieldVersionRange,
             dependency_FieldDependencyType, dependency_FieldJustification,
             dependency_FieldOrigin, dependency_FieldCollector]
      in
     (if Pkg depPkgMatchType = PkgMatchTypeAllVersions then
        (case PackageInput depPkg of
           None \<Rightarrow> (Inl (Panic ''nil pointer dereference''), c)
         | Some depInput \<Rightarrow>
             (case getPkgName c depInput of
                (Inl err, c') \<Rightarrow> (Inl err, c')
              | (Inr dpn, c') \<Rightarrow>
                  dependency_upsert c'
                    (query\<lparr>dep_dependent_package_name_id := Some (pn_id dpn)\<rparr>)
                    (conflictColumns @ [dependency_FieldDependentPackageNameID])
                    (And (NotNull dependency_FieldDependentPackageNameID)
                         (IsNull dependency_FieldDependentPackageVersionID))))
      else
        (case PackageInput depPkg of
           None \<Rightarrow> (Inl (Panic ''nil pointer dereference''), c)
         | Some depInput \<Rightarrow>
             (case getPkgVersion c depInput of
                (Inl err, c') \<Rightarrow> (Inl err, c')
              | (Inr dpv, c') \<Rightarrow>
                  dependency_upsert c'
                    (query\<lparr>dep_dependent_package_version_id := Some (pv_id dpv)\<rparr>)
                    (conflictColumns @ [dependency_FieldDependentPackageVersionID])
                    (And (IsNull dependency_FieldDependentPackageNameID)
                         (NotNull dependency_FieldDependentPackageVersionID))))))))"

definition IngestDependency ::
  "DB \<Rightarrow> IDorPkgInput \<Rightarrow> IDorPkgInput \<Rightarrow> MatchFlags \<Rightarrow> IsDependencyInputSpec \<Rightarrow>
     (error + string) \<times> DB" where
  "IngestDependency client pkg depPkg depPkgMatchType dep =
     (case WithinTX client (\<lambda>tx. IngestDependency_tx tx pkg depPkg depPkgMatchType dep) of
        (Inl err, c) \<Rightarrow> (on_err (\<lambda>e. Wrap e ''IngestDependency'') (Inl err), c)
      | (Inr recordID, c) \<Rightarrow> (Inr (nodeID recordID), c))"


section \<open>Bill of materials ingestion (sbom.go)\<close>

datatype billofmaterials_Field =
    billofmaterials_FieldURI
  | billofmaterials_FieldAlgorithm
  | billofmaterials_FieldDigest
  | billofmaterials_FieldDownloadLocation
  | billofmaterials_FieldKnownSince
  | billofmaterials_FieldPackageID
  | billofmaterials_FieldArtifactID

fun billofmaterials_col :: "billofmaterials_Field \<Rightarrow> BillOfMaterials_row \<Rightarrow> val" where
  "billofmaterials_col billofmaterials_FieldURI r = StrV (bom_uri r)"
| "billofmaterials_col billofmaterials_FieldAlgorithm r = StrV (bom_algorithm r)"
| "billofmaterials_col billofmaterials_FieldDigest r = StrV (bom_digest r)"
| "billofmaterials_col billofmaterials_FieldDownloadLocation r = StrV (bom_download_location r)"
| "billofmaterials_col billofmaterials_FieldKnownSince r = TimeV (bom_known_since r)"
| "billofmaterials_col billofmaterials_FieldPackageID r = optInt (bom_package_id r)"
| "billofmaterials_col billofmaterials_FieldArtifactID r = optInt (bom_artifact_id r)"

definition billofmaterials_upsert ::
  "DB \<Rightarrow> BillOfMaterials_row \<Rightarrow> billofmaterials_Field list \<Rightarrow>
     billofmaterials_Field Predicate \<Rightarrow> (error + nat) \<times> DB" where
  "billofmaterials_upsert client sbomCreate conflictColumns conflictWhere =
     (case DoNothing bom_id (\<lambda>n r. r\<lparr>bom_id := n\<rparr>) billofmaterials_col
             conflictColumns conflictWhere sbomCreate (BillOfMaterials client) of
        (res, tbl) \<Rightarrow> (res, client\<lparr>BillOfMaterials := tbl\<rparr>))"

text \<open>
  One of the four loops over an included set (sbom.go, lines 162 to 201): each
  identifier is looked up with \<^verbatim>\<open>OnlyID\<close>; the first that fails ends the function with
  the loop's own error, otherwise the identifiers found are added to the row in order.
\<close>

fun included_ids :: "(string \<Rightarrow> error + nat) \<Rightarrow> (error \<Rightarrow> error) \<Rightarrow> string list \<Rightarrow> error + nat list" where
  "included_ids lookup failed [] = Inr []"
| "included_ids lookup failed (x # xs) =
     (case lookup x of
        Inl err \<Rightarrow> Inl (failed err)
      | Inr n \<Rightarrow>
          (case included_ids lookup failed xs of
             Inl e \<Rightarrow> Inl e
           | Inr ns \<Rightarrow> Inr (n # ns)))"

text \<open>
  What follows the upsert (sbom.go, lines 210 to 222), given the upsert's outcome: an
  identifier is returned as it is; \<^verbatim>\<open>sql.ErrNoRows\<close> starts a second read, of the one
  row with the specification's URI; every other error is wrapped and returned.
\<close>

definition sbom_upsert_result :: "DB \<Rightarrow> HasSBOMInputSpec \<Rightarrow> error + nat \<Rightarrow> error + nat" where
  "sbom_upsert_result client spec res =
     (case res of
        Inr n \<Rightarrow> Inr n
      | Inl err \<Rightarrow>
          (if err \<noteq> ErrNoRows then Inl (Wrap err ''IngestHasSbom'')
           else
             (case OnlyID ''bill_of_materials'' bom_id
                     (filter (\<lambda>r. bom_uri r = sbom_URI spec) (BillOfMaterials client)) of
                Inl e \<Rightarrow> Inl (GqlError (''IngestHasSbom'' @ '' ::  '' @ err_Error e))
              | Inr n \<Rightarrow> Inr n)))"

text \<open>
  The second half of the transaction (sbom.go, lines 157 to 222), entered with the row
  under construction once its subject is set.
\<close>

definition IngestHasSbom_includes ::
  "DB \<Rightarrow> HasSBOMInputSpec \<Rightarrow> HasSBOMIncludesInputSpec \<Rightarrow> BillOfMaterials_row \<Rightarrow>
     billofmaterials_Field list \<Rightarrow> billofmaterials_Field Predicate \<Rightarrow> (error + nat) \<times> DB" where
  "IngestHasSbom_includes client spec includes sbomCreate conflictColumns conflictWhere =
     (let sortedPkgIDs = SortAndRemoveDups (inc_Packages includes);
          sortedArtIDs = SortAndRemoveDups (inc_Artifacts includes);
          sortedDependencyIDs = SortAndRemoveDups (inc_Dependencies includes);
          sortedOccurrenceIDs = SortAndRemoveDups (inc_Occurrences includes)
      in
     (case included_ids
             (\<lambda>x. OnlyID ''package_version'' pv_id
                     (filter (\<lambda>r. IDEQ x (pv_id r)) (PackageVersion client)))
             (\<lambda>err. GqlError (''IngestHasSbom'' @ '' '' @
                       ''error querying for PackageVersion by ID'' @ '' :: '' @ err_Error err))
             sortedPkgIDs of
        Inl e \<Rightarrow> (Inl e, client)
      | Inr pkgIDs \<Rightarrow>
     (case included_ids
             (\<lambda>x. OnlyID ''artifact'' art_id (filter (\<lambda>r. IDEQ x (art_id r)) (Artifact client)))
             (\<lambda>err. GqlError (''IngestHasSbom'' @ '' :: '' @ ''error querying for artifact by ID''))
             sortedArtIDs of
        Inl e \<Rightarrow> (Inl e, client)
      | Inr artifactIds \<Rightarrow>
     (case included_ids
             (\<lambda>x. OnlyID ''dependency'' dep_id
                     (filter (\<lambda>r. IDEQ x (dep_id r)) (Dependency client)))
             (\<lambda>err. GqlError (''IngestHasSbom'' @ '' :: '' @
                       ''includes.Dependencies must be a valid IsDependency ID''))
             sortedDependencyIDs of
        Inl e \<Rightarrow> (Inl e, client)
      | Inr isDepIDs \<Rightarrow>
     (case included_ids
             (\<lambda>x. OnlyID ''occurrence'' occ_id
                     (filter (\<lambda>r. IDEQ x (occ_id r)) (Occurrence client)))
             (\<lambda>err. GqlError (''IngestHasSbom'' @ '' :: '' @
                       ''includes.Occurrences must be a valid IsOccurrence ID''))
             sortedOccurrenceIDs of
        Inl e \<Rightarrow> (Inl e, client)
      | Inr isOccIDs \<Rightarrow>
     (case billofmaterials_upsert client
             (sbomCreate\<lparr>bom_included_software_packages := pkgIDs,
                         bom_included_software_artifacts := artifactIds,
                         bom_included_dependencies := isDepIDs,
                         bom_included_occurrences := isOccIDs\<rparr>)
             conflictColumns conflictWhere of
        (res, c) \<Rightarrow>
          (case sbom_upsert_result c spec res of
             Inl e \<Rightarrow> (Inl e, c)
           | Inr n \<Rightarrow> (Inr n, c))))))))"

text \<open>
  The first half of the transaction (sbom.go, lines 127 to 155): the branch on the
  subject, which sets the row's foreign key, extends the conflict columns and chooses
  the scoping predicate.
\<close>

definition IngestHasSbom_subject ::
  "DB \<Rightarrow> PackageOrArtifactInput \<Rightarrow> BillOfMaterials_row \<Rightarrow> billofmaterials_Field list \<Rightarrow>
     (error + BillOfMaterials_row \<times> billofmaterials_Field list \<times> billofmaterials_Field Predicate)
       \<times> DB" where
  "IngestHasSbom_subject client subject sbomCreate conflictColumns =
     (case poa_Package subject of
        Some pk \<Rightarrow>
          (case PackageInput pk of
             None \<Rightarrow> (Inl (Panic ''nil pointer dereference''), client)
           | Some pkgInput \<Rightarrow>
               (case getPkgVersion client pkgInput of
                  (Inl err, c) \<Rightarrow>
                    (Inl (GqlError (''IngestHasSbom'' @ '' ::  '' @ err_Error err)), c)
                | (Inr p, c) \<Rightarrow>
                    (Inr (sbomCreate\<lparr>bom_package_id := Some (pv_id p)\<rparr>,
                          conflictColumns @ [billofmaterials_FieldPackageID],
                          And (NotNull billofmaterials_FieldPackageID)
                              (IsNull billofmaterials_FieldArtifactID)), c)))
      | None \<Rightarrow>
          (case poa_Artifact subject of
             Some a \<Rightarrow>
               (case ArtifactInput a of
                  None \<Rightarrow> (Inl (Panic ''nil pointer dereference''), client)
                | Some artInput \<Rightarrow>
                    (case Only ''artifact''
                            (filter (artifactQueryInputPredicates artInput) (Artifact client)) of
                       Inl err \<Rightarrow>
                         (Inl (GqlError (''IngestHasSbom'' @ '' ::  '' @ err_Error err)), client)
                     | Inr art \<Rightarrow>
                         (Inr (sbomCreate\<lparr>bom_artifact_id := Some (art_id art)\<rparr>,
                               conflictColumns @ [billofmaterials_FieldArtifactID],
                               And (IsNull billofmaterials_FieldPackageID)
                                   (NotNull billofmaterials_FieldArtifactID)), client)))
           | None \<Rightarrow>
               (Inl (GqlError (''IngestHasSbom'' @ '' :: '' @
                               ''subject must be either a package or artifact'')), client)))"

text \<open>
  The function run inside the transaction (sbom.go, lines 104 to 223). A
  \<^verbatim>\<open>time.Time\<close> is its instant, which \<^verbatim>\<open>UTC()\<close> keeps.
\<close>

definition IngestHasSbom_tx ::
  "DB \<Rightarrow> PackageOrArtifactInput \<Rightarrow> HasSBOMInputSpec \<Rightarrow> HasSBOMIncludesInputSpec \<Rightarrow>
     (error + nat) \<times> DB" where
  "IngestHasSbom_tx client subject spec includes =
     (let sbomCreate =
            \<lparr>bom_id = 0, bom_uri = sbom_URI spec, bom_algorithm = ToLower (sbom_Algorithm spec),
             bom_digest = ToLower (sbom_Digest spec),
             bom_download_location = sbom_DownloadLocation spec,
             bom_origin = sbom_Origin spec, bom_collector = sbom_Collector spec,
             bom_known_since = sbom_KnownSince spec,
             bom_package_id = None, bom_artifact_id = None,
             bom_included_software_packages = [], bom_included_software_artifacts = [],
             bom_included_dependencies = [], bom_included_occurrences = []\<rparr>;
          conflictColumns =
            [billofmaterials_FieldURI, billofmaterials_FieldAlgorithm,
             billofmaterials_FieldDigest, billofmaterials_FieldDownloadLocation,
             billofmaterials_FieldKnownSince]
      in
     (case IngestHasSbom_subject client subject sbomCreate conflictColumns of
        (Inl e, c) \<Rightarrow> (Inl e, c)
      | (Inr (row, cols, conflictWhere), c) \<Rightarrow>
          IngestHasSbom_includes c spec includes row cols conflictWhere))"

definition IngestHasSbom ::
  "DB \<Rightarrow> PackageOrArtifactInput \<Rightarrow> HasSBOMInputSpec \<Rightarrow> HasSBOMIncludesInputSpec \<Rightarrow>
     (error + string) \<times> DB" where
  "IngestHasSbom client subject spec includes =
     (case WithinTX client (\<lambda>tx. IngestHasSbom_tx tx subject spec includes) of
        (Inl err, c) \<Rightarrow>
          (on_err (\<lambda>e. GqlError (''IngestHasSbom'' @ '' :: '' @ err_Error e)) (Inl err), c)
      | (Inr sbomId, c) \<Rightarrow> (Inr (Itoa sbomId), c))"


section \<open>Batch ingestion\<close>

text \<open>
  \<^verbatim>\<open>IngestOccurrences\<close> and \<^verbatim>\<open>IngestDependencies\<close> read the inputs of item \<open>i\<close> in
  the loop (\<^verbatim>\<open>pkgs[index]\<close>, ...: an index past the end of a slice panics there) and hand
  a closure to \<^verbatim>\<open>concurrently\<close>. \<open>dispatch\<close> is that loop: the items handed out, in
  order, and the panic that cut the loop short, if one did.
\<close>

definition index_slice :: "'a list \<Rightarrow> nat \<Rightarrow> error + 'a" where
  "index_slice xs i = (if i < length xs then Inr (xs ! i) else Inl (Panic ''index out of range''))"

fun dispatch :: "(nat \<Rightarrow> error + 'i) \<Rightarrow> nat list \<Rightarrow> 'i list \<times> error option" where
  "dispatch item [] = ([], None)"
| "dispatch item (i # rest) =
     (case item i of
        Inl e \<Rightarrow> ([], Some e)
      | Inr x \<Rightarrow> (case dispatch item rest of (xs, e) \<Rightarrow> (x # xs, e)))"

text \<open>
  Modelled from the spec: \<^verbatim>\<open>concurrently\<close> with \<^verbatim>\<open>errgroup\<close> (section 5; the helper
  is not among the sources). Every item is a unit of work with a transaction of its own,
  so a run of the group is the items' calls one after another in the order in which
  they complete, the schedule \<open>sched\<close>, a list of item indices. An item that succeeds
  writes its identifier to its own slot, \<^verbatim>\<open>models[index] = ...\<close>; the first item that
  fails ends the run: its error is what \<^verbatim>\<open>eg.Wait()\<close> returns, and outstanding work is
  cancelled.
\<close>

fun run_group ::
  "(DB \<Rightarrow> 'i \<Rightarrow> (error + string) \<times> DB) \<Rightarrow> 'i list \<Rightarrow> nat list \<Rightarrow> DB \<Rightarrow> string list \<Rightarrow>
     (error + string list) \<times> DB" where
  "run_group work items [] client models = (Inr models, client)"
| "run_group work items (index # sched) client models =
     (case work client (items ! index) of
        (Inl err, c) \<Rightarrow> (Inl err, c)
      | (Inr m, c) \<Rightarrow> run_group work items sched c (models[index := m]))"

text \<open>
  A batch function: the loop hands out the items, the group runs those handed out, and
  a panic of the loop is the call's outcome whatever the group did.
\<close>

definition batch ::
  "(DB \<Rightarrow> 'i \<Rightarrow> (error + string) \<times> DB) \<Rightarrow> (nat \<Rightarrow> error + 'i) \<Rightarrow> nat \<Rightarrow> nat list \<Rightarrow> DB \<Rightarrow>
     (error + string list) \<times> DB" where
  "batch work item n sched client =
     (case dispatch item [0..<n] of
        (items, p) \<Rightarrow>
          (case run_group work items (filter (\<lambda>i. i < length items) sched) client
                  (replicate n []) of
             (res, c) \<Rightarrow> (case p of Some e \<Rightarrow> (Inl e, c) | None \<Rightarrow> (res, c))))"

definition IngestOccurrences_item ::
  "PackageOrSourceInputs \<Rightarrow> IDorArtifactInput list \<Rightarrow> IsOccurrenceInputSpec list \<Rightarrow> nat \<Rightarrow>
     error + (PackageOrSourceInput \<times> IDorArtifactInput \<times> IsOccurrenceInputSpec)" where
  "IngestOccurrences_item subjects artifacts occurrences index =
     (case (if length (pos_Packages subjects) > 0
            then (case index_slice (pos_Packages subjects) index of
                    Inl e \<Rightarrow> Inl e
                  | Inr p \<Rightarrow> Inr \<lparr>pos_Package = Some p, pos_Source = None\<rparr>)
            else (case index_slice (pos_Sources subjects) index of
                    Inl e \<Rightarrow> Inl e
                  | Inr s \<Rightarrow> Inr \<lparr>pos_Package = None, pos_Source = Some s\<rparr>)) of
        Inl e \<Rightarrow> Inl e
      | Inr subject \<Rightarrow>
          (case index_slice artifacts index of
             Inl e \<Rightarrow> Inl e
           | Inr art \<Rightarrow>
               (case index_slice occurrences index of
                  Inl e \<Rightarrow> Inl e
                | Inr occ \<Rightarrow> Inr (subject, art, occ))))"

definition IngestOccurrences ::
  "nat list \<Rightarrow> DB \<Rightarrow> PackageOrSourceInputs \<Rightarrow> IDorArtifactInput list \<Rightarrow>
     IsOccurrenceInputSpec list \<Rightarrow> (error + string list) \<times> DB" where
  "IngestOccurrences sched client subjects artifacts occurrences =
     batch (\<lambda>c (subject, art, occ). IngestOccurrence c subject art occ)
       (IngestOccurrences_item subjects artifacts occurrences)
       (length occurrences) sched client"

definition IngestDependencies_item ::
  "IDorPkgInput list \<Rightarrow> IDorPkgInput list \<Rightarrow> IsDependencyInputSpec list \<Rightarrow> nat \<Rightarrow>
     error + (IDorPkgInput \<times> IDorPkgInput \<times> IsDependencyInputSpec)" where
  "IngestDependencies_item pkgs depPkgs dependencies index =
     (case index_slice pkgs index of
        Inl e \<Rightarrow> Inl e
      | Inr pkg \<Rightarrow>
          (case index_slice depPkgs index of
             Inl e \<Rightarrow> Inl e
           | Inr depPkg \<Rightarrow>
               (case index_slice dependencies index of
                  Inl e \<Rightarrow> Inl e
                | Inr dep \<Rightarrow> Inr (pkg, depPkg, dep))))"

definition IngestDependencies ::
  "nat list \<Rightarrow> DB \<Rightarrow> IDorPkgInput list \<Rightarrow> IDorPkgInput list \<Rightarrow> MatchFlags \<Rightarrow>
     IsDependencyInputSpec list \<Rightarrow> (error + string list) \<times> DB" where
  "IngestDependencies sched client pkgs depPkgs depPkgMatchType dependencies =
     batch (\<lambda>c (pkg, depPkg, dep). IngestDependency c pkg depPkg depPkgMatchType dep)
       (IngestDependencies_item pkgs depPkgs dependencies)
       (length dependencies) sched client"

text \<open>
  \<^verbatim>\<open>IngestHasSBOMs\<close> is a plain loop: item \<open>i\<close> is ingested before item \<open>i + 1\<close> is
  looked at, and the first error ends the call.
\<close>

definition IngestHasSBOMs_subject ::
  "PackageOrArtifactInputs \<Rightarrow> nat \<Rightarrow> error + PackageOrArtifactInput" where
  "IngestHasSBOMs_subject subjects i =
     (if length (poa_Artifacts subjects) > 0
      then (case index_slice (poa_Artifacts subjects) i of
              Inl e \<Rightarrow> Inl e
            | Inr a \<Rightarrow> Inr \<lparr>poa_Package = None, poa_Artifact = Some a\<rparr>)
      else (case index_slice (poa_Packages subjects) i of
              Inl e \<Rightarrow> Inl e
            | Inr p \<Rightarrow> Inr \<lparr>poa_Package = Some p, poa_Artifact = None\<rparr>))"

fun IngestHasSBOMs_loop ::
  "DB \<Rightarrow> PackageOrArtifactInputs \<Rightarrow> HasSBOMIncludesInputSpec list \<Rightarrow> nat \<Rightarrow>
     HasSBOMInputSpec list \<Rightarrow> string list \<Rightarrow> (error + string list) \<times> DB" where
  "IngestHasSBOMs_loop client subjects includes i [] modelHasSboms = (Inr modelHasSboms, client)"
| "IngestHasSBOMs_loop client subjects includes i (hasSbom # rest) modelHasSboms =
     (case IngestHasSBOMs_subject subjects i of
        Inl e \<Rightarrow> (Inl e, client)
      | Inr subject \<Rightarrow>
          (case index_slice includes i of
             Inl e \<Rightarrow> (Inl e, client)
           | Inr inc \<Rightarrow>
               (case IngestHasSbom client subject hasSbom inc of
                  (Inl err, c) \<Rightarrow>
                    (on_err (\<lambda>e. GqlError (''IngestHasSBOMs failed with err: '' @ err_Error e))
                       (Inl err), c)
                | (Inr modelHasSbom, c) \<Rightarrow>
                    IngestHasSBOMs_loop c subjects includes (Suc i) rest
                      (modelHasSboms @ [modelHasSbom]))))"

definition IngestHasSBOMs ::
  "DB \<Rightarrow> PackageOrArtifactInputs \<Rightarrow> HasSBOMInputSpec list \<Rightarrow> HasSBOMIncludesInputSpec list \<Rightarrow>
     (error + string list) \<times> DB" where
  "IngestHasSBOMs client subjects hasSBOMs includes =
     IngestHasSBOMs_loop client subjects includes 0 hasSBOMs []"


section \<open>Queries\<close>

text \<open>
  A predicate of the query builder is a test on a row, with the store at hand to follow
  an edge. \<^verbatim>\<open>NoOpSelector\<close> adds no condition; \<^verbatim>\<open>optionalPredicate\<close> applies a
  predicate constructor to a field of the filter when the field is set. Both helpers,
  like \<^verbatim>\<open>packageVersionQuery\<close>, \<^verbatim>\<open>packageNameQuery\<close>, \<^verbatim>\<open>artifactQueryPredicates\<close>
  and \<^verbatim>\<open>toLowerPtr\<close>, are not among the sources.
  Modelled from the spec: these helpers (section 4.5): filters compose conjunctively,
  a field that is not set constrains nothing, and a filter on a related entity holds
  when a related row satisfies it.
\<close>

type_synonym 'r pred = "DB \<Rightarrow> 'r \<Rightarrow> bool"

definition NoOpSelector :: "'r pred" where
  "NoOpSelector = (\<lambda>client r. True)"

definition optionalPredicate :: "'a option \<Rightarrow> ('a \<Rightarrow> 'r pred) \<Rightarrow> 'r pred" where
  "optionalPredicate v fn = (case v of None \<Rightarrow> NoOpSelector | Some x \<Rightarrow> fn x)"

definition AndP :: "'r pred list \<Rightarrow> 'r pred" where
  "AndP predicates = (\<lambda>client r. list_all (\<lambda>p. p client r) predicates)"

definition OrP :: "'r pred \<Rightarrow> 'r pred \<Rightarrow> 'r pred" where
  "OrP p q = (\<lambda>client r. p client r \<or> q client r)"

definition toLowerPtr :: "string option \<Rightarrow> string option" where
  "toLowerPtr s = map_option ToLower s"

record PkgSpec =
  ps_ID :: "string option"
  ps_Type :: "string option"
  ps_Namespace :: "string option"
  ps_Name :: "string option"
  ps_Version :: "string option"
  ps_Subpath :: "string option"

record SourceSpec =
  ss_ID :: "string option"
  ss_Type :: "string option"
  ss_Namespace :: "string option"
  ss_Name :: "string option"
  ss_Tag :: "string option"
  ss_Commit :: "string option"

record ArtifactSpec =
  as_ID :: "string option"
  as_Algorithm :: "string option"
  as_Digest :: "string option"

record PackageOrSourceSpec =
  poss_Package :: "PkgSpec option"
  poss_Source :: "SourceSpec option"

record PackageOrArtifactSpec =
  poas_Package :: "PkgSpec option"
  poas_Artifact :: "ArtifactSpec option"

record IsOccurrenceSpec =
  ios_ID :: "string option"
  ios_Subject :: "PackageOrSourceSpec option"
  ios_Artifact :: "ArtifactSpec option"
  ios_Justification :: "string option"
  ios_Origin :: "string option"
  ios_Collector :: "string option"

record IsDependencySpec =
  idsp_ID :: "string option"
  idsp_Package :: "PkgSpec option"
  idsp_DependencyPackage :: "PkgSpec option"
  idsp_VersionRange :: "string option"
  idsp_DependencyType :: "DependencyType option"
  idsp_Justification :: "string option"
  idsp_Origin :: "string option"
  idsp_Collector :: "string option"

record HasSBOMSpec =
  hss_ID :: "string option"
  hss_Subject :: "PackageOrArtifactSpec option"
  hss_URI :: "string option"
  hss_Algorithm :: "string option"
  hss_Digest :: "string option"
  hss_DownloadLocation :: "string option"
  hss_Origin :: "string option"
  hss_Collector :: "string option"
  hss_KnownSince :: "int option"
  hss_IncludedSoftware :: "PackageOrArtifactSpec list"
  hss_IncludedDependencies :: "IsDependencySpec option list"
  hss_IncludedOccurrences :: "IsOccurrenceSpec option list"

definition packageNameQuery :: "PkgSpec \<Rightarrow> PackageName_row pred" where
  "packageNameQuery spec =
     AndP [optionalPredicate (ps_Name spec) (\<lambda>v client r. pn_name r = v),
           optionalPredicate (ps_Namespace spec) (\<lambda>v client r. pn_namespace r = v),
           optionalPredicate (ps_Type spec) (\<lambda>v client r. pn_type r = v)]"

definition packageVersionQuery :: "PkgSpec \<Rightarrow> PackageVersion_row pred" where
  "packageVersionQuery spec =
     AndP [optionalPredicate (ps_ID spec) (\<lambda>v client r. IDEQ v (pv_id r)),
           optionalPredicate (ps_Version spec) (\<lambda>v client r. pv_version r = v),
           optionalPredicate (ps_Subpath spec) (\<lambda>v client r. pv_subpath r = v),
           (\<lambda>client r. list_ex (\<lambda>n. pn_id n = pv_name_id r \<and> packageNameQuery spec client n)
                          (PackageName client))]"

definition artifactQueryPredicates :: "ArtifactSpec option \<Rightarrow> Artifact_row pred" where
  "artifactQueryPredicates spec =
     (case spec of
        None \<Rightarrow> NoOpSelector
      | Some a \<Rightarrow>
          AndP [optionalPredicate (as_ID a) (\<lambda>v client r. IDEQ v (art_id r)),
                optionalPredicate (toLowerPtr (as_Algorithm a)) (\<lambda>v client r. art_algorithm r = v),
                optionalPredicate (toLowerPtr (as_Digest a)) (\<lambda>v client r. art_digest r = v)])"

text \<open>The edge predicates of the generated packages: a related row satisfies the filter.\<close>

definition occurrence_HasArtifactWith :: "Artifact_row pred \<Rightarrow> Occurrence_row pred" where
  "occurrence_HasArtifactWith p =
     (\<lambda>client r. list_ex (\<lambda>a. art_id a = occ_artifact_id r \<and> p client a) (Artifact client))"

definition occurrence_HasPackageWith :: "PackageVersion_row pred \<Rightarrow> Occurrence_row pred" where
  "occurrence_HasPackageWith p =
     (\<lambda>client r. list_ex (\<lambda>v. Some (pv_id v) = occ_package_id r \<and> p client v)
                    (PackageVersion client))"

definition occurrence_HasSourceWith :: "SourceName_row pred list \<Rightarrow> Occurrence_row pred" where
  "occurrence_HasSourceWith ps =
     (\<lambda>client r. list_ex (\<lambda>n. Some (sn_id n) = occ_source_id r \<and> AndP ps client n)
                    (SourceName client))"

definition dependency_HasPackageWith :: "PackageVersion_row pred \<Rightarrow> Dependency_row pred" where
  "dependency_HasPackageWith p =
     (\<lambda>client r. list_ex (\<lambda>v. pv_id v = dep_package_id r \<and> p client v) (PackageVersion client))"

definition dependency_HasDependentPackageNameWith ::
  "PackageName_row pred \<Rightarrow> Dependency_row pred" where
  "dependency_HasDependentPackageNameWith p =
     (\<lambda>client r. list_ex (\<lambda>n. Some (pn_id n) = dep_dependent_package_name_id r \<and> p client n)
                    (PackageName client))"

definition dependency_HasDependentPackageVersionWith ::
  "PackageVersion_row pred \<Rightarrow> Dependency_row pred" where
  "dependency_HasDependentPackageVersionWith p =
     (\<lambda>client r. list_ex (\<lambda>v. Some (pv_id v) = dep_dependent_package_version_id r \<and> p client v)
                    (PackageVersion client))"

text \<open>\<^verbatim>\<open>isOccurrenceQuery\<close> (occurrence.go, lines 201 to 245).\<close>

definition isOccurrenceQuery :: "IsOccurrenceSpec option \<Rightarrow> Occurrence_row pred" where
  "isOccurrenceQuery fltr =
     (case fltr of
        None \<Rightarrow> NoOpSelector
      | Some f \<Rightarrow>
          AndP
            ([optionalPredicate (ios_ID f) (\<lambda>v client r. IDEQ v (occ_id r)),
              optionalPredicate (ios_Justification f) (\<lambda>v client r. occ_justification r = v),
              optionalPredicate (ios_Origin f) (\<lambda>v client r. occ_origin r = v),
              optionalPredicate (ios_Collector f) (\<lambda>v client r. occ_collector r = v)]
             @ (case ios_Artifact f of
                  None \<Rightarrow> []
                | Some a \<Rightarrow>
                    [occurrence_HasArtifactWith
                       (AndP [optionalPredicate (as_Digest a) (\<lambda>v client r. art_digest r = v),
                              optionalPredicate (as_Algorithm a) (\<lambda>v client r. art_algorithm r = v),
                              optionalPredicate (as_ID a) (\<lambda>v client r. IDEQ v (art_id r))])])
             @ (case ios_Subject f of
                  None \<Rightarrow> []
                | Some sub \<Rightarrow>
                    (case poss_Package sub of
                       Some pk \<Rightarrow> [occurrence_HasPackageWith (packageVersionQuery pk)]
                     | None \<Rightarrow>
                         (case poss_Source sub of
                            None \<Rightarrow> []
                          | Some src \<Rightarrow>
                              [occurrence_HasSourceWith
                                 [optionalPredicate (ss_ID src) (\<lambda>v client r. IDEQ v (sn_id r)),
                                  AndP [optionalPredicate (ss_Namespace src)
                                          (\<lambda>v client r. sn_namespace r = v),
                                        optionalPredicate (ss_Type src)
                                          (\<lambda>v client r. sn_type r = v)],
                                  optionalPredicate (ss_Name src) (\<lambda>v client r. sn_name r = v),
                                  optionalPredicate (ss_Commit src) (\<lambda>v client r. sn_commit r = v),
                                  optionalPredicate (ss_Tag src) (\<lambda>v client r. sn_tag r = v)]])))))"

text \<open>
  \<^verbatim>\<open>IsOccurrence\<close> (occurrence.go, lines 36 to 64): every row the predicate accepts,
  each converted by \<^verbatim>\<open>toModelIsOccurrenceWithSubject\<close>. The converters of the three
  queries are not among the sources and are parameters here.
\<close>

definition IsOccurrence ::
  "(DB \<Rightarrow> Occurrence_row \<Rightarrow> 'm) \<Rightarrow> DB \<Rightarrow> IsOccurrenceSpec option \<Rightarrow> error + 'm list" where
  "IsOccurrence toModelIsOccurrenceWithSubject client query =
     (let records = filter (isOccurrenceQuery query client) (Occurrence client)
      in Inr (map (toModelIsOccurrenceWithSubject client) records))"

text \<open>\<^verbatim>\<open>isDependencyQuery\<close> (dependency.go, lines 158 to 191).\<close>

definition isDependencyQuery :: "IsDependencySpec option \<Rightarrow> Dependency_row pred" where
  "isDependencyQuery fltr =
     (case fltr of
        None \<Rightarrow> NoOpSelector
      | Some f \<Rightarrow>
          AndP
            ([optionalPredicate (idsp_ID f) (\<lambda>v client r. IDEQ v (dep_id r)),
              optionalPredicate (idsp_VersionRange f) (\<lambda>v client r. dep_version_range r = v),
              optionalPredicate (idsp_Justification f) (\<lambda>v client r. dep_justification r = v),
              optionalPredicate (idsp_Origin f) (\<lambda>v client r. dep_origin r = v),
              optionalPredicate (idsp_Collector f) (\<lambda>v client r. dep_collector r = v)]
             @ (case idsp_DependencyPackage f of
                  None \<Rightarrow> []
                | Some dp \<Rightarrow>
                    (if ps_Version dp = None
                     then [OrP (dependency_HasDependentPackageNameWith (packageNameQuery dp))
                               (dependency_HasDependentPackageVersionWith (packageVersionQuery dp))]
                     else [dependency_HasDependentPackageVersionWith (packageVersionQuery dp)]))
             @ (case idsp_Package f of
                  None \<Rightarrow> []
                | Some pk \<Rightarrow> [dependency_HasPackageWith (packageVersionQuery pk)])
             @ (case idsp_DependencyType f of
                  None \<Rightarrow> []
                | Some t \<Rightarrow> [\<lambda>client r. dep_dependency_type r = dependencyTypeToEnum t])))"

text \<open>
  \<^verbatim>\<open>collect\<close> maps a converter over the records. \<^verbatim>\<open>MaxPageSize\<close>, a constant that
  is not among the sources, is a parameter of the two queries that use it.
\<close>

definition collect :: "'r list \<Rightarrow> ('r \<Rightarrow> 'm) \<Rightarrow> 'm list" where
  "collect records f = map f records"

text \<open>\<^verbatim>\<open>IsDependency\<close> (dependency.go, lines 30 to 49).\<close>

definition IsDependency ::
  "nat \<Rightarrow> (DB \<Rightarrow> Dependency_row \<Rightarrow> 'm) \<Rightarrow> DB \<Rightarrow> IsDependencySpec option \<Rightarrow> error + 'm list" where
  "IsDependency MaxPageSize toModelIsDependencyWithBackrefs client spec =
     (if spec = None then Inr []
      else
        (let deps = take MaxPageSize
                      (sort_key dep_id (filter (isDependencyQuery spec client) (Dependency client)))
         in Inr (collect deps (toModelIsDependencyWithBackrefs client))))"

text \<open>\<^verbatim>\<open>HasSBOM\<close> (sbom.go, lines 34 to 99). The filter is dereferenced at once.\<close>

definition billofmaterials_included ::
  "('r \<Rightarrow> nat) \<Rightarrow> (DB \<Rightarrow> 'r list) \<Rightarrow> (BillOfMaterials_row \<Rightarrow> nat list) \<Rightarrow> 'r pred \<Rightarrow>
     BillOfMaterials_row pred" where
  "billofmaterials_included idf tbl edge p =
     (\<lambda>client r. list_ex (\<lambda>x. idf x \<in> set (edge r) \<and> p client x) (tbl client))"

definition HasSBOM_predicates :: "HasSBOMSpec \<Rightarrow> BillOfMaterials_row pred list" where
  "HasSBOM_predicates spec =
     [optionalPredicate (hss_ID spec) (\<lambda>v client r. IDEQ v (bom_id r)),
      optionalPredicate (toLowerPtr (hss_Algorithm spec)) (\<lambda>v client r. bom_algorithm r = v),
      optionalPredicate (toLowerPtr (hss_Digest spec)) (\<lambda>v client r. bom_digest r = v),
      optionalPredicate (hss_URI spec) (\<lambda>v client r. bom_uri r = v),
      optionalPredicate (hss_Collector spec) (\<lambda>v client r. bom_collector r = v),
      optionalPredicate (hss_DownloadLocation spec) (\<lambda>v client r. bom_download_location r = v),
      optionalPredicate (hss_Origin spec) (\<lambda>v client r. bom_origin r = v),
      optionalPredicate (hss_KnownSince spec) (\<lambda>v client r. bom_known_since r = v)]
     @ (case hss_Subject spec of
          None \<Rightarrow> []
        | Some sub \<Rightarrow>
            (case poas_Package sub of
               Some pk \<Rightarrow>
                 [\<lambda>client r. list_ex (\<lambda>v. Some (pv_id v) = bom_package_id r
                                            \<and> packageVersionQuery pk client v)
                                (PackageVersion client)]
             | None \<Rightarrow>
                 (case poas_Artifact sub of
                    None \<Rightarrow> []
                  | Some a \<Rightarrow>
                      [\<lambda>client r. list_ex (\<lambda>x. Some (art_id x) = bom_artifact_id r
                                                 \<and> artifactQueryPredicates (Some a) client x)
                                     (Artifact client)])))
     @ map (\<lambda>sw. case poas_Package sw of
                    Some pk \<Rightarrow>
                      billofmaterials_included pv_id PackageVersion
                        bom_included_software_packages (packageVersionQuery pk)
                  | None \<Rightarrow>
                      billofmaterials_included art_id Artifact
                        bom_included_software_artifacts
                        (artifactQueryPredicates (poas_Artifact sw)))
           (hss_IncludedSoftware spec)
     @ map (\<lambda>d. billofmaterials_included dep_id Dependency bom_included_dependencies
                   (isDependencyQuery d))
           (hss_IncludedDependencies spec)
     @ map (\<lambda>oc. billofmaterials_included occ_id Occurrence bom_included_occurrences
                    (isOccurrenceQuery oc))
           (hss_IncludedOccurrences spec)"

definition HasSBOM ::
  "nat \<Rightarrow> (DB \<Rightarrow> BillOfMaterials_row \<Rightarrow> 'm) \<Rightarrow> DB \<Rightarrow> HasSBOMSpec option \<Rightarrow> error + 'm list" where
  "HasSBOM MaxPageSize toModelHasSBOM client spec =
     (case spec of
        None \<Rightarrow> Inl (Panic ''nil pointer dereference'')
      | Some sp \<Rightarrow>
          (let records = take MaxPageSize
                           (filter (AndP (HasSBOM_predicates sp) client) (BillOfMaterials client))
           in Inr (collect records (toModelHasSBOM client))))"

section \<open>Observing a batch\<close>

text \<open>
  The log of a run of the group: for each item that ran, in the order of completion, its
  index and what its call returned. The log ends with the first failure, as the run does.
\<close>

fun group_trace ::
  "(DB \<Rightarrow> 'i \<Rightarrow> (error + string) \<times> DB) \<Rightarrow> 'i list \<Rightarrow> nat list \<Rightarrow> DB \<Rightarrow>
     (nat \<times> (error + string)) list" where
  "group_trace work items [] client = []"
| "group_trace work items (index # sched) client =
     (case work client (items ! index) of
        (Inl err, c) \<Rightarrow> [(index, Inl err)]
      | (Inr m, c) \<Rightarrow> (index, Inr m) # group_trace work items sched c)"

definition batch_trace ::
  "(DB \<Rightarrow> 'i \<Rightarrow> (error + string) \<times> DB) \<Rightarrow> (nat \<Rightarrow> error + 'i) \<Rightarrow> nat \<Rightarrow> nat list \<Rightarrow> DB \<Rightarrow>
     (nat \<times> (error + string)) list" where
  "batch_trace work item n sched client =
     (case dispatch item [0..<n] of
        (items, p) \<Rightarrow> group_trace work items (filter (\<lambda>i. i < length items) sched) client)"

definition IngestOccurrences_trace ::
  "nat list \<Rightarrow> DB \<Rightarrow> PackageOrSourceInputs \<Rightarrow> IDorArtifactInput list \<Rightarrow>
     IsOccurrenceInputSpec list \<Rightarrow> (nat \<times> (error + string)) list" where
  "IngestOccurrences_trace sched client subjects artifacts occurrences =
     batch_trace (\<lambda>c (subject, art, occ). IngestOccurrence c subject art occ)
       (IngestOccurrences_item subjects artifacts occurrences)
       (length occurrences) sched client"

definition IngestDependencies_trace ::
  "nat list \<Rightarrow> DB \<Rightarrow> IDorPkgInput list \<Rightarrow> IDorPkgInput list \<Rightarrow> MatchFlags \<Rightarrow>
     IsDependencyInputSpec list \<Rightarrow> (nat \<times> (error + string)) list" where
  "IngestDependencies_trace sched client pkgs depPkgs depPkgMatchType dependencies =
     batch_trace (\<lambda>c (pkg, depPkg, dep). IngestDependency c pkg depPkg depPkgMatchType dep)
       (IngestDependencies_item pkgs depPkgs dependencies)
       (length dependencies) sched client"

text \<open>
  A schedule of a batch of \<open>n\<close> items: every item completes once, in some order.
\<close>

definition schedule :: "nat \<Rightarrow> nat list \<Rightarrow> bool" where
  "schedule n sched = (distinct sched \<and> set sched = {0..<n})"

text \<open>An identifier string resolves in a table when a row has the identifier it names.\<close>

definition resolves :: "('r \<Rightarrow> nat) \<Rightarrow> 'r list \<Rightarrow> string \<Rightarrow> bool" where
  "resolves idf rows x = list_ex (\<lambda>r. IDEQ x (idf r)) rows"

text \<open>
  The store as the transaction of \<^verbatim>\<open>IngestHasSbom\<close> sees it once the subject is
  resolved: resolving a package subject may have created its nodes.
\<close>

definition subject_view :: "DB \<Rightarrow> PackageOrArtifactInput \<Rightarrow> DB" where
  "subject_view c subject =
     (case poa_Package subject of
        Some pk \<Rightarrow>
          (case PackageInput pk of Some pkgInput \<Rightarrow> snd (getPkgVersion c pkgInput) | None \<Rightarrow> c)
      | None \<Rightarrow> c)"

text \<open>Some identifier of an included set names no row of its table.\<close>

definition missing_included ::
  "DB \<Rightarrow> PackageOrArtifactInput \<Rightarrow> HasSBOMIncludesInputSpec \<Rightarrow> bool" where
  "missing_included c subject inc =
     (list_ex (\<lambda>x. \<not> resolves pv_id (PackageVersion (subject_view c subject)) x) (inc_Packages inc)
      \<or> list_ex (\<lambda>x. \<not> resolves art_id (Artifact c) x) (inc_Artifacts inc)
      \<or> list_ex (\<lambda>x. \<not> resolves dep_id (Dependency c) x) (inc_Dependencies inc)
      \<or> list_ex (\<lambda>x. \<not> resolves occ_id (Occurrence c) x) (inc_Occurrences inc))"

text \<open>The messages of the four loops over the included sets (sbom.go, lines 166 to 198).\<close>

definition included_errors :: "string list" where
  "included_errors =
     [''IngestHasSbom error querying for PackageVersion by ID :: ent: package_version not found'',
      ''IngestHasSbom error querying for PackageVersion by ID :: ent: package_version not singular'',
      ''IngestHasSbom :: error querying for artifact by ID'',
      ''IngestHasSbom :: includes.Dependencies must be a valid IsDependency ID'',
      ''IngestHasSbom :: includes.Occurrences must be a valid IsOccurrence ID'']"

section \<open>Example stores and inputs\<close>

text \<open>
  The example store holds one artifact and the nodes of the two packages and of the
  source of the examples, so that resolving them finds them (and would find them if the
  resolver only looked them up).
\<close>

definition ex_store :: DB where
  "ex_store =
     \<lparr>Artifact = [\<lparr>art_id = 1, art_algorithm = ''sha256'', art_digest = ''abcd''\<rparr>],
      PackageName =
        [\<lparr>pn_id = 1, pn_type = ''pypi'', pn_namespace = [], pn_name = ''kubetest''\<rparr>,
         \<lparr>pn_id = 2, pn_type = ''pypi'', pn_namespace = [], pn_name = ''requests''\<rparr>],
      PackageVersion =
        [\<lparr>pv_id = 1, pv_name_id = 1, pv_version = ''1.0'', pv_subpath = [], pv_qualifiers = []\<rparr>,
         \<lparr>pv_id = 2, pv_name_id = 2, pv_version = ''2.31'', pv_subpath = [],
          pv_qualifiers = []\<rparr>],
      SourceName =
        [\<lparr>sn_id = 1, sn_type = ''git'', sn_namespace = ''github.com/guacsec'',
          sn_name = ''guac'', sn_commit = [], sn_tag = []\<rparr>],
      Occurrence = [], Dependency = [], BillOfMaterials = []\<rparr>"

definition ex_pkg :: IDorPkgInput where
  "ex_pkg =
     \<lparr>PackageVersionID = None,
      PackageInput = Some \<lparr>pkg_Type = ''pypi'', pkg_Namespace = None, pkg_Name = ''kubetest'',
        pkg_Version = Some ''1.0'', pkg_Qualifiers = [], pkg_Subpath = None\<rparr>\<rparr>"

definition ex_pkg2 :: IDorPkgInput where
  "ex_pkg2 =
     \<lparr>PackageVersionID = None,
      PackageInput = Some \<lparr>pkg_Type = ''pypi'', pkg_Namespace = None, pkg_Name = ''requests'',
        pkg_Version = Some ''2.31'', pkg_Qualifiers = [], pkg_Subpath = None\<rparr>\<rparr>"

definition ex_src :: IDorSourceInput where
  "ex_src =
     \<lparr>SourceNameID = None,
      SourceInput = Some \<lparr>src_Type = ''git'', src_Namespace = ''github.com/guacsec'',
        src_Name = ''guac'', src_Tag = None, src_Commit = None\<rparr>\<rparr>"

definition ex_art :: IDorArtifactInput where
  "ex_art =
     \<lparr>ArtifactID = None,
      ArtifactInput = Some \<lparr>art_Algorithm = ''SHA256'', art_Digest = ''ABCD''\<rparr>\<rparr>"

definition ex_occ :: IsOccurrenceInputSpec where
  "ex_occ = \<lparr>occ_Justification = ''built from'', occ_Origin = ''o'', occ_Collector = ''c''\<rparr>"

definition ex_dep :: IsDependencyInputSpec where
  "ex_dep =
     \<lparr>dep_VersionRange = ''>=2'', dep_DependencyType = DependencyTypeDirect,
      dep_Justification = ''manifest'', dep_Origin = ''o'', dep_Collector = ''c''\<rparr>"

definition ex_sbom :: HasSBOMInputSpec where
  "ex_sbom =
     \<lparr>sbom_URI = ''https://example.com/sbom'', sbom_Algorithm = ''sha1'', sbom_Digest = ''d1'',
      sbom_DownloadLocation = ''loc'', sbom_Origin = ''o'', sbom_Collector = ''c'',
      sbom_KnownSince = 0\<rparr>"

definition ex_includes :: HasSBOMIncludesInputSpec where
  "ex_includes =
     \<lparr>inc_Packages = [], inc_Artifacts = [], inc_Dependencies = [], inc_Occurrences = []\<rparr>"

definition ex_flags :: MatchFlags where
  "ex_flags = \<lparr>Pkg = PkgMatchTypeSpecificVersion\<rparr>"

definition ex_store_dep :: DB where
  "ex_store_dep = snd (IngestDependency ex_store ex_pkg ex_pkg2 ex_flags ex_dep)"

definition ex_pkg_bad :: IDorPkgInput where
  "ex_pkg_bad =
     \<lparr>PackageVersionID = None,
      PackageInput = Some \<lparr>pkg_Type = ''pypi'', pkg_Namespace = None, pkg_Name = ''broken'',
        pkg_Version = None, pkg_Qualifiers = [], pkg_Subpath = None\<rparr>\<rparr>"

definition ex_subjects3 :: PackageOrArtifactInputs where
  "ex_subjects3 = \<lparr>poa_Packages = [ex_pkg, ex_pkg_bad, ex_pkg2], poa_Artifacts = []\<rparr>"

definition ex_store_sbom :: DB where
  "ex_store_sbom =
     snd (IngestHasSBOMs ex_store ex_subjects3 [ex_sbom] [ex_includes, ex_includes, ex_includes])"

definition ex_includes42 :: HasSBOMIncludesInputSpec where
  "ex_includes42 =
     \<lparr>inc_Packages = [], inc_Artifacts = [], inc_Dependencies = [''42''], inc_Occurrences = []\<rparr>"

definition ex_bom_row :: BillOfMaterials_row where
  "ex_bom_row =
     \<lparr>bom_id = 0, bom_uri = ''https://example.com/sbom'', bom_algorithm = ''sha1'',
      bom_digest = ''d1'', bom_download_location = ''loc'', bom_origin = ''o'',
      bom_collector = ''c'', bom_known_since = 0, bom_package_id = None, bom_artifact_id = None,
      bom_included_software_packages = [], bom_included_software_artifacts = [],
      bom_included_dependencies = [], bom_included_occurrences = []\<rparr>"


definition ex_sbom2 :: HasSBOMInputSpec where
  "ex_sbom2 = ex_sbom\<lparr>sbom_Algorithm := ''sha256'', sbom_Digest := ''d2''\<rparr>"

definition ex_store_sbom2 :: DB where
  "ex_store_sbom2 =
     snd (IngestHasSbom ex_store_sbom \<lparr>poa_Package = Some ex_pkg, poa_Artifact = None\<rparr>
            ex_sbom2 ex_includes)"

section \<open>Basic facts\<close>

lemma Itoa_code [code]:
  "Itoa n = (if n < 10 then [digit_char n] else Itoa (n div 10) @ [digit_char (n mod 10)])"
  by (rule Itoa.simps)

declare Itoa.simps [simp del]

lemma digit_val_digit_char: "d < 10 \<Longrightarrow> digit_val (digit_char d) = Some d"
  by (simp add: digit_val_def digit_char_def Let_def)

lemma Atoi_acc_append:
  "Atoi_acc a (xs @ ys) = (case Atoi_acc a xs of None \<Rightarrow> None | Some b \<Rightarrow> Atoi_acc b ys)"
  by (induction xs arbitrary: a) (auto split: option.splits)

lemma Atoi_acc_Itoa: "Atoi_acc a (Itoa n) = Some (a * 10 ^ length (Itoa n) + n)"
proof (induction n arbitrary: a rule: Itoa.induct)
  case (1 n)
  show ?case
  proof (cases "n < 10")
    case True
    then show ?thesis
      by (subst (1 2) Itoa.simps) (simp add: digit_val_digit_char)
  next
    case False
    have step: "Atoi_acc a (Itoa (n div 10)) = Some (a * 10 ^ length (Itoa (n div 10)) + n div 10)"
      using "1.IH" [OF False] .
    have "Itoa n = Itoa (n div 10) @ [digit_char (n mod 10)]"
      using False by (subst Itoa.simps) simp
    then show ?thesis
      using step by (simp add: Atoi_acc_append digit_val_digit_char algebra_simps)
  qed
qed

lemma Itoa_not_Nil: "Itoa n \<noteq> []"
  by (subst Itoa.simps) simp

lemma Atoi_Itoa: "Atoi (Itoa n) = Some n"
  by (simp add: Atoi_def Itoa_not_Nil Atoi_acc_Itoa)

lemma Itoa_inj: "Itoa m = Itoa n \<Longrightarrow> m = n"
  by (metis Atoi_Itoa option.inject)

lemma WithinTX_Inl: "body c = (Inl e, c') \<Longrightarrow> WithinTX c body = (Inl e, c)"
  by (simp add: WithinTX_def)

lemma WithinTX_Inr: "body c = (Inr a, c') \<Longrightarrow> WithinTX c body = (Inr a, c')"
  by (simp add: WithinTX_def)

lemma on_err_Inl: "\<exists>e'. on_err f (Inl e) = Inl e'"
  by (cases e) (simp_all add: on_err_def)

section \<open>The subject branch\<close>

lemma IngestOccurrence_tx_no_subject:
  "\<exists>e. IngestOccurrence_tx c \<lparr>pos_Package = None, pos_Source = None\<rparr> art spec = (Inl e, c)"
  by (simp add: IngestOccurrence_tx_def Let_def split: option.splits sum.splits)

lemma IngestOccurrence_no_subject:
  "\<exists>e. IngestOccurrence c \<lparr>pos_Package = None, pos_Source = None\<rparr> art spec = (Inl e, c)"
proof -
  obtain e where
    "IngestOccurrence_tx c \<lparr>pos_Package = None, pos_Source = None\<rparr> art spec = (Inl e, c)"
    using IngestOccurrence_tx_no_subject by blast
  then have "WithinTX c (\<lambda>tx. IngestOccurrence_tx tx \<lparr>pos_Package = None, pos_Source = None\<rparr>
                                art spec) = (Inl e, c)"
    by (rule WithinTX_Inl)
  then show ?thesis
    using on_err_Inl by (simp add: IngestOccurrence_def)
qed

lemma IngestOccurrence_no_subject_message:
  "ArtifactInput art = Some ai \<Longrightarrow>
   Only ''artifact'' (filter (artifactQueryInputPredicates ai) (Artifact c)) = Inr a \<Longrightarrow>
   IngestOccurrence c \<lparr>pos_Package = None, pos_Source = None\<rparr> art spec =
     (Inl (GqlError
        ''IngestOccurrence :: input: IngestOccurrence :: subject must be either a package or source''),
      c)"
  by (simp add: IngestOccurrence_def WithinTX_def IngestOccurrence_tx_def on_err_def)

lemma IngestHasSbom_no_subject:
  "IngestHasSbom c \<lparr>poa_Package = None, poa_Artifact = None\<rparr> spec inc =
     (Inl (GqlError
        ''IngestHasSbom :: input: IngestHasSbom :: subject must be either a package or artifact''),
      c)"
  by (simp add: IngestHasSbom_def WithinTX_def IngestHasSbom_tx_def IngestHasSbom_subject_def
      on_err_def)

lemma IngestOccurrence_tx_both:
  "IngestOccurrence_tx c \<lparr>pos_Package = Some p, pos_Source = Some s\<rparr> art spec =
   IngestOccurrence_tx c \<lparr>pos_Package = Some p, pos_Source = None\<rparr> art spec"
  by (simp add: IngestOccurrence_tx_def Let_def split: option.splits sum.splits)

lemma IngestOccurrence_both:
  "IngestOccurrence c \<lparr>pos_Package = Some p, pos_Source = Some s\<rparr> art spec =
   IngestOccurrence c \<lparr>pos_Package = Some p, pos_Source = None\<rparr> art spec"
  by (simp add: IngestOccurrence_def IngestOccurrence_tx_both)

lemma IngestHasSbom_subject_both:
  "IngestHasSbom_subject c \<lparr>poa_Package = Some p, poa_Artifact = Some a\<rparr> row cols =
   IngestHasSbom_subject c \<lparr>poa_Package = Some p, poa_Artifact = None\<rparr> row cols"
  by (simp add: IngestHasSbom_subject_def)

lemma IngestHasSbom_both:
  "IngestHasSbom c \<lparr>poa_Package = Some p, poa_Artifact = Some a\<rparr> spec inc =
   IngestHasSbom c \<lparr>poa_Package = Some p, poa_Artifact = None\<rparr> spec inc"
  by (simp add: IngestHasSbom_def IngestHasSbom_tx_def IngestHasSbom_subject_both)

section \<open>Queries\<close>

lemma IsOccurrence_nil:
  "IsOccurrence toModel c None = Inr (map (toModel c) (Occurrence c))"
  by (simp add: IsOccurrence_def isOccurrenceQuery_def NoOpSelector_def)

lemma IsDependency_nil: "IsDependency MaxPageSize toModel c None = Inr []"
  by (simp add: IsDependency_def)

lemma IsDependency_page:
  "IsDependency MaxPageSize toModel c spec = Inr ms \<Longrightarrow> length ms \<le> MaxPageSize"
  by (auto simp: IsDependency_def collect_def Let_def split: if_splits)

lemma HasSBOM_nil: "HasSBOM MaxPageSize toModel c None = Inl (Panic ''nil pointer dereference'')"
  by (simp add: HasSBOM_def)

lemma HasSBOM_page:
  "HasSBOM MaxPageSize toModel c spec = Inr ms \<Longrightarrow> length ms \<le> MaxPageSize"
  by (auto simp: HasSBOM_def collect_def Let_def split: option.splits)

section \<open>Batches\<close>

lemma dispatch_cong: "(\<And>i. i \<in> set ns \<Longrightarrow> f i = g i) \<Longrightarrow> dispatch f ns = dispatch g ns"
  by (induction ns) (auto split: sum.splits prod.splits)

lemma dispatch_None:
  "dispatch item ns = (items, None) \<Longrightarrow>
   length items = length ns \<and> (\<forall>k<length ns. item (ns ! k) = Inr (items ! k))"
proof (induction ns arbitrary: items)
  case Nil
  then show ?case by simp
next
  case (Cons i rest)
  then obtain x xs where x: "item i = Inr x" and xs: "dispatch item rest = (xs, None)"
    and items: "items = x # xs"
    by (auto split: sum.splits prod.splits)
  from Cons.IH [OF xs] show ?case
    using x items by (auto simp: nth_Cons split: nat.splits)
qed

lemma dispatch_upt_None:
  "dispatch item [0..<n] = (items, None) \<Longrightarrow>
   length items = n \<and> (\<forall>k<n. item k = Inr (items ! k))"
  using dispatch_None [of item "[0..<n]" items] by auto

lemma dispatch_all_Inr:
  "(\<And>i. i \<in> set ns \<Longrightarrow> \<exists>x. item i = Inr x) \<Longrightarrow> snd (dispatch item ns) = None"
proof (induction ns)
  case Nil
  then show ?case by simp
next
  case (Cons i rest)
  obtain x where x: "item i = Inr x" using Cons.prems [of i] by auto
  have "snd (dispatch item rest) = None" using Cons.IH Cons.prems by simp
  then show ?case using x by (cases "dispatch item rest") simp
qed

lemma index_slice_take: "i < n \<Longrightarrow> index_slice (take n xs) i = index_slice xs i"
  by (simp add: index_slice_def)

lemma index_slice_Inr: "i < length xs \<Longrightarrow> index_slice xs i = Inr (xs ! i)"
  by (simp add: index_slice_def)

lemma run_group_slots:
  "run_group work items sched c models = (Inr ids, c') \<Longrightarrow> distinct sched \<Longrightarrow>
   (\<forall>k\<in>set sched. k < length models) \<Longrightarrow>
   length ids = length models
   \<and> (\<forall>k\<in>set sched. map_of (group_trace work items sched c) k = Some (Inr (ids ! k)))
   \<and> (\<forall>k\<in>set sched. \<exists>c1 c2. work c1 (items ! k) = (Inr (ids ! k), c2))
   \<and> (\<forall>k. k \<notin> set sched \<longrightarrow> ids ! k = models ! k)"
proof (induction sched arbitrary: c models)
  case Nil
  then show ?case by simp
next
  case (Cons i rest)
  from Cons.prems(1) obtain m c1 where
    w: "work c (items ! i) = (Inr m, c1)" and
    r: "run_group work items rest c1 (models[i := m]) = (Inr ids, c')"
    by (auto split: sum.splits prod.splits)
  have d: "distinct rest" and notin: "i \<notin> set rest" using Cons.prems(2) by auto
  have b: "\<forall>k\<in>set rest. k < length (models[i := m])" using Cons.prems(3) by auto
  note IH = Cons.IH [OF r d b]
  have il: "i < length models" using Cons.prems(3) by auto
  have idi: "ids ! i = m" using IH notin il by auto
  have len: "length ids = length models" using IH by simp
  have tr: "\<forall>k\<in>set (i # rest). map_of (group_trace work items (i # rest) c) k = Some (Inr (ids ! k))"
    using IH idi w by auto
  have ex: "\<forall>k\<in>set (i # rest). \<exists>c1 c2. work c1 (items ! k) = (Inr (ids ! k), c2)"
    using IH idi w by auto
  have rest: "\<forall>k. k \<notin> set (i # rest) \<longrightarrow> ids ! k = models ! k"
    using IH by auto
  show ?case using len tr ex rest by blast
qed

lemma run_group_fail:
  "(i, Inl err) \<in> set (group_trace work items sched c) \<Longrightarrow>
   fst (run_group work items sched c models) = Inl err"
proof (induction sched arbitrary: c models)
  case Nil
  then show ?case by simp
next
  case (Cons k rest)
  obtain r c1 where w: "work c (items ! k) = (r, c1)" by (cases "work c (items ! k)")
  show ?case
  proof (cases r)
    case (Inl e)
    then show ?thesis using Cons.prems w by simp
  next
    case (Inr m)
    then have "(i, Inl err) \<in> set (group_trace work items rest c1)"
      using Cons.prems w by simp
    from Cons.IH [OF this] show ?thesis using w Inr by simp
  qed
qed

lemma run_group_trace_Inr:
  "fst (run_group work items sched c models) = Inr ids \<Longrightarrow>
   (i, r) \<in> set (group_trace work items sched c) \<Longrightarrow> \<exists>m. r = Inr m"
proof (induction sched arbitrary: c models)
  case Nil
  then show ?case by simp
next
  case (Cons k rest)
  obtain r' c1 where w: "work c (items ! k) = (r', c1)" by (cases "work c (items ! k)")
  show ?case
  proof (cases r')
    case (Inl e)
    then show ?thesis using Cons.prems w by simp
  next
    case (Inr m)
    then show ?thesis using Cons.prems Cons.IH [of c1 "models[k := m]"] w by auto
  qed
qed

lemma batch_Inr:
  "batch work item n sched c = (Inr ids, c') \<Longrightarrow>
   \<exists>items. dispatch item [0..<n] = (items, None)
     \<and> run_group work items (filter (\<lambda>i. i < length items) sched) c (replicate n []) = (Inr ids, c')"
  by (auto simp: batch_def split: prod.splits option.splits)

lemma schedule_filter: "schedule n sched \<Longrightarrow> filter (\<lambda>i. i < n) sched = sched"
  by (auto simp: schedule_def filter_id_conv)

lemma batch_slots:
  assumes "schedule n sched" and "batch work item n sched c = (Inr ids, c')"
  shows "length ids = n
    \<and> (\<forall>i<n. map_of (batch_trace work item n sched c) i = Some (Inr (ids ! i)))
    \<and> (\<forall>i<n. \<exists>x c1 c2. item i = Inr x \<and> work c1 x = (Inr (ids ! i), c2))"
proof -
  obtain items where d: "dispatch item [0..<n] = (items, None)"
    and r: "run_group work items (filter (\<lambda>i. i < length items) sched) c (replicate n []) = (Inr ids, c')"
    using batch_Inr [OF assms(2)] by blast
  have li: "length items = n" and it: "\<forall>k<n. item k = Inr (items ! k)"
    using dispatch_upt_None [OF d] by auto
  have f: "filter (\<lambda>i. i < length items) sched = sched"
    using schedule_filter [OF assms(1)] li by simp
  have r': "run_group work items sched c (replicate n []) = (Inr ids, c')" using r f by simp
  have ds: "distinct sched" and ss: "set sched = {0..<n}" using assms(1) by (auto simp: schedule_def)
  have b: "\<forall>k\<in>set sched. k < length (replicate n ([]::string))" using ss by auto
  note S = run_group_slots [OF r' ds b]
  have tr: "batch_trace work item n sched c = group_trace work items sched c"
    using d f by (simp add: batch_trace_def)
  show ?thesis using S it ss tr by auto
qed

lemma batch_fail:
  assumes "(i, Inl err) \<in> set (batch_trace work item n sched c)"
    and "snd (dispatch item [0..<n]) = None"
  shows "fst (batch work item n sched c) = Inl err"
proof -
  obtain items where d: "dispatch item [0..<n] = (items, None)"
    using assms(2) by (cases "dispatch item [0..<n]") auto
  have "(i, Inl err) \<in> set (group_trace work items (filter (\<lambda>i. i < length items) sched) c)"
    using assms(1) d by (simp add: batch_trace_def)
  from run_group_fail [OF this, of "replicate n []"] show ?thesis
    using d by (simp add: batch_def split: prod.splits)
qed


lemma batch_cong:
  "(\<And>i. i < n \<Longrightarrow> item i = item' i) \<Longrightarrow> batch work item n sched c = batch work item' n sched c"
  using dispatch_cong [of "[0..<n]" item item'] by (simp add: batch_def)

lemma IngestDependencies_item_Inr:
  "IngestDependencies_item pkgs depPkgs deps i = Inr x \<Longrightarrow> x = (pkgs ! i, depPkgs ! i, deps ! i)"
  by (auto simp: IngestDependencies_item_def index_slice_def split: if_splits sum.splits)

lemma IngestDependencies_item_ok:
  "i < length deps \<Longrightarrow> length deps \<le> length pkgs \<Longrightarrow> length deps \<le> length depPkgs \<Longrightarrow>
   \<exists>x. IngestDependencies_item pkgs depPkgs deps i = Inr x"
  by (simp add: IngestDependencies_item_def index_slice_def)

lemma IngestDependencies_item_take:
  "i < n \<Longrightarrow> IngestDependencies_item (take n pkgs) (take n depPkgs) deps i =
            IngestDependencies_item pkgs depPkgs deps i"
  by (simp add: IngestDependencies_item_def index_slice_take split: sum.splits)

lemma IngestOccurrences_item_Inr:
  "IngestOccurrences_item subjects arts occs i = Inr (x, a, oc) \<Longrightarrow>
   a = arts ! i \<and> oc = occs ! i
   \<and> x = (if pos_Packages subjects \<noteq> []
          then \<lparr>pos_Package = Some (pos_Packages subjects ! i), pos_Source = None\<rparr>
          else \<lparr>pos_Package = None, pos_Source = Some (pos_Sources subjects ! i)\<rparr>)"
  by (auto simp: IngestOccurrences_item_def index_slice_def split: if_splits sum.splits)

lemma IngestOccurrences_item_ok:
  "i < length occs \<Longrightarrow> length occs \<le> length arts \<Longrightarrow>
   length occs \<le> (if pos_Packages subjects \<noteq> [] then length (pos_Packages subjects)
                   else length (pos_Sources subjects)) \<Longrightarrow>
   \<exists>x. IngestOccurrences_item subjects arts occs i = Inr x"
  by (auto simp: IngestOccurrences_item_def index_slice_def split: if_splits)

lemma IngestOccurrences_item_take:
  "i < n \<Longrightarrow>
   IngestOccurrences_item
     \<lparr>pos_Packages = take n (pos_Packages subjects), pos_Sources = take n (pos_Sources subjects)\<rparr>
     (take n arts) occs i =
   IngestOccurrences_item subjects arts occs i"
  by (cases "pos_Packages subjects")
    (simp_all add: IngestOccurrences_item_def index_slice_take split: sum.splits)




lemma IngestHasSBOMs_subject_take:
  "i < n \<Longrightarrow>
   IngestHasSBOMs_subject
     \<lparr>poa_Packages = take n (poa_Packages subjects), poa_Artifacts = take n (poa_Artifacts subjects)\<rparr> i =
   IngestHasSBOMs_subject subjects i"
  by (cases "poa_Artifacts subjects") (simp_all add: IngestHasSBOMs_subject_def index_slice_take)

lemma IngestHasSBOMs_loop_cong:
  "(\<And>j. i \<le> j \<Longrightarrow> j < i + length hs \<Longrightarrow>
      IngestHasSBOMs_subject s j = IngestHasSBOMs_subject s' j
      \<and> index_slice incs j = index_slice incs' j) \<Longrightarrow>
   IngestHasSBOMs_loop c s incs i hs acc = IngestHasSBOMs_loop c s' incs' i hs acc"
proof (induction hs arbitrary: c i acc)
  case Nil
  then show ?case by simp
next
  case (Cons h rest)
  have here: "IngestHasSBOMs_subject s i = IngestHasSBOMs_subject s' i"
             "index_slice incs i = index_slice incs' i"
    using Cons.prems [of i] by auto
  have later: "\<And>c' acc'. IngestHasSBOMs_loop c' s incs (Suc i) rest acc' =
                            IngestHasSBOMs_loop c' s' incs' (Suc i) rest acc'"
    by (rule Cons.IH) (use Cons.prems in auto)
  show ?case
    by (simp add: here later split: sum.splits prod.splits)
qed

lemma IngestHasSBOMs_loop_length:
  "IngestHasSBOMs_loop c s incs i hs acc = (Inr ms, c') \<Longrightarrow> length ms = length acc + length hs"
proof (induction hs arbitrary: c i acc)
  case Nil
  then show ?case by simp
next
  case (Cons h rest)
  from Cons.prems obtain subject inc m c1 where
    "IngestHasSBOMs_loop c1 s incs (Suc i) rest (acc @ [m]) = (Inr ms, c')"
    by (auto simp: on_err_def split: sum.splits prod.splits error.splits)
  from Cons.IH [OF this] show ?case by simp
qed

lemma IngestHasSBOMs_loop_append:
  "IngestHasSBOMs_loop c s incs i (hs1 @ hs2) acc =
     (case IngestHasSBOMs_loop c s incs i hs1 acc of
        (Inl e, c1) \<Rightarrow> (Inl e, c1)
      | (Inr acc1, c1) \<Rightarrow> IngestHasSBOMs_loop c1 s incs (i + length hs1) hs2 acc1)"
proof (induction hs1 arbitrary: c i acc)
  case Nil
  then show ?case by simp
next
  case (Cons h rest)
  show ?case
    by (simp add: Cons.IH on_err_def split: sum.splits prod.splits error.splits)
qed

lemma IngestDependencies_order:
  assumes "schedule (length dependencies) sched"
    and "IngestDependencies sched c pkgs depPkgs mt dependencies = (Inr ids, c')"
  shows "length ids = length dependencies
    \<and> (\<forall>i<length dependencies.
          map_of (IngestDependencies_trace sched c pkgs depPkgs mt dependencies) i
            = Some (Inr (ids ! i)))
    \<and> (\<forall>i<length dependencies. \<exists>c1 c2.
          IngestDependency c1 (pkgs ! i) (depPkgs ! i) mt (dependencies ! i) = (Inr (ids ! i), c2))"
proof -
  note S = batch_slots [OF assms(1) assms(2) [unfolded IngestDependencies_def]]
  have c: "\<forall>i<length dependencies. \<exists>c1 c2.
          IngestDependency c1 (pkgs ! i) (depPkgs ! i) mt (dependencies ! i) = (Inr (ids ! i), c2)"
  proof (intro allI impI)
    fix i assume "i < length dependencies"
    then obtain x c1 c2 where x: "IngestDependencies_item pkgs depPkgs dependencies i = Inr x"
      and w: "(case x of (pkg, depPkg, dep) \<Rightarrow> IngestDependency c1 pkg depPkg mt dep)
              = (Inr (ids ! i), c2)"
      using S by blast
    have "x = (pkgs ! i, depPkgs ! i, dependencies ! i)"
      using IngestDependencies_item_Inr [OF x] .
    then show "\<exists>c1 c2. IngestDependency c1 (pkgs ! i) (depPkgs ! i) mt (dependencies ! i)
                 = (Inr (ids ! i), c2)"
      using w by auto
  qed
  show ?thesis using S c by (simp add: IngestDependencies_trace_def)
qed

lemma IngestOccurrences_order:
  assumes "schedule (length occurrences) sched"
    and "IngestOccurrences sched c subjects artifacts occurrences = (Inr ids, c')"
  shows "length ids = length occurrences
    \<and> (\<forall>i<length occurrences.
          map_of (IngestOccurrences_trace sched c subjects artifacts occurrences) i
            = Some (Inr (ids ! i)))
    \<and> (\<forall>i<length occurrences. \<exists>c1 c2.
          IngestOccurrence c1
            (if pos_Packages subjects \<noteq> []
             then \<lparr>pos_Package = Some (pos_Packages subjects ! i), pos_Source = None\<rparr>
             else \<lparr>pos_Package = None, pos_Source = Some (pos_Sources subjects ! i)\<rparr>)
            (artifacts ! i) (occurrences ! i) = (Inr (ids ! i), c2))"
proof -
  note S = batch_slots [OF assms(1) assms(2) [unfolded IngestOccurrences_def]]
  have c: "\<forall>i<length occurrences. \<exists>c1 c2.
          IngestOccurrence c1
            (if pos_Packages subjects \<noteq> []
             then \<lparr>pos_Package = Some (pos_Packages subjects ! i), pos_Source = None\<rparr>
             else \<lparr>pos_Package = None, pos_Source = Some (pos_Sources subjects ! i)\<rparr>)
            (artifacts ! i) (occurrences ! i) = (Inr (ids ! i), c2)"
  proof (intro allI impI)
    fix i assume "i < length occurrences"
    then obtain x c1 c2 where x: "IngestOccurrences_item subjects artifacts occurrences i = Inr x"
      and w: "(case x of (subject, art, occ) \<Rightarrow> IngestOccurrence c1 subject art occ)
              = (Inr (ids ! i), c2)"
      using S by blast
    obtain s a oc where xe: "x = (s, a, oc)" by (cases x)
    note I = IngestOccurrences_item_Inr [OF x [unfolded xe]]
    have "IngestOccurrence c1 s a oc = (Inr (ids ! i), c2)" using w xe by simp
    then have "IngestOccurrence c1
            (if pos_Packages subjects \<noteq> []
             then \<lparr>pos_Package = Some (pos_Packages subjects ! i), pos_Source = None\<rparr>
             else \<lparr>pos_Package = None, pos_Source = Some (pos_Sources subjects ! i)\<rparr>)
            (artifacts ! i) (occurrences ! i) = (Inr (ids ! i), c2)"
      using I by simp
    then show "\<exists>c1 c2. IngestOccurrence c1
            (if pos_Packages subjects \<noteq> []
             then \<lparr>pos_Package = Some (pos_Packages subjects ! i), pos_Source = None\<rparr>
             else \<lparr>pos_Package = None, pos_Source = Some (pos_Sources subjects ! i)\<rparr>)
            (artifacts ! i) (occurrences ! i) = (Inr (ids ! i), c2)"
      by blast
  qed
  show ?thesis using S c by (simp add: IngestOccurrences_trace_def)
qed

lemma IngestDependencies_fail:
  assumes "(i, Inl err) \<in> set (IngestDependencies_trace sched c pkgs depPkgs mt deps)"
    and "length deps \<le> length pkgs" and "length deps \<le> length depPkgs"
  shows "fst (IngestDependencies sched c pkgs depPkgs mt deps) = Inl err"
proof -
  have "snd (dispatch (IngestDependencies_item pkgs depPkgs deps) [0..<length deps]) = None"
    by (rule dispatch_all_Inr) (use assms(2,3) IngestDependencies_item_ok in auto)
  from batch_fail [OF assms(1) [unfolded IngestDependencies_trace_def] this]
  show ?thesis by (simp add: IngestDependencies_def)
qed

lemma IngestOccurrences_fail:
  assumes "(i, Inl err) \<in> set (IngestOccurrences_trace sched c subjects arts occs)"
    and "length occs \<le> length arts"
    and "length occs \<le> (if pos_Packages subjects \<noteq> [] then length (pos_Packages subjects)
                          else length (pos_Sources subjects))"
  shows "fst (IngestOccurrences sched c subjects arts occs) = Inl err"
proof -
  have "snd (dispatch (IngestOccurrences_item subjects arts occs) [0..<length occs]) = None"
    by (rule dispatch_all_Inr) (use assms(2,3) IngestOccurrences_item_ok in auto)
  from batch_fail [OF assms(1) [unfolded IngestOccurrences_trace_def] this]
  show ?thesis by (simp add: IngestOccurrences_def)
qed

lemma IngestHasSBOMs_fail:
  assumes "IngestHasSBOMs b subjects hs1 incs = (Inr ms, b1)"
    and "IngestHasSBOMs_subject subjects (length hs1) = Inr subject"
    and "index_slice incs (length hs1) = Inr inc"
    and "IngestHasSbom b1 subject h inc = (Inl err, b2)"
  shows "IngestHasSBOMs b subjects (hs1 @ h # hs2) incs =
           (on_err (\<lambda>e. GqlError (''IngestHasSBOMs failed with err: '' @ err_Error e)) (Inl err), b2)"
  using assms
  by (simp add: IngestHasSBOMs_def IngestHasSBOMs_loop_append)

text \<open>A slice shorter than the driving slice: the loop panics on its index expression.\<close>

lemma IngestDependencies_short_slice:
  "fst (IngestDependencies [0] ex_store [] [ex_pkg2] ex_flags [ex_dep])
     = Inl (Panic ''index out of range'')"
  by code_simp

section \<open>Rollback\<close>

lemma WithinTX_rollback: "fst (WithinTX c body) = Inl e \<Longrightarrow> snd (WithinTX c body) = c"
  by (auto simp: WithinTX_def split: prod.splits sum.splits)

lemma IngestHasSbom_rollback:
  "fst (IngestHasSbom c subject spec inc) = Inl e \<Longrightarrow> snd (IngestHasSbom c subject spec inc) = c"
  by (auto simp: IngestHasSbom_def WithinTX_def split: prod.splits sum.splits)

lemma IngestDependency_rollback:
  "fst (IngestDependency c pkg depPkg mt dep) = Inl e \<Longrightarrow>
   snd (IngestDependency c pkg depPkg mt dep) = c"
  by (auto simp: IngestDependency_def WithinTX_def split: prod.splits sum.splits)

section \<open>Included references and the second read of a bill of materials\<close>

lemma Only_cases:
  "(\<exists>r. Only label rows = Inr r \<and> rows = [r]) \<or> (Only label rows = Inl (NotFoundError label) \<and> rows = [])
   \<or> (Only label rows = Inl (NotSingularError label) \<and> 2 \<le> length rows)"
  by (cases rows; cases "tl rows") (auto simp: Only_def)

lemma OnlyID_single: "OnlyID label idf [r] = Inr (idf r)"
  by (simp add: OnlyID_def Only_def)

lemma OnlyID_Inl:
  "OnlyID label idf rows = Inl e \<Longrightarrow> e = NotFoundError label \<or> e = NotSingularError label"
  using Only_cases [of label rows] by (auto simp: OnlyID_def split: sum.splits)

lemma OnlyID_unresolved:
  "\<not> resolves idf rows x \<Longrightarrow>
   OnlyID label idf (filter (\<lambda>r. IDEQ x (idf r)) rows) = Inl (NotFoundError label)"
proof -
  assume "\<not> resolves idf rows x"
  then have "filter (\<lambda>r. IDEQ x (idf r)) rows = []"
    by (auto simp: resolves_def list_ex_iff filter_empty_conv)
  then show ?thesis by (simp add: OnlyID_def Only_def)
qed

lemma set_SortAndRemoveDups: "set (SortAndRemoveDups xs) = set xs"
  by (simp add: SortAndRemoveDups_def)

lemma included_ids_fails:
  "x \<in> set xs \<Longrightarrow> lookup x = Inl err \<Longrightarrow> \<exists>e. included_ids lookup failed xs = Inl e"
  by (induction xs) (auto split: sum.splits)

lemma included_ids_Inl:
  "included_ids lookup failed xs = Inl e \<Longrightarrow> \<exists>x\<in>set xs. \<exists>err. lookup x = Inl err \<and> e = failed err"
  by (induction xs) (auto split: sum.splits)

lemma sbom_upsert_result_no_rows:
  "filter (\<lambda>x. bom_uri x = sbom_URI spec) (BillOfMaterials c) = [r] \<Longrightarrow>
   sbom_upsert_result c spec (Inl ErrNoRows) = Inr (bom_id r)"
  by (simp add: sbom_upsert_result_def OnlyID_single)


lemma billofmaterials_upsert_conflict:
  "List.find (conflicts billofmaterials_col cols w cand) (BillOfMaterials c) = Some r0 \<Longrightarrow>
   billofmaterials_upsert c cand cols w = (Inl ErrNoRows, c)"
  by (simp add: billofmaterials_upsert_def DoNothing_def)

lemma getPkgName_tables:
  "getPkgName c p = (r, c') \<Longrightarrow>
   Artifact c' = Artifact c \<and> Dependency c' = Dependency c \<and> Occurrence c' = Occurrence c
   \<and> BillOfMaterials c' = BillOfMaterials c \<and> SourceName c' = SourceName c
   \<and> PackageVersion c' = PackageVersion c"
  by (auto simp: getPkgName_def split: prod.splits)

lemma getPkgVersion_tables:
  "getPkgVersion c p = (r, c') \<Longrightarrow>
   Artifact c' = Artifact c \<and> Dependency c' = Dependency c \<and> Occurrence c' = Occurrence c
   \<and> BillOfMaterials c' = BillOfMaterials c \<and> SourceName c' = SourceName c"
  by (auto simp: getPkgVersion_def getPkgName_def split: prod.splits option.splits sum.splits)

lemma subject_view_tables:
  "Artifact (subject_view c s) = Artifact c \<and> Dependency (subject_view c s) = Dependency c
   \<and> Occurrence (subject_view c s) = Occurrence c"
  using getPkgVersion_tables [OF surjective_pairing]
  by (auto simp: subject_view_def split: option.splits)

lemma IngestHasSbom_subject_view:
  "IngestHasSbom_subject c subject row cols = (Inr x, c1) \<Longrightarrow> c1 = subject_view c subject"
  by (auto simp: IngestHasSbom_subject_def subject_view_def split: option.splits prod.splits sum.splits)

lemma IngestHasSbom_subject_any_row:
  "IngestHasSbom_subject c subject row cols = (Inr x, c1) \<Longrightarrow>
   \<exists>x'. IngestHasSbom_subject c subject row' cols' = (Inr x', c1)"
  by (auto simp: IngestHasSbom_subject_def split: option.splits prod.splits sum.splits)


lemma IngestHasSbom_includes_missing:
  assumes miss:
    "list_ex (\<lambda>x. \<not> resolves pv_id (PackageVersion c1) x) (inc_Packages inc)
     \<or> list_ex (\<lambda>x. \<not> resolves art_id (Artifact c1) x) (inc_Artifacts inc)
     \<or> list_ex (\<lambda>x. \<not> resolves dep_id (Dependency c1) x) (inc_Dependencies inc)
     \<or> list_ex (\<lambda>x. \<not> resolves occ_id (Occurrence c1) x) (inc_Occurrences inc)"
  shows "\<exists>m\<in>set included_errors.
           IngestHasSbom_includes c1 spec inc row cols w = (Inl (GqlError m), c1)"
proof -
  define lp where "lp = (\<lambda>x. OnlyID ''package_version'' pv_id
                     (filter (\<lambda>r. IDEQ x (pv_id r)) (PackageVersion c1)))"
  define fp where "fp = (\<lambda>err. GqlError (''IngestHasSbom'' @ '' '' @
                       ''error querying for PackageVersion by ID'' @ '' :: '' @ err_Error err))"
  define la where "la = (\<lambda>x. OnlyID ''artifact'' art_id (filter (\<lambda>r. IDEQ x (art_id r)) (Artifact c1)))"
  define fa where "fa = (\<lambda>err::error. GqlError (''IngestHasSbom'' @ '' :: '' @ ''error querying for artifact by ID''))"
  define ld where "ld = (\<lambda>x. OnlyID ''dependency'' dep_id
                     (filter (\<lambda>r. IDEQ x (dep_id r)) (Dependency c1)))"
  define fd where "fd = (\<lambda>err::error. GqlError (''IngestHasSbom'' @ '' :: '' @
                       ''includes.Dependencies must be a valid IsDependency ID''))"
  define lo where "lo = (\<lambda>x. OnlyID ''occurrence'' occ_id
                     (filter (\<lambda>r. IDEQ x (occ_id r)) (Occurrence c1)))"
  define fo where "fo = (\<lambda>err::error. GqlError (''IngestHasSbom'' @ '' :: '' @
                       ''includes.Occurrences must be a valid IsOccurrence ID''))"
  define Pk where "Pk = included_ids lp fp (SortAndRemoveDups (inc_Packages inc))"
  define Ak where "Ak = included_ids la fa (SortAndRemoveDups (inc_Artifacts inc))"
  define Dk where "Dk = included_ids ld fd (SortAndRemoveDups (inc_Dependencies inc))"
  define Ok where "Ok = included_ids lo fo (SortAndRemoveDups (inc_Occurrences inc))"
  have unfold: "IngestHasSbom_includes c1 spec inc row cols w =
     (case Pk of Inl e \<Rightarrow> (Inl e, c1) | Inr pkgIDs \<Rightarrow>
     (case Ak of Inl e \<Rightarrow> (Inl e, c1) | Inr artifactIds \<Rightarrow>
     (case Dk of Inl e \<Rightarrow> (Inl e, c1) | Inr isDepIDs \<Rightarrow>
     (case Ok of Inl e \<Rightarrow> (Inl e, c1) | Inr isOccIDs \<Rightarrow>
     (case billofmaterials_upsert c1
             (row\<lparr>bom_included_software_packages := pkgIDs,
                  bom_included_software_artifacts := artifactIds,
                  bom_included_dependencies := isDepIDs,
                  bom_included_occurrences := isOccIDs\<rparr>) cols w of
        (res, c) \<Rightarrow> (case sbom_upsert_result c spec res of
             Inl e \<Rightarrow> (Inl e, c) | Inr n \<Rightarrow> (Inr n, c)))))))"
    unfolding IngestHasSbom_includes_def Let_def Pk_def Ak_def Dk_def Ok_def
      lp_def fp_def la_def fa_def ld_def fd_def lo_def fo_def ..
  have Pe: "\<exists>m\<in>set included_errors. e = GqlError m" if pk: "Pk = Inl e" for e
  proof -
    obtain x err where "lp x = Inl err" and e: "e = fp err"
      using included_ids_Inl [OF pk [unfolded Pk_def]] by blast
    then have "err = NotFoundError ''package_version'' \<or> err = NotSingularError ''package_version''"
      using OnlyID_Inl unfolding lp_def by blast
    then show ?thesis unfolding e fp_def included_errors_def by auto
  qed
  have Ae: "\<exists>m\<in>set included_errors. e = GqlError m" if "Ak = Inl e" for e
    using included_ids_Inl [OF that [unfolded Ak_def]] unfolding fa_def included_errors_def by auto
  have De: "\<exists>m\<in>set included_errors. e = GqlError m" if "Dk = Inl e" for e
    using included_ids_Inl [OF that [unfolded Dk_def]] unfolding fd_def included_errors_def by auto
  have Oe: "\<exists>m\<in>set included_errors. e = GqlError m" if "Ok = Inl e" for e
    using included_ids_Inl [OF that [unfolded Ok_def]] unfolding fo_def included_errors_def by auto
  have some_fails: "(\<exists>e. Pk = Inl e) \<or> (\<exists>e. Ak = Inl e) \<or> (\<exists>e. Dk = Inl e) \<or> (\<exists>e. Ok = Inl e)"
  proof -
    consider
        (p) x where "x \<in> set (inc_Packages inc)" "\<not> resolves pv_id (PackageVersion c1) x"
      | (a) x where "x \<in> set (inc_Artifacts inc)" "\<not> resolves art_id (Artifact c1) x"
      | (d) x where "x \<in> set (inc_Dependencies inc)" "\<not> resolves dep_id (Dependency c1) x"
      | (o) x where "x \<in> set (inc_Occurrences inc)" "\<not> resolves occ_id (Occurrence c1) x"
      using miss by (auto simp: list_ex_iff)
    then show ?thesis
    proof cases
      case p
      have "lp x = Inl (NotFoundError ''package_version'')"
        unfolding lp_def using p(2) by (rule OnlyID_unresolved)
      then have "\<exists>e. Pk = Inl e"
        unfolding Pk_def using p(1) included_ids_fails [of x _ lp] set_SortAndRemoveDups by blast
      then show ?thesis by blast
    next
      case a
      have "la x = Inl (NotFoundError ''artifact'')"
        unfolding la_def using a(2) by (rule OnlyID_unresolved)
      then have "\<exists>e. Ak = Inl e"
        unfolding Ak_def using a(1) included_ids_fails [of x _ la] set_SortAndRemoveDups by blast
      then show ?thesis by blast
    next
      case d
      have "ld x = Inl (NotFoundError ''dependency'')"
        unfolding ld_def using d(2) by (rule OnlyID_unresolved)
      then have "\<exists>e. Dk = Inl e"
        unfolding Dk_def using d(1) included_ids_fails [of x _ ld] set_SortAndRemoveDups by blast
      then show ?thesis by blast
    next
      case o
      have "lo x = Inl (NotFoundError ''occurrence'')"
        unfolding lo_def using o(2) by (rule OnlyID_unresolved)
      then have "\<exists>e. Ok = Inl e"
        unfolding Ok_def using o(1) included_ids_fails [of x _ lo] set_SortAndRemoveDups by blast
      then show ?thesis by blast
    qed
  qed
  show ?thesis
  proof (cases Pk)
    case (Inl e)
    then show ?thesis using Pe [OF Inl] unfold by auto
  next
    case Pr: (Inr pk)
    show ?thesis
    proof (cases Ak)
      case (Inl e)
      then show ?thesis using Ae [OF Inl] unfold Pr by auto
    next
      case Ar: (Inr ar)
      show ?thesis
      proof (cases Dk)
        case (Inl e)
        then show ?thesis using De [OF Inl] unfold Pr Ar by auto
      next
        case Dr: (Inr dr)
        show ?thesis
        proof (cases Ok)
          case (Inl e)
          then show ?thesis using Oe [OF Inl] unfold Pr Ar Dr by auto
        next
          case (Inr orr)
          then show ?thesis using some_fails Pr Ar Dr by auto
        qed
      qed
    qed
  qed
qed

lemma IngestHasSbom_missing:
  assumes "missing_included c subject inc"
  shows "\<exists>e. IngestHasSbom c subject spec inc = (Inl e, c)"
    and "IngestHasSbom_subject c subject row cols = (Inr x, c1) \<Longrightarrow>
         \<exists>m\<in>set included_errors.
           IngestHasSbom c subject spec inc = (Inl (GqlError (''IngestHasSbom :: input: '' @ m)), c)"
proof -
  define row0 where "row0 =
            \<lparr>bom_id = 0, bom_uri = sbom_URI spec, bom_algorithm = ToLower (sbom_Algorithm spec),
             bom_digest = ToLower (sbom_Digest spec),
             bom_download_location = sbom_DownloadLocation spec,
             bom_origin = sbom_Origin spec, bom_collector = sbom_Collector spec,
             bom_known_since = sbom_KnownSince spec,
             bom_package_id = None, bom_artifact_id = None,
             bom_included_software_packages = [], bom_included_software_artifacts = [],
             bom_included_dependencies = [], bom_included_occurrences = []\<rparr>"
  define cols0 where "cols0 =
            [billofmaterials_FieldURI, billofmaterials_FieldAlgorithm,
             billofmaterials_FieldDigest, billofmaterials_FieldDownloadLocation,
             billofmaterials_FieldKnownSince]"
  have tx: "IngestHasSbom_tx c subject spec inc =
     (case IngestHasSbom_subject c subject row0 cols0 of
        (Inl e, c') \<Rightarrow> (Inl e, c')
      | (Inr (row, cols, conflictWhere), c') \<Rightarrow>
          IngestHasSbom_includes c' spec inc row cols conflictWhere)"
    unfolding IngestHasSbom_tx_def Let_def row0_def cols0_def ..
  have inc_fail: "\<exists>m\<in>set included_errors.
           IngestHasSbom_includes c' spec inc r cs w = (Inl (GqlError m), c')"
    if "IngestHasSbom_subject c subject row0 cols0 = (Inr (r, cs, w), c')" for r cs w c'
  proof -
    have v: "c' = subject_view c subject" using IngestHasSbom_subject_view [OF that] .
    have "list_ex (\<lambda>x. \<not> resolves pv_id (PackageVersion c') x) (inc_Packages inc)
     \<or> list_ex (\<lambda>x. \<not> resolves art_id (Artifact c') x) (inc_Artifacts inc)
     \<or> list_ex (\<lambda>x. \<not> resolves dep_id (Dependency c') x) (inc_Dependencies inc)
     \<or> list_ex (\<lambda>x. \<not> resolves occ_id (Occurrence c') x) (inc_Occurrences inc)"
      using assms unfolding missing_included_def v by (simp add: subject_view_tables)
    then show ?thesis by (rule IngestHasSbom_includes_missing)
  qed
  have txfail: "\<exists>e c'. IngestHasSbom_tx c subject spec inc = (Inl e, c')"
  proof (cases "IngestHasSbom_subject c subject row0 cols0")
    case (Pair res c')
    show ?thesis
    proof (cases res)
      case (Inl e)
      then show ?thesis using Pair tx by simp
    next
      case (Inr t)
      obtain r cs w where t: "t = (r, cs, w)" by (cases t)
      from inc_fail [OF Pair [unfolded Inr t]] show ?thesis using Pair Inr t tx by auto
    qed
  qed
  then obtain e c' where "IngestHasSbom_tx c subject spec inc = (Inl e, c')" by blast
  then have "WithinTX c (\<lambda>tx. IngestHasSbom_tx tx subject spec inc) = (Inl e, c)"
    by (rule WithinTX_Inl)
  then show "\<exists>e. IngestHasSbom c subject spec inc = (Inl e, c)"
    using on_err_Inl by (simp add: IngestHasSbom_def)
  show "\<exists>m\<in>set included_errors.
           IngestHasSbom c subject spec inc = (Inl (GqlError (''IngestHasSbom :: input: '' @ m)), c)"
    if sub: "IngestHasSbom_subject c subject row cols = (Inr x, c1)"
  proof -
    obtain x' where s: "IngestHasSbom_subject c subject row0 cols0 = (Inr x', c1)"
      using IngestHasSbom_subject_any_row [OF sub] by blast
    obtain r cs w where t: "x' = (r, cs, w)" by (cases x')
    obtain m where m: "m \<in> set included_errors"
      and f: "IngestHasSbom_includes c1 spec inc r cs w = (Inl (GqlError m), c1)"
      using inc_fail [OF s [unfolded t]] by blast
    have "IngestHasSbom_tx c subject spec inc = (Inl (GqlError m), c1)"
      using tx s t f by simp
    then have "WithinTX c (\<lambda>tx. IngestHasSbom_tx tx subject spec inc) = (Inl (GqlError m), c)"
      by (rule WithinTX_Inl)
    then have "IngestHasSbom c subject spec inc =
                 (Inl (GqlError (''IngestHasSbom :: input: '' @ m)), c)"
      by (simp add: IngestHasSbom_def on_err_def)
    then show ?thesis using m by blast
  qed
qed

section \<open>Ingesting a fact twice\<close>

lemma on_err_not_Inr [simp]: "on_err f (Inl e) \<noteq> Inr x"
  by (cases e) (simp_all add: on_err_def)

lemma find_append_Some: "List.find P xs = Some r \<Longrightarrow> List.find P (xs @ ys) = Some r"
  by (induction xs) (auto split: if_splits)

lemma find_append_None: "List.find P xs = None \<Longrightarrow> List.find P (xs @ ys) = List.find P ys"
  by (induction xs) (auto split: if_splits)

lemma find_prefix: "List.find P xs = Some r \<Longrightarrow> prefix xs ys \<Longrightarrow> List.find P ys = Some r"
  by (auto simp: prefix_def find_append_Some)

lemma find_or_create_idem:
  assumes "find_or_create idf setid same cand rows = (r, rows')"
    and "\<And>n. same (setid n cand)"
  shows "List.find same rows' = Some r" and "prefix rows rows'"
proof -
  show "List.find same rows' = Some r"
  proof (cases "List.find same rows")
    case None
    then show ?thesis
      using assms by (auto simp: find_or_create_def find_append_None)
  next
    case (Some a)
    then show ?thesis using assms(1) by (simp add: find_or_create_def)
  qed
  show "prefix rows rows'"
    using assms(1) by (auto simp: find_or_create_def split: option.splits)
qed

lemma find_or_create_found:
  "List.find same rows = Some r \<Longrightarrow> find_or_create idf setid same cand rows = (r, rows)"
  by (simp add: find_or_create_def)

lemma getPkgName_found:
  "List.find (\<lambda>r. pn_type r = pkg_Type p \<and> pn_namespace r = orEmpty (pkg_Namespace p)
                  \<and> pn_name r = pkg_Name p) (PackageName c) = Some nm \<Longrightarrow>
   getPkgName c p = (Inr nm, c)"
  by (simp add: getPkgName_def find_or_create_found)

lemma getPkgName_result:
  assumes "getPkgName c p = (res, c')"
  shows "\<exists>nm. res = Inr nm
      \<and> List.find (\<lambda>r. pn_type r = pkg_Type p \<and> pn_namespace r = orEmpty (pkg_Namespace p)
                  \<and> pn_name r = pkg_Name p) (PackageName c') = Some nm
      \<and> prefix (PackageName c) (PackageName c') \<and> c' = c\<lparr>PackageName := PackageName c'\<rparr>"
proof -
  obtain row tbl where f: "find_or_create pn_id (\<lambda>n r. r\<lparr>pn_id := n\<rparr>)
             (\<lambda>r. pn_type r = pkg_Type p \<and> pn_namespace r = orEmpty (pkg_Namespace p)
                  \<and> pn_name r = pkg_Name p)
             \<lparr>pn_id = 0, pn_type = pkg_Type p,
              pn_namespace = orEmpty (pkg_Namespace p), pn_name = pkg_Name p\<rparr>
             (PackageName c) = (row, tbl)"
    by (cases "find_or_create pn_id (\<lambda>n r. r\<lparr>pn_id := n\<rparr>)
             (\<lambda>r. pn_type r = pkg_Type p \<and> pn_namespace r = orEmpty (pkg_Namespace p)
                  \<and> pn_name r = pkg_Name p)
             \<lparr>pn_id = 0, pn_type = pkg_Type p,
              pn_namespace = orEmpty (pkg_Namespace p), pn_name = pkg_Name p\<rparr>
             (PackageName c)")
  have r: "res = Inr row" "c' = c\<lparr>PackageName := tbl\<rparr>"
    using assms f by (auto simp: getPkgName_def)
  have "List.find (\<lambda>r. pn_type r = pkg_Type p \<and> pn_namespace r = orEmpty (pkg_Namespace p)
                  \<and> pn_name r = pkg_Name p) tbl = Some row" "prefix (PackageName c) tbl"
    using find_or_create_idem [OF f] by simp_all
  then show ?thesis using r by simp
qed

lemma getPkgVersion_found:
  "pkg_Version p = Some v \<Longrightarrow>
   List.find (\<lambda>r. pn_type r = pkg_Type p \<and> pn_namespace r = orEmpty (pkg_Namespace p)
                  \<and> pn_name r = pkg_Name p) (PackageName c) = Some nm \<Longrightarrow>
   List.find (\<lambda>r. pv_name_id r = pn_id nm \<and> pv_version r = v
                  \<and> pv_subpath r = orEmpty (pkg_Subpath p)
                  \<and> pv_qualifiers r = pkg_Qualifiers p) (PackageVersion c) = Some pv \<Longrightarrow>
   getPkgVersion c p = (Inr pv, c)"
  by (simp add: getPkgVersion_def getPkgName_found find_or_create_found)

lemma getPkgVersion_result:
  assumes "getPkgVersion c p = (Inr pv, c')"
  shows "\<exists>v nm. pkg_Version p = Some v
      \<and> List.find (\<lambda>r. pn_type r = pkg_Type p \<and> pn_namespace r = orEmpty (pkg_Namespace p)
                  \<and> pn_name r = pkg_Name p) (PackageName c') = Some nm
      \<and> List.find (\<lambda>r. pv_name_id r = pn_id nm \<and> pv_version r = v
                  \<and> pv_subpath r = orEmpty (pkg_Subpath p)
                  \<and> pv_qualifiers r = pkg_Qualifiers p) (PackageVersion c') = Some pv
      \<and> prefix (PackageName c) (PackageName c') \<and> prefix (PackageVersion c) (PackageVersion c')
      \<and> c' = c\<lparr>PackageName := PackageName c', PackageVersion := PackageVersion c'\<rparr>"
proof -
  obtain v where v: "pkg_Version p = Some v"
    using assms by (cases "pkg_Version p") (auto simp: getPkgVersion_def)
  obtain res c1 where n: "getPkgName c p = (res, c1)" by (cases "getPkgName c p")
  obtain nm where nm: "res = Inr nm"
    and fn: "List.find (\<lambda>r. pn_type r = pkg_Type p \<and> pn_namespace r = orEmpty (pkg_Namespace p)
                  \<and> pn_name r = pkg_Name p) (PackageName c1) = Some nm"
    and pn: "prefix (PackageName c) (PackageName c1)" and c1: "c1 = c\<lparr>PackageName := PackageName c1\<rparr>"
    using getPkgName_result [OF n] by blast
  obtain row tbl where f: "find_or_create pv_id (\<lambda>n r. r\<lparr>pv_id := n\<rparr>)
                       (\<lambda>r. pv_name_id r = pn_id nm \<and> pv_version r = v
                            \<and> pv_subpath r = orEmpty (pkg_Subpath p)
                            \<and> pv_qualifiers r = pkg_Qualifiers p)
                       \<lparr>pv_id = 0, pv_name_id = pn_id nm, pv_version = v,
                        pv_subpath = orEmpty (pkg_Subpath p),
                        pv_qualifiers = pkg_Qualifiers p\<rparr>
                       (PackageVersion c1) = (row, tbl)"
    by (cases "find_or_create pv_id (\<lambda>n r. r\<lparr>pv_id := n\<rparr>)
                       (\<lambda>r. pv_name_id r = pn_id nm \<and> pv_version r = v
                            \<and> pv_subpath r = orEmpty (pkg_Subpath p)
                            \<and> pv_qualifiers r = pkg_Qualifiers p)
                       \<lparr>pv_id = 0, pv_name_id = pn_id nm, pv_version = v,
                        pv_subpath = orEmpty (pkg_Subpath p),
                        pv_qualifiers = pkg_Qualifiers p\<rparr>
                       (PackageVersion c1)")
  have r: "pv = row" "c' = c1\<lparr>PackageVersion := tbl\<rparr>"
    using assms v n nm f by (auto simp: getPkgVersion_def)
  have fv: "List.find (\<lambda>r. pv_name_id r = pn_id nm \<and> pv_version r = v
                            \<and> pv_subpath r = orEmpty (pkg_Subpath p)
                            \<and> pv_qualifiers r = pkg_Qualifiers p) tbl = Some row"
    and pv: "prefix (PackageVersion c1) tbl"
    using find_or_create_idem [OF f] by simp_all
  have pvc: "PackageVersion c1 = PackageVersion c" by (subst c1) simp
  have "c' = c\<lparr>PackageName := PackageName c', PackageVersion := PackageVersion c'\<rparr>"
    unfolding r(2) by (subst (1 2 3) c1) simp
  then show ?thesis using v fn fv pn pv pvc r by auto
qed

lemma getPkgVersion_stable:
  assumes "getPkgVersion c p = (Inr pv, c')"
    and "prefix (PackageName c') (PackageName d)" and "prefix (PackageVersion c') (PackageVersion d)"
  shows "getPkgVersion d p = (Inr pv, d)"
proof -
  obtain v nm where "pkg_Version p = Some v"
    and "List.find (\<lambda>r. pn_type r = pkg_Type p \<and> pn_namespace r = orEmpty (pkg_Namespace p)
                  \<and> pn_name r = pkg_Name p) (PackageName c') = Some nm"
    and "List.find (\<lambda>r. pv_name_id r = pn_id nm \<and> pv_version r = v
                  \<and> pv_subpath r = orEmpty (pkg_Subpath p)
                  \<and> pv_qualifiers r = pkg_Qualifiers p) (PackageVersion c') = Some pv"
    using getPkgVersion_result [OF assms(1)] by blast
  then show ?thesis
    using assms(2,3) by (intro getPkgVersion_found) (auto intro: find_prefix)
qed

lemma getPkgName_stable:
  assumes "getPkgName c p = (Inr nm, c')" and "prefix (PackageName c') (PackageName d)"
  shows "getPkgName d p = (Inr nm, d)"
  using getPkgName_result [OF assms(1)] assms(2)
  by (intro getPkgName_found) (auto intro: find_prefix)

lemma upsertSource_result:
  assumes "upsertSource c s = (res, c')"
  shows "\<exists>row. res = Inr \<lparr>ids_SourceNameID = Itoa (sn_id row)\<rparr>
      \<and> List.find (\<lambda>r. sn_type r = src_Type s \<and> sn_namespace r = src_Namespace s
                  \<and> sn_name r = src_Name s \<and> sn_commit r = orEmpty (src_Commit s)
                  \<and> sn_tag r = orEmpty (src_Tag s)) (SourceName c') = Some row
      \<and> c' = c\<lparr>SourceName := SourceName c'\<rparr>"
proof -
  obtain row tbl where f: "find_or_create sn_id (\<lambda>n r. r\<lparr>sn_id := n\<rparr>)
             (\<lambda>r. sn_type r = src_Type s \<and> sn_namespace r = src_Namespace s
                  \<and> sn_name r = src_Name s \<and> sn_commit r = orEmpty (src_Commit s)
                  \<and> sn_tag r = orEmpty (src_Tag s))
             \<lparr>sn_id = 0, sn_type = src_Type s, sn_namespace = src_Namespace s,
              sn_name = src_Name s, sn_commit = orEmpty (src_Commit s),
              sn_tag = orEmpty (src_Tag s)\<rparr>
             (SourceName c) = (row, tbl)"
    by (cases "find_or_create sn_id (\<lambda>n r. r\<lparr>sn_id := n\<rparr>)
             (\<lambda>r. sn_type r = src_Type s \<and> sn_namespace r = src_Namespace s
                  \<and> sn_name r = src_Name s \<and> sn_commit r = orEmpty (src_Commit s)
                  \<and> sn_tag r = orEmpty (src_Tag s))
             \<lparr>sn_id = 0, sn_type = src_Type s, sn_namespace = src_Namespace s,
              sn_name = src_Name s, sn_commit = orEmpty (src_Commit s),
              sn_tag = orEmpty (src_Tag s)\<rparr>
             (SourceName c)")
  have r: "res = Inr \<lparr>ids_SourceNameID = Itoa (sn_id row)\<rparr>" "c' = c\<lparr>SourceName := tbl\<rparr>"
    using assms f by (auto simp: upsertSource_def)
  have "List.find (\<lambda>r. sn_type r = src_Type s \<and> sn_namespace r = src_Namespace s
                  \<and> sn_name r = src_Name s \<and> sn_commit r = orEmpty (src_Commit s)
                  \<and> sn_tag r = orEmpty (src_Tag s)) tbl = Some row"
    using find_or_create_idem(1) [OF f] by simp
  then show ?thesis using r by simp
qed

lemma upsertSource_stable:
  assumes "upsertSource c s = (res, c')" and "SourceName d = SourceName c'"
  shows "upsertSource d s = (res, d)"
  using upsertSource_result [OF assms(1)] assms(2)
  by (auto simp: upsertSource_def find_or_create_found)


lemma UpdateNewValues_idem:
  assumes "UpdateNewValues idf setid col cs w cand rows = (res, rows')"
    and idset: "\<And>n x. idf (setid n x) = n"
    and self: "\<And>n. conflicts col cs w cand (setid n cand)"
  shows "UpdateNewValues idf setid col cs w cand rows' = (res, rows')"
proof (cases "List.extract (conflicts col cs w cand) rows")
  case None
  then have no: "\<not> (\<exists>x\<in>set rows. conflicts col cs w cand x)"
    by (simp add: extract_None_iff)
  have r: "res = Inr (fresh_id idf rows)" "rows' = rows @ [setid (fresh_id idf rows) cand]"
    using assms(1) None by (auto simp: UpdateNewValues_def)
  have "List.extract (conflicts col cs w cand) rows'
          = Some (rows, setid (fresh_id idf rows) cand, [])"
    unfolding r(2) using no self by (simp add: extract_Some_iff)
  then show ?thesis
    unfolding r by (simp add: UpdateNewValues_def idset)
next
  case (Some t)
  obtain before r after where t: "t = (before, r, after)" by (cases t)
  have d: "rows = before @ r # after" "\<not> (\<exists>y\<in>set before. conflicts col cs w cand y)"
    using Some t by (auto simp: extract_Some_iff)
  have r: "res = Inr (idf r)" "rows' = before @ [setid (idf r) cand] @ after"
    using assms(1) Some t by (auto simp: UpdateNewValues_def)
  have "List.extract (conflicts col cs w cand) rows'
          = Some (before, setid (idf r) cand, after)"
    unfolding r(2) using d(2) self by (simp add: extract_Some_iff)
  then show ?thesis
    unfolding r by (simp add: UpdateNewValues_def idset)
qed

lemma Ignore_idem:
  assumes "Ignore idf setid col cs w cand rows = (res, rows')"
    and idset: "\<And>n x. idf (setid n x) = n"
    and self: "\<And>n. conflicts col cs w cand (setid n cand)"
  shows "Ignore idf setid col cs w cand rows' = (res, rows')"
proof (cases "List.find (conflicts col cs w cand) rows")
  case None
  have r: "res = Inr (fresh_id idf rows)" "rows' = rows @ [setid (fresh_id idf rows) cand]"
    using assms(1) None by (auto simp: Ignore_def)
  have "List.find (conflicts col cs w cand) rows' = Some (setid (fresh_id idf rows) cand)"
    unfolding r(2) using None self by (simp add: find_append_None)
  then show ?thesis
    unfolding r by (simp add: Ignore_def idset)
next
  case (Some r)
  then show ?thesis using assms(1) by (auto simp: Ignore_def)
qed

lemma occurrence_upsert_idem:
  assumes "occurrence_upsert c cand cols w = (res, c')"
    and "\<And>n. conflicts occurrence_col cols w cand (cand\<lparr>occ_id := n\<rparr>)"
  shows "occurrence_upsert c' cand cols w = (res, c')"
proof -
  obtain tbl where u: "UpdateNewValues occ_id (\<lambda>n r. r\<lparr>occ_id := n\<rparr>) occurrence_col cols w cand
                         (Occurrence c) = (res, tbl)" and c': "c' = c\<lparr>Occurrence := tbl\<rparr>"
    using assms(1) by (auto simp: occurrence_upsert_def split: prod.splits)
  have "UpdateNewValues occ_id (\<lambda>n r. r\<lparr>occ_id := n\<rparr>) occurrence_col cols w cand tbl = (res, tbl)"
    by (rule UpdateNewValues_idem [OF u]) (simp_all add: assms(2))
  then show ?thesis by (simp add: occurrence_upsert_def c')
qed

lemma dependency_upsert_idem:
  assumes "dependency_upsert c cand cols w = (res, c')"
    and "\<And>n. conflicts dependency_col cols w cand (cand\<lparr>dep_id := n\<rparr>)"
  shows "dependency_upsert c' cand cols w = (res, c')"
proof -
  obtain tbl where u: "Ignore dep_id (\<lambda>n r. r\<lparr>dep_id := n\<rparr>) dependency_col cols w cand
                         (Dependency c) = (res, tbl)" and c': "c' = c\<lparr>Dependency := tbl\<rparr>"
    using assms(1) by (auto simp: dependency_upsert_def split: prod.splits)
  have "Ignore dep_id (\<lambda>n r. r\<lparr>dep_id := n\<rparr>) dependency_col cols w cand tbl = (res, tbl)"
    by (rule Ignore_idem [OF u]) (simp_all add: assms(2))
  then show ?thesis by (simp add: dependency_upsert_def c')
qed

lemma occurrence_upsert_tables:
  "occurrence_upsert c cand cols w = (res, c') \<Longrightarrow>
   Artifact c' = Artifact c \<and> PackageName c' = PackageName c \<and> PackageVersion c' = PackageVersion c
   \<and> SourceName c' = SourceName c"
  by (auto simp: occurrence_upsert_def split: prod.splits)

lemma dependency_upsert_tables:
  "dependency_upsert c cand cols w = (res, c') \<Longrightarrow>
   Artifact c' = Artifact c \<and> PackageName c' = PackageName c \<and> PackageVersion c' = PackageVersion c"
  by (auto simp: dependency_upsert_def split: prod.splits)

lemma IngestOccurrence_tx_idem:
  assumes "IngestOccurrence_tx c subject art spec = (Inr n, c')"
  shows "IngestOccurrence_tx c' subject art spec = (Inr n, c')"
proof -
  obtain ai where ai: "ArtifactInput art = Some ai"
    using assms by (cases "ArtifactInput art") (auto simp: IngestOccurrence_tx_def)
  obtain a where a: "Only ''artifact'' (filter (artifactQueryInputPredicates ai) (Artifact c)) = Inr a"
    using assms ai
    by (cases "Only ''artifact'' (filter (artifactQueryInputPredicates ai) (Artifact c))")
       (auto simp: IngestOccurrence_tx_def)
  define cand where "cand = \<lparr>occ_id = 0, occ_artifact_id = art_id a,
             occ_justification = occ_Justification spec, occ_origin = occ_Origin spec,
             occ_collector = occ_Collector spec, occ_package_id = None, occ_source_id = None\<rparr>"
  define cols where "cols = [occurrence_FieldArtifactID, occurrence_FieldJustification,
             occurrence_FieldOrigin, occurrence_FieldCollector]"
  show ?thesis
  proof (cases "pos_Package subject")
    case (Some p)
    obtain pin where pin: "PackageInput p = Some pin"
      using assms ai a Some by (cases "PackageInput p") (auto simp: IngestOccurrence_tx_def)
    obtain r c1 where g: "getPkgVersion c pin = (r, c1)" by (cases "getPkgVersion c pin")
    obtain pv where pv: "r = Inr pv"
      using assms ai a Some pin g by (cases r) (auto simp: IngestOccurrence_tx_def)
    have u: "occurrence_upsert c1 (cand\<lparr>occ_package_id := Some (pv_id pv)\<rparr>)
               (cols @ [occurrence_FieldPackageID])
               (And (NotNull occurrence_FieldPackageID) (IsNull occurrence_FieldSourceID))
             = (Inr n, c')"
      using assms ai a Some pin g pv by (simp add: IngestOccurrence_tx_def cand_def cols_def)
    note T = occurrence_upsert_tables [OF u]
    have art': "Artifact c' = Artifact c"
      using T getPkgVersion_tables [OF g] by simp
    have g': "getPkgVersion c' pin = (Inr pv, c')"
      by (rule getPkgVersion_stable [OF g [unfolded pv]]) (simp_all add: T)
    have u': "occurrence_upsert c' (cand\<lparr>occ_package_id := Some (pv_id pv)\<rparr>)
               (cols @ [occurrence_FieldPackageID])
               (And (NotNull occurrence_FieldPackageID) (IsNull occurrence_FieldSourceID))
             = (Inr n, c')"
      by (rule occurrence_upsert_idem [OF u])
         (simp add: conflicts_def cols_def cand_def optInt_def)
    show ?thesis
      using ai a Some pin g' u' art'
      by (simp add: IngestOccurrence_tx_def cand_def cols_def)
  next
    case None
    obtain s where s: "pos_Source subject = Some s"
      using assms ai a None by (cases "pos_Source subject") (auto simp: IngestOccurrence_tx_def)
    obtain sin where sin: "SourceInput s = Some sin"
      using assms ai a None s by (cases "SourceInput s") (auto simp: IngestOccurrence_tx_def)
    obtain r c1 where g: "upsertSource c sin = (r, c1)" by (cases "upsertSource c sin")
    obtain row :: SourceName_row where row: "r = Inr \<lparr>ids_SourceNameID = Itoa (sn_id row)\<rparr>"
      and c1: "c1 = c\<lparr>SourceName := SourceName c1\<rparr>"
      using upsertSource_result [OF g] by blast
    have u: "occurrence_upsert c1 (cand\<lparr>occ_source_id := Some (sn_id row)\<rparr>)
               (cols @ [occurrence_FieldSourceID])
               (And (IsNull occurrence_FieldPackageID) (NotNull occurrence_FieldSourceID))
             = (Inr n, c')"
      using assms ai a None s sin g row
      by (simp add: IngestOccurrence_tx_def cand_def cols_def Atoi_Itoa)
    note T = occurrence_upsert_tables [OF u]
    have "Artifact c1 = Artifact c" by (subst c1) simp
    then have art': "Artifact c' = Artifact c" using T by simp
    have g': "upsertSource c' sin = (r, c')"
      by (rule upsertSource_stable [OF g]) (simp add: T)
    have u': "occurrence_upsert c' (cand\<lparr>occ_source_id := Some (sn_id row)\<rparr>)
               (cols @ [occurrence_FieldSourceID])
               (And (IsNull occurrence_FieldPackageID) (NotNull occurrence_FieldSourceID))
             = (Inr n, c')"
      by (rule occurrence_upsert_idem [OF u])
         (simp add: conflicts_def cols_def cand_def optInt_def)
    show ?thesis
      using ai a None s sin g' row u' art'
      by (simp add: IngestOccurrence_tx_def cand_def cols_def Atoi_Itoa)
  qed
qed

lemma IngestOccurrence_idempotent:
  assumes "IngestOccurrence c subject art spec = (Inr ident, c')"
  shows "IngestOccurrence c' subject art spec = (Inr ident, c')"
proof -
  obtain r c1 where w: "WithinTX c (\<lambda>tx. IngestOccurrence_tx tx subject art spec) = (r, c1)"
    by (cases "WithinTX c (\<lambda>tx. IngestOccurrence_tx tx subject art spec)")
  obtain n where n: "r = Inr n"
    using assms w by (cases r) (auto simp: IngestOccurrence_def)
  have body: "IngestOccurrence_tx c subject art spec = (Inr n, c1)"
    using w n by (auto simp: WithinTX_def split: prod.splits sum.splits)
  have rest: "(case Only ''occurrence'' (filter (\<lambda>r. occ_id r = n) (Occurrence c1)) of
             Inl err \<Rightarrow> (Inl (GqlError (''IngestOccurrence'' @ '' :: '' @ err_Error err)), c1)
           | Inr record \<Rightarrow> (Inr (nodeID (occ_id record)), c1)) = (Inr ident, c')"
    using assms w n by (simp add: IngestOccurrence_def)
  then have cc: "c' = c1" by (auto split: sum.splits)
  have "WithinTX c1 (\<lambda>tx. IngestOccurrence_tx tx subject art spec) = (Inr n, c1)"
    using IngestOccurrence_tx_idem [OF body] by (rule WithinTX_Inr)
  then show ?thesis
    using rest cc by (simp add: IngestOccurrence_def)
qed


lemma IngestDependency_tx_idem:
  assumes "IngestDependency_tx c pkg depPkg mt dep = (Inr n, c')"
  shows "IngestDependency_tx c' pkg depPkg mt dep = (Inr n, c')"
proof -
  obtain pin where pin: "PackageInput pkg = Some pin"
    using assms by (cases "PackageInput pkg") (auto simp: IngestDependency_tx_def)
  obtain r c1 where g: "getPkgVersion c pin = (r, c1)" by (cases "getPkgVersion c pin")
  obtain p where p: "r = Inr p"
    using assms pin g by (cases r) (auto simp: IngestDependency_tx_def)
  note g = g [unfolded p]
  obtain din where din: "PackageInput depPkg = Some din"
    using assms pin g
    by (cases "PackageInput depPkg") (auto simp: IngestDependency_tx_def Let_def split: if_splits)
  define cand where "cand =
            \<lparr>dep_id = 0, dep_package_id = pv_id p, dep_version_range = dep_VersionRange dep,
             dep_dependency_type = dependencyTypeToEnum (dep_DependencyType dep),
             dep_justification = dep_Justification dep, dep_origin = dep_Origin dep,
             dep_collector = dep_Collector dep,
             dep_dependent_package_name_id = None, dep_dependent_package_version_id = None\<rparr>"
  define cols where "cols =
            [dependency_FieldPackageID, dependency_FieldVersionRange,
             dependency_FieldDependencyType, dependency_FieldJustification,
             dependency_FieldOrigin, dependency_FieldCollector]"
  show ?thesis
  proof (cases "Pkg mt = PkgMatchTypeAllVersions")
    case True
    obtain r2 c2 where h: "getPkgName c1 din = (r2, c2)" by (cases "getPkgName c1 din")
    obtain dpn where dpn: "r2 = Inr dpn" and pre: "prefix (PackageName c1) (PackageName c2)"
      using getPkgName_result [OF h] by blast
    note h = h [unfolded dpn]
    have u: "dependency_upsert c2 (cand\<lparr>dep_dependent_package_name_id := Some (pn_id dpn)\<rparr>)
               (cols @ [dependency_FieldDependentPackageNameID])
               (And (NotNull dependency_FieldDependentPackageNameID)
                    (IsNull dependency_FieldDependentPackageVersionID)) = (Inr n, c')"
      using assms pin g din True h by (simp add: IngestDependency_tx_def cand_def cols_def)
    note T = dependency_upsert_tables [OF u]
    have g': "getPkgVersion c' pin = (Inr p, c')"
      by (rule getPkgVersion_stable [OF g]) (use T pre getPkgName_tables [OF h] in simp_all)
    have h': "getPkgName c' din = (Inr dpn, c')"
      by (rule getPkgName_stable [OF h]) (simp add: T)
    have u': "dependency_upsert c' (cand\<lparr>dep_dependent_package_name_id := Some (pn_id dpn)\<rparr>)
               (cols @ [dependency_FieldDependentPackageNameID])
               (And (NotNull dependency_FieldDependentPackageNameID)
                    (IsNull dependency_FieldDependentPackageVersionID)) = (Inr n, c')"
      by (rule dependency_upsert_idem [OF u])
         (simp add: conflicts_def cols_def cand_def optInt_def)
    show ?thesis
      using pin g' din True h' u' by (simp add: IngestDependency_tx_def cand_def cols_def)
  next
    case False
    obtain r2 c2 where h: "getPkgVersion c1 din = (r2, c2)" by (cases "getPkgVersion c1 din")
    obtain dpv where dpv: "r2 = Inr dpv"
      using assms pin g din False h by (cases r2) (auto simp: IngestDependency_tx_def Let_def)
    note h = h [unfolded dpv]
    have pre: "prefix (PackageName c1) (PackageName c2)" "prefix (PackageVersion c1) (PackageVersion c2)"
      using getPkgVersion_result [OF h] by blast+
    have u: "dependency_upsert c2 (cand\<lparr>dep_dependent_package_version_id := Some (pv_id dpv)\<rparr>)
               (cols @ [dependency_FieldDependentPackageVersionID])
               (And (IsNull dependency_FieldDependentPackageNameID)
                    (NotNull dependency_FieldDependentPackageVersionID)) = (Inr n, c')"
      using assms pin g din False h by (simp add: IngestDependency_tx_def cand_def cols_def)
    note T = dependency_upsert_tables [OF u]
    have g': "getPkgVersion c' pin = (Inr p, c')"
      by (rule getPkgVersion_stable [OF g]) (use T pre in simp_all)
    have h': "getPkgVersion c' din = (Inr dpv, c')"
      by (rule getPkgVersion_stable [OF h]) (simp_all add: T)
    have u': "dependency_upsert c' (cand\<lparr>dep_dependent_package_version_id := Some (pv_id dpv)\<rparr>)
               (cols @ [dependency_FieldDependentPackageVersionID])
               (And (IsNull dependency_FieldDependentPackageNameID)
                    (NotNull dependency_FieldDependentPackageVersionID)) = (Inr n, c')"
      by (rule dependency_upsert_idem [OF u])
         (simp add: conflicts_def cols_def cand_def optInt_def)
    show ?thesis
      using pin g' din False h' u' by (simp add: IngestDependency_tx_def cand_def cols_def)
  qed
qed

lemma IngestDependency_idempotent:
  assumes "IngestDependency c pkg depPkg mt dep = (Inr ident, c')"
  shows "IngestDependency c' pkg depPkg mt dep = (Inr ident, c')"
proof -
  obtain r c1 where w: "WithinTX c (\<lambda>tx. IngestDependency_tx tx pkg depPkg mt dep) = (r, c1)"
    by (cases "WithinTX c (\<lambda>tx. IngestDependency_tx tx pkg depPkg mt dep)")
  obtain n where n: "r = Inr n"
    using assms w by (cases r) (auto simp: IngestDependency_def)
  have body: "IngestDependency_tx c pkg depPkg mt dep = (Inr n, c1)"
    using w n by (auto simp: WithinTX_def split: prod.splits sum.splits)
  have res: "ident = nodeID n" "c' = c1"
    using assms w n by (auto simp: IngestDependency_def)
  have "WithinTX c1 (\<lambda>tx. IngestDependency_tx tx pkg depPkg mt dep) = (Inr n, c1)"
    using IngestDependency_tx_idem [OF body] by (rule WithinTX_Inr)
  then show ?thesis
    using res by (simp add: IngestDependency_def)
qed


lemma DoNothing_cases:
  "DoNothing idf setid col cs w cand rows = (res, rows') \<Longrightarrow>
   (res = Inl ErrNoRows \<and> rows' = rows \<and> (\<exists>r. List.find (conflicts col cs w cand) rows = Some r))
   \<or> (res = Inr (fresh_id idf rows) \<and> rows' = rows @ [setid (fresh_id idf rows) cand]
       \<and> List.find (conflicts col cs w cand) rows = None)"
  by (auto simp: DoNothing_def split: option.splits)

lemma billofmaterials_upsert_cases:
  assumes "billofmaterials_upsert c cand cols w = (res, c')"
  shows "(res = Inl ErrNoRows \<and> c' = c
          \<and> (\<exists>r. List.find (conflicts billofmaterials_col cols w cand) (BillOfMaterials c) = Some r))
   \<or> (\<exists>m. res = Inr m \<and> c' = c\<lparr>BillOfMaterials := BillOfMaterials c @ [cand\<lparr>bom_id := m\<rparr>]\<rparr>
       \<and> List.find (conflicts billofmaterials_col cols w cand) (BillOfMaterials c) = None)"
proof -
  obtain tbl where d: "DoNothing bom_id (\<lambda>n r. r\<lparr>bom_id := n\<rparr>) billofmaterials_col cols w cand
                         (BillOfMaterials c) = (res, tbl)" and c': "c' = c\<lparr>BillOfMaterials := tbl\<rparr>"
    using assms by (auto simp: billofmaterials_upsert_def split: prod.splits)
  from DoNothing_cases [OF d] show ?thesis using c' by auto
qed

lemma IngestHasSbom_subject_row:
  assumes "IngestHasSbom_subject c subject row0 cols0 = (Inr (row, cols, w), c1)"
  shows "(\<exists>k. row = row0\<lparr>bom_package_id := Some k\<rparr>
            \<and> cols = cols0 @ [billofmaterials_FieldPackageID]
            \<and> w = And (NotNull billofmaterials_FieldPackageID) (IsNull billofmaterials_FieldArtifactID))
       \<or> (\<exists>k. row = row0\<lparr>bom_artifact_id := Some k\<rparr>
            \<and> cols = cols0 @ [billofmaterials_FieldArtifactID]
            \<and> w = And (IsNull billofmaterials_FieldPackageID) (NotNull billofmaterials_FieldArtifactID))"
  using assms
  by (auto simp: IngestHasSbom_subject_def split: option.splits prod.splits sum.splits)

lemma IngestHasSbom_subject_stable:
  assumes "IngestHasSbom_subject c subject row0 cols0 = (Inr x, c1)"
    and "PackageName d = PackageName c1" and "PackageVersion d = PackageVersion c1"
    and "Artifact d = Artifact c1"
  shows "IngestHasSbom_subject d subject row0 cols0 = (Inr x, d)"
proof (cases "poa_Package subject")
  case (Some pk)
  obtain pin where pin: "PackageInput pk = Some pin"
    using assms(1) Some by (cases "PackageInput pk") (auto simp: IngestHasSbom_subject_def)
  obtain r c2 where g: "getPkgVersion c pin = (r, c2)" by (cases "getPkgVersion c pin")
  obtain p where p: "r = Inr p"
    using assms(1) Some pin g by (cases r) (auto simp: IngestHasSbom_subject_def)
  have c2: "c2 = c1" using assms(1) Some pin g p by (auto simp: IngestHasSbom_subject_def)
  have g': "getPkgVersion d pin = (Inr p, d)"
    by (rule getPkgVersion_stable [OF g [unfolded p]]) (simp_all add: c2 assms)
  show ?thesis
    using assms(1) Some pin g p g' by (auto simp: IngestHasSbom_subject_def)
next
  case None
  have c1: "c1 = c"
    using assms(1) None
    by (auto simp: IngestHasSbom_subject_def split: option.splits sum.splits)
  show ?thesis
    using assms(1) None assms(4)
    by (auto simp: IngestHasSbom_subject_def c1 split: option.splits sum.splits)
qed

lemma IngestHasSbom_includes_idem:
  assumes run: "IngestHasSbom_includes c1 spec inc row cols w = (Inr n, c')"
    and self: "\<And>m p a d oc. conflicts billofmaterials_col cols w
                 (row\<lparr>bom_included_software_packages := p, bom_included_software_artifacts := a,
                      bom_included_dependencies := d, bom_included_occurrences := oc\<rparr>)
                 (row\<lparr>bom_included_software_packages := p, bom_included_software_artifacts := a,
                      bom_included_dependencies := d, bom_included_occurrences := oc,
                      bom_id := m\<rparr>)"
    and uri: "bom_uri row = sbom_URI spec"
    and uniq: "length (filter (\<lambda>r. bom_uri r = sbom_URI spec) (BillOfMaterials c')) \<le> 1"
  shows "IngestHasSbom_includes c' spec inc row cols w = (Inr n, c')"
proof -
  define lp where "lp = (\<lambda>(c::DB) x. OnlyID ''package_version'' pv_id
                     (filter (\<lambda>r. IDEQ x (pv_id r)) (PackageVersion c)))"
  define fp where "fp = (\<lambda>err. GqlError (''IngestHasSbom'' @ '' '' @
                       ''error querying for PackageVersion by ID'' @ '' :: '' @ err_Error err))"
  define la where "la = (\<lambda>(c::DB) x. OnlyID ''artifact'' art_id (filter (\<lambda>r. IDEQ x (art_id r)) (Artifact c)))"
  define fa where "fa = (\<lambda>err::error. GqlError (''IngestHasSbom'' @ '' :: '' @ ''error querying for artifact by ID''))"
  define ld where "ld = (\<lambda>(c::DB) x. OnlyID ''dependency'' dep_id
                     (filter (\<lambda>r. IDEQ x (dep_id r)) (Dependency c)))"
  define fd where "fd = (\<lambda>err::error. GqlError (''IngestHasSbom'' @ '' :: '' @
                       ''includes.Dependencies must be a valid IsDependency ID''))"
  define lo where "lo = (\<lambda>(c::DB) x. OnlyID ''occurrence'' occ_id
                     (filter (\<lambda>r. IDEQ x (occ_id r)) (Occurrence c)))"
  define fo where "fo = (\<lambda>err::error. GqlError (''IngestHasSbom'' @ '' :: '' @
                       ''includes.Occurrences must be a valid IsOccurrence ID''))"
  define Pk where "Pk = (\<lambda>c::DB. included_ids (lp c) fp (SortAndRemoveDups (inc_Packages inc)))"
  define Ak where "Ak = (\<lambda>c::DB. included_ids (la c) fa (SortAndRemoveDups (inc_Artifacts inc)))"
  define Dk where "Dk = (\<lambda>c::DB. included_ids (ld c) fd (SortAndRemoveDups (inc_Dependencies inc)))"
  define Ok where "Ok = (\<lambda>c::DB. included_ids (lo c) fo (SortAndRemoveDups (inc_Occurrences inc)))"
  have unfold: "IngestHasSbom_includes c spec inc row cols w =
     (case Pk c of Inl e \<Rightarrow> (Inl e, c) | Inr pkgIDs \<Rightarrow>
     (case Ak c of Inl e \<Rightarrow> (Inl e, c) | Inr artifactIds \<Rightarrow>
     (case Dk c of Inl e \<Rightarrow> (Inl e, c) | Inr isDepIDs \<Rightarrow>
     (case Ok c of Inl e \<Rightarrow> (Inl e, c) | Inr isOccIDs \<Rightarrow>
     (case billofmaterials_upsert c
             (row\<lparr>bom_included_software_packages := pkgIDs,
                  bom_included_software_artifacts := artifactIds,
                  bom_included_dependencies := isDepIDs,
                  bom_included_occurrences := isOccIDs\<rparr>) cols w of
        (res, c2) \<Rightarrow> (case sbom_upsert_result c2 spec res of
             Inl e \<Rightarrow> (Inl e, c2) | Inr n \<Rightarrow> (Inr n, c2)))))))" for c
    unfolding IngestHasSbom_includes_def Let_def Pk_def Ak_def Dk_def Ok_def
      lp_def fp_def la_def fa_def ld_def fd_def lo_def fo_def ..
  obtain pk where pk: "Pk c1 = Inr pk" using run unfold [of c1] by (cases "Pk c1") auto
  obtain ak where ak: "Ak c1 = Inr ak" using run unfold [of c1] pk by (cases "Ak c1") auto
  obtain dk where dk: "Dk c1 = Inr dk" using run unfold [of c1] pk ak by (cases "Dk c1") auto
  obtain ok where ok: "Ok c1 = Inr ok" using run unfold [of c1] pk ak dk by (cases "Ok c1") auto
  define cand where "cand = row\<lparr>bom_included_software_packages := pk,
                  bom_included_software_artifacts := ak,
                  bom_included_dependencies := dk,
                  bom_included_occurrences := ok\<rparr>"
  obtain res c2 where u: "billofmaterials_upsert c1 cand cols w = (res, c2)"
    by (cases "billofmaterials_upsert c1 cand cols w")
  have fin: "sbom_upsert_result c2 spec res = Inr n" and cc: "c' = c2"
    using run unfold [of c1] pk ak dk ok u
    by (auto simp: cand_def split: sum.splits)
  have tabs: "PackageVersion c' = PackageVersion c1" "Artifact c' = Artifact c1"
     "Dependency c' = Dependency c1" "Occurrence c' = Occurrence c1"
    using billofmaterials_upsert_cases [OF u] cc by auto
  have same: "Pk c' = Inr pk" "Ak c' = Inr ak" "Dk c' = Inr dk" "Ok c' = Inr ok"
    using pk ak dk ok tabs
    unfolding Pk_def Ak_def Dk_def Ok_def lp_def la_def ld_def lo_def by simp_all
  have selfc: "conflicts billofmaterials_col cols w cand (cand\<lparr>bom_id := m\<rparr>)" for m
    unfolding cand_def by (rule self)
  have u': "billofmaterials_upsert c' cand cols w = (Inl ErrNoRows, c')"
    and fin': "sbom_upsert_result c' spec (Inl ErrNoRows) = Inr n"
  proof -
    consider (conflict) "res = Inl ErrNoRows" "c2 = c1"
        "\<exists>r. List.find (conflicts billofmaterials_col cols w cand) (BillOfMaterials c1) = Some r"
      | (insert) m where "res = Inr m"
        "c2 = c1\<lparr>BillOfMaterials := BillOfMaterials c1 @ [cand\<lparr>bom_id := m\<rparr>]\<rparr>"
        "List.find (conflicts billofmaterials_col cols w cand) (BillOfMaterials c1) = None"
      using billofmaterials_upsert_cases [OF u] by blast
    then have "billofmaterials_upsert c' cand cols w = (Inl ErrNoRows, c')
               \<and> sbom_upsert_result c' spec (Inl ErrNoRows) = Inr n"
    proof cases
      case conflict
      then show ?thesis
        using fin cc billofmaterials_upsert_conflict by auto
    next
      case insert
      have nm: "n = m" using fin insert(1) by (simp add: sbom_upsert_result_def)
      have f: "List.find (conflicts billofmaterials_col cols w cand) (BillOfMaterials c')
                 = Some (cand\<lparr>bom_id := m\<rparr>)"
        using insert(2,3) cc selfc by (simp add: find_append_None)
      have up: "billofmaterials_upsert c' cand cols w = (Inl ErrNoRows, c')"
        by (rule billofmaterials_upsert_conflict [OF f])
      have mem: "cand\<lparr>bom_id := m\<rparr> \<in> set (filter (\<lambda>r. bom_uri r = sbom_URI spec) (BillOfMaterials c'))"
        using insert(2) cc uri by (simp add: cand_def)
      obtain x where x: "filter (\<lambda>r. bom_uri r = sbom_URI spec) (BillOfMaterials c') = [x]"
        using uniq mem
        by (cases "filter (\<lambda>r. bom_uri r = sbom_URI spec) (BillOfMaterials c')") auto
      then have "x = cand\<lparr>bom_id := m\<rparr>" using mem by simp
      then have "sbom_upsert_result c' spec (Inl ErrNoRows) = Inr n"
        using sbom_upsert_result_no_rows [OF x] nm by simp
      then show ?thesis using up by simp
    qed
    then show "billofmaterials_upsert c' cand cols w = (Inl ErrNoRows, c')"
      and "sbom_upsert_result c' spec (Inl ErrNoRows) = Inr n" by simp_all
  qed
  show ?thesis
    using unfold [of c'] same u' fin' by (simp add: cand_def)
qed

lemma IngestHasSbom_idempotent_unique_uri:
  assumes run: "IngestHasSbom c subject spec inc = (Inr ident, c')"
    and uniq: "length (filter (\<lambda>r. bom_uri r = sbom_URI spec) (BillOfMaterials c')) \<le> 1"
  shows "IngestHasSbom c' subject spec inc = (Inr ident, c')"
proof -
  define row0 where "row0 =
            \<lparr>bom_id = 0, bom_uri = sbom_URI spec, bom_algorithm = ToLower (sbom_Algorithm spec),
             bom_digest = ToLower (sbom_Digest spec),
             bom_download_location = sbom_DownloadLocation spec,
             bom_origin = sbom_Origin spec, bom_collector = sbom_Collector spec,
             bom_known_since = sbom_KnownSince spec,
             bom_package_id = None, bom_artifact_id = None,
             bom_included_software_packages = [], bom_included_software_artifacts = [],
             bom_included_dependencies = [], bom_included_occurrences = []\<rparr>"
  define cols0 where "cols0 =
            [billofmaterials_FieldURI, billofmaterials_FieldAlgorithm,
             billofmaterials_FieldDigest, billofmaterials_FieldDownloadLocation,
             billofmaterials_FieldKnownSince]"
  have tx: "IngestHasSbom_tx c subject spec inc =
     (case IngestHasSbom_subject c subject row0 cols0 of
        (Inl e, c') \<Rightarrow> (Inl e, c')
      | (Inr (row, cols, conflictWhere), c') \<Rightarrow>
          IngestHasSbom_includes c' spec inc row cols conflictWhere)" for c
    unfolding IngestHasSbom_tx_def Let_def row0_def cols0_def ..
  obtain r cw where w: "WithinTX c (\<lambda>tx. IngestHasSbom_tx tx subject spec inc) = (r, cw)"
    by (cases "WithinTX c (\<lambda>tx. IngestHasSbom_tx tx subject spec inc)")
  obtain n where n: "r = Inr n"
    using run w by (cases r) (auto simp: IngestHasSbom_def)
  have body: "IngestHasSbom_tx c subject spec inc = (Inr n, cw)"
    using w n by (auto simp: WithinTX_def split: prod.splits sum.splits)
  have res: "ident = Itoa n" "c' = cw"
    using run w n by (auto simp: IngestHasSbom_def)
  obtain sr c1 where s: "IngestHasSbom_subject c subject row0 cols0 = (sr, c1)"
    by (cases "IngestHasSbom_subject c subject row0 cols0")
  obtain row cols cwh where sr: "sr = Inr (row, cols, cwh)"
    using body tx [of c] s by (cases sr) auto
  note s = s [unfolded sr]
  have inc: "IngestHasSbom_includes c1 spec inc row cols cwh = (Inr n, c')"
    using body tx [of c] s res by simp
  have tabs: "PackageName c' = PackageName c1" "PackageVersion c' = PackageVersion c1"
    "Artifact c' = Artifact c1"
  proof -
    have "\<exists>tbl. c' = c1\<lparr>BillOfMaterials := tbl\<rparr>"
      using inc
      by (auto simp: IngestHasSbom_includes_def Let_def billofmaterials_upsert_def
               split: sum.splits prod.splits)
    then show "PackageName c' = PackageName c1" "PackageVersion c' = PackageVersion c1"
      "Artifact c' = Artifact c1" by auto
  qed
  have s': "IngestHasSbom_subject c' subject row0 cols0 = (Inr (row, cols, cwh), c')"
    by (rule IngestHasSbom_subject_stable [OF s]) (simp_all add: tabs)
  have inc': "IngestHasSbom_includes c' spec inc row cols cwh = (Inr n, c')"
  proof (rule IngestHasSbom_includes_idem [OF inc _ _ uniq])
    show "bom_uri row = sbom_URI spec"
      using IngestHasSbom_subject_row [OF s] by (auto simp: row0_def)
    show "conflicts billofmaterials_col cols cwh
                 (row\<lparr>bom_included_software_packages := p, bom_included_software_artifacts := a,
                      bom_included_dependencies := d, bom_included_occurrences := oc\<rparr>)
                 (row\<lparr>bom_included_software_packages := p, bom_included_software_artifacts := a,
                      bom_included_dependencies := d, bom_included_occurrences := oc,
                      bom_id := m\<rparr>)" for m p a d oc
      using IngestHasSbom_subject_row [OF s]
      by (auto simp: row0_def cols0_def conflicts_def optInt_def)
  qed
  have "IngestHasSbom_tx c' subject spec inc = (Inr n, c')"
    using tx [of c'] s' inc' by simp
  then have "WithinTX c' (\<lambda>tx. IngestHasSbom_tx tx subject spec inc) = (Inr n, c')"
    by (rule WithinTX_Inr)
  then show ?thesis using res by (simp add: IngestHasSbom_def)
qed

section \<open>The claims\<close>

subsection \<open>C1: ingesting a fact twice\<close>

text \<open>
  C1 says that ingesting the same occurrence, dependency or bill of materials twice
  returns the same identifier both times and leaves one row. Occurrences and
  dependencies behave so (lemmas \<open>IngestOccurrence_idempotent\<close> and
  \<open>IngestDependency_idempotent\<close>: the second call returns the same identifier and
  leaves the store as the first call left it), and so does a bill of materials whose
  URI no other stored row shares (\<open>IngestHasSbom_idempotent_unique_uri\<close>). For a
  bill of materials whose URI is shared the second call fails. The store
  \<open>ex_store_sbom\<close> holds a bill of materials with the URI of \<open>ex_sbom2\<close> and
  another digest. Ingesting \<open>ex_sbom2\<close> there creates row 2; ingesting it again meets
  the conflict with row 2, the second read by URI finds two rows, and the call fails
  with \<^verbatim>\<open>ent: bill_of_materials not singular\<close>.
\<close>

theorem IngestHasSbom_twice_shared_uri:
  "map bom_id (BillOfMaterials ex_store_sbom) = [1]
   \<and> fst (IngestHasSbom ex_store_sbom \<lparr>poa_Package = Some ex_pkg, poa_Artifact = None\<rparr>
            ex_sbom2 ex_includes) = Inr ''2''
   \<and> map bom_id (BillOfMaterials ex_store_sbom2) = [1, 2]
   \<and> IngestHasSbom ex_store_sbom2 \<lparr>poa_Package = Some ex_pkg, poa_Artifact = None\<rparr>
        ex_sbom2 ex_includes
       = (Inl (GqlError
            ''IngestHasSbom :: input: IngestHasSbom ::  ent: bill_of_materials not singular''),
          ex_store_sbom2)"
  by code_simp

subsection \<open>C2: the subject discriminator\<close>

text \<open>
  C2 says that \<^verbatim>\<open>IngestOccurrence\<close> and \<^verbatim>\<open>IngestHasSbom\<close> reject, with a validation
  error and without creating a row, a subject with no populated variant and a subject
  with more than one. The second half fails on the code: with a package and a source
  both set, the occurrence is ingested for the package.
\<close>

theorem IngestOccurrence_both_variants_counterexample:
  "fst (IngestOccurrence ex_store \<lparr>pos_Package = Some ex_pkg, pos_Source = Some ex_src\<rparr>
          ex_art ex_occ) = Inr ''1''
   \<and> map occ_package_id
        (Occurrence (snd (IngestOccurrence ex_store
           \<lparr>pos_Package = Some ex_pkg, pos_Source = Some ex_src\<rparr> ex_art ex_occ))) = [Some 1]"
  by code_simp

text \<open>
  C2 as amended. A subject with no populated variant makes both functions fail and
  leaves the store as it was; the error is the validation error
  (for \<^verbatim>\<open>IngestOccurrence\<close>, once the artifact has been found: the artifact is looked up
  before the subject is examined). A subject with a package and a second variant is
  ingested as if only the package were set.
\<close>

theorem subject_discriminator:
  "(\<exists>e. IngestOccurrence c \<lparr>pos_Package = None, pos_Source = None\<rparr> art occ = (Inl e, c))
   \<and> (ArtifactInput art = Some ai
        \<and> Only ''artifact'' (filter (artifactQueryInputPredicates ai) (Artifact c)) = Inr a
      \<longrightarrow> IngestOccurrence c \<lparr>pos_Package = None, pos_Source = None\<rparr> art occ =
            (Inl (GqlError
               ''IngestOccurrence :: input: IngestOccurrence :: subject must be either a package or source''),
             c))
   \<and> IngestHasSbom c \<lparr>poa_Package = None, poa_Artifact = None\<rparr> sbom inc =
        (Inl (GqlError
           ''IngestHasSbom :: input: IngestHasSbom :: subject must be either a package or artifact''),
         c)
   \<and> IngestOccurrence c \<lparr>pos_Package = Some p, pos_Source = Some s\<rparr> art occ =
       IngestOccurrence c \<lparr>pos_Package = Some p, pos_Source = None\<rparr> art occ
   \<and> IngestHasSbom c \<lparr>poa_Package = Some p, poa_Artifact = Some a'\<rparr> sbom inc =
       IngestHasSbom c \<lparr>poa_Package = Some p, poa_Artifact = None\<rparr> sbom inc"
  using IngestOccurrence_no_subject [of c art occ]
    IngestOccurrence_no_subject_message [of art ai c a occ]
    IngestHasSbom_no_subject [of c sbom inc]
    IngestOccurrence_both [of c p s art occ]
    IngestHasSbom_both [of c p a' sbom inc]
  by blast

theorem subject_discriminator_witness:
  "ArtifactInput ex_art = Some \<lparr>art_Algorithm = ''SHA256'', art_Digest = ''ABCD''\<rparr>
   \<and> Only ''artifact''
        (filter (artifactQueryInputPredicates \<lparr>art_Algorithm = ''SHA256'', art_Digest = ''ABCD''\<rparr>)
           (Artifact ex_store))
      = Inr \<lparr>art_id = 1, art_algorithm = ''sha256'', art_digest = ''abcd''\<rparr>
   \<and> IngestOccurrence ex_store \<lparr>pos_Package = None, pos_Source = None\<rparr> ex_art ex_occ =
        (Inl (GqlError
           ''IngestOccurrence :: input: IngestOccurrence :: subject must be either a package or source''),
         ex_store)"
proof -
  have h1: "ArtifactInput ex_art = Some \<lparr>art_Algorithm = ''SHA256'', art_Digest = ''ABCD''\<rparr>"
    by (simp add: ex_art_def)
  have h2: "Only ''artifact''
        (filter (artifactQueryInputPredicates \<lparr>art_Algorithm = ''SHA256'', art_Digest = ''ABCD''\<rparr>)
           (Artifact ex_store))
      = Inr \<lparr>art_id = 1, art_algorithm = ''sha256'', art_digest = ''abcd''\<rparr>"
    by code_simp
  show ?thesis
    using h1 h2 subject_discriminator [of ex_store ex_art ex_occ] by blast
qed

subsection \<open>C3: slices of different lengths\<close>

text \<open>
  C3 says that a batch call whose slices differ in length is rejected with an
  invalid-argument error before any item is dispatched. No batch function compares
  lengths. Here \<^verbatim>\<open>IngestDependencies\<close> is given two packages, one dependent package
  and one dependency: it ingests the dependency and returns its identifier.
\<close>

theorem IngestDependencies_lengths_counterexample:
  "fst (IngestDependencies [0] ex_store [ex_pkg, ex_pkg2] [ex_pkg2] ex_flags [ex_dep]) = Inr [''1'']
   \<and> map dep_id
        (Dependency (snd (IngestDependencies [0] ex_store [ex_pkg, ex_pkg2] [ex_pkg2] ex_flags
                            [ex_dep]))) = [1]"
  by code_simp

text \<open>
  C3 as amended. The batch functions make no length check. The number of items is the
  length of the driving slice (\<^verbatim>\<open>occurrences\<close>, \<^verbatim>\<open>dependencies\<close>, \<^verbatim>\<open>hasSBOMs\<close>),
  and entries of the other slices past that length are never read: a call returns and
  does what it returns and does on the slices cut to that length.
\<close>

theorem batch_lengths:
  "IngestOccurrences sched c subjects artifacts occurrences =
     IngestOccurrences sched c
       \<lparr>pos_Packages = take (length occurrences) (pos_Packages subjects),
        pos_Sources = take (length occurrences) (pos_Sources subjects)\<rparr>
       (take (length occurrences) artifacts) occurrences
   \<and> IngestDependencies sched c pkgs depPkgs depPkgMatchType dependencies =
       IngestDependencies sched c (take (length dependencies) pkgs)
         (take (length dependencies) depPkgs) depPkgMatchType dependencies
   \<and> IngestHasSBOMs c subjects' hasSBOMs includes =
       IngestHasSBOMs c
         \<lparr>poa_Packages = take (length hasSBOMs) (poa_Packages subjects'),
          poa_Artifacts = take (length hasSBOMs) (poa_Artifacts subjects')\<rparr>
         hasSBOMs (take (length hasSBOMs) includes)"
proof -
  have occ: "IngestOccurrences sched c subjects artifacts occurrences =
     IngestOccurrences sched c
       \<lparr>pos_Packages = take (length occurrences) (pos_Packages subjects),
        pos_Sources = take (length occurrences) (pos_Sources subjects)\<rparr>
       (take (length occurrences) artifacts) occurrences"
    unfolding IngestOccurrences_def
    by (rule batch_cong) (simp add: IngestOccurrences_item_take)
  have dep: "IngestDependencies sched c pkgs depPkgs depPkgMatchType dependencies =
       IngestDependencies sched c (take (length dependencies) pkgs)
         (take (length dependencies) depPkgs) depPkgMatchType dependencies"
    unfolding IngestDependencies_def
    by (rule batch_cong) (simp add: IngestDependencies_item_take)
  have sbom: "IngestHasSBOMs c subjects' hasSBOMs includes =
       IngestHasSBOMs c
         \<lparr>poa_Packages = take (length hasSBOMs) (poa_Packages subjects'),
          poa_Artifacts = take (length hasSBOMs) (poa_Artifacts subjects')\<rparr>
         hasSBOMs (take (length hasSBOMs) includes)"
    unfolding IngestHasSBOMs_def
    by (rule IngestHasSBOMs_loop_cong) (simp add: IngestHasSBOMs_subject_take index_slice_take)
  show ?thesis using occ dep sbom by blast
qed

subsection \<open>C4: a nil filter\<close>

text \<open>
  C4 says that each of \<^verbatim>\<open>IsOccurrence\<close>, \<^verbatim>\<open>IsDependency\<close> and \<^verbatim>\<open>HasSBOM\<close>, called
  with a nil filter, returns every stored relation of its kind. \<^verbatim>\<open>IsDependency\<close>
  does not: its first statement returns an empty result for a nil filter. Here the store
  holds one dependency and the query returns none.
\<close>

theorem IsDependency_nil_counterexample:
  "map dep_id (Dependency ex_store_dep) = [1]
   \<and> IsDependency 1000 (\<lambda>c r. dep_id r) ex_store_dep None = Inr []"
  by code_simp

text \<open>
  C4 as amended. With a nil filter \<^verbatim>\<open>IsOccurrence\<close> returns every stored occurrence,
  in the order of the table, and \<^verbatim>\<open>IsDependency\<close> returns the empty list and no error.
\<close>

theorem nil_filter:
  "IsOccurrence toModelIsOccurrenceWithSubject c None =
     Inr (map (toModelIsOccurrenceWithSubject c) (Occurrence c))
   \<and> IsDependency MaxPageSize toModelIsDependencyWithBackrefs c None = Inr []"
  by (simp add: IsOccurrence_nil IsDependency_nil)

subsection \<open>C5: the page size\<close>

text \<open>
  C5 says that no query returns more than the maximum page size. \<^verbatim>\<open>IsDependency\<close>
  and \<^verbatim>\<open>HasSBOM\<close> apply \<^verbatim>\<open>Limit(MaxPageSize)\<close>; \<^verbatim>\<open>IsOccurrence\<close> has no limit. On a
  store of \<open>MaxPageSize + 1\<close> occurrences it returns them all, whatever the page size is.
\<close>

theorem IsOccurrence_exceeds_page_size:
  "IsOccurrence (\<lambda>c r. r) (ex_store\<lparr>Occurrence := replicate (Suc MaxPageSize) row\<rparr>) None =
     Inr (replicate (Suc MaxPageSize) row)
   \<and> length (replicate (Suc MaxPageSize) row) > MaxPageSize"
  by (simp add: IsOccurrence_nil)

subsection \<open>C6: included references must exist\<close>

text \<open>
  C6 says that \<^verbatim>\<open>IngestHasSbom\<close>, given an included identifier that names no
  existing entity, fails with a not-found error naming that identifier and commits no
  row. The error does not name the identifier: with the included dependency \<open>42\<close>
  missing, the message tells the kind of reference only.
\<close>

theorem IngestHasSbom_included_counterexample:
  "fst (IngestHasSbom ex_store \<lparr>poa_Package = None, poa_Artifact = Some ex_art\<rparr> ex_sbom
          ex_includes42)
     = Inl (GqlError
         ''IngestHasSbom :: input: IngestHasSbom :: includes.Dependencies must be a valid IsDependency ID'')
   \<and> \<not> sublist ''42''
         ''IngestHasSbom :: input: IngestHasSbom :: includes.Dependencies must be a valid IsDependency ID''"
  by code_simp

text \<open>
  C6 as amended. When an identifier of an included set names no row of its table (for
  the included packages: in the store as the transaction sees it once the subject is
  resolved), \<^verbatim>\<open>IngestHasSbom\<close> fails and the store is left as it was: no row is
  committed. When the subject itself resolves, the error is one of the five messages of
  the loops over the included sets, which tell the kind of reference that failed and
  not the identifier.
\<close>

theorem included_reference_validation:
  "(missing_included c subject inc \<longrightarrow> (\<exists>e. IngestHasSbom c subject spec inc = (Inl e, c)))
   \<and> (missing_included c subject inc
        \<and> IngestHasSbom_subject c subject row cols = (Inr x, c1)
      \<longrightarrow> (\<exists>m\<in>set included_errors.
             IngestHasSbom c subject spec inc =
               (Inl (GqlError (''IngestHasSbom :: input: '' @ m)), c)))"
proof (intro conjI impI)
  assume "missing_included c subject inc"
  then show "\<exists>e. IngestHasSbom c subject spec inc = (Inl e, c)"
    by (rule IngestHasSbom_missing(1))
next
  assume "missing_included c subject inc
            \<and> IngestHasSbom_subject c subject row cols = (Inr x, c1)"
  then show "\<exists>m\<in>set included_errors.
             IngestHasSbom c subject spec inc =
               (Inl (GqlError (''IngestHasSbom :: input: '' @ m)), c)"
    using IngestHasSbom_missing(2) by blast
qed

theorem included_reference_validation_witness:
  "missing_included ex_store \<lparr>poa_Package = None, poa_Artifact = Some ex_art\<rparr> ex_includes42
   \<and> IngestHasSbom_subject ex_store \<lparr>poa_Package = None, poa_Artifact = Some ex_art\<rparr>
        ex_bom_row []
       = (Inr (ex_bom_row\<lparr>bom_artifact_id := Some 1\<rparr>, [billofmaterials_FieldArtifactID],
               And (IsNull billofmaterials_FieldPackageID) (NotNull billofmaterials_FieldArtifactID)),
          ex_store)
   \<and> (\<exists>e. IngestHasSbom ex_store \<lparr>poa_Package = None, poa_Artifact = Some ex_art\<rparr> ex_sbom
             ex_includes42 = (Inl e, ex_store))
   \<and> (\<exists>m\<in>set included_errors.
         IngestHasSbom ex_store \<lparr>poa_Package = None, poa_Artifact = Some ex_art\<rparr> ex_sbom
           ex_includes42 = (Inl (GqlError (''IngestHasSbom :: input: '' @ m)), ex_store))"
proof -
  have h1: "missing_included ex_store \<lparr>poa_Package = None, poa_Artifact = Some ex_art\<rparr>
              ex_includes42"
    by code_simp
  have h2: "IngestHasSbom_subject ex_store \<lparr>poa_Package = None, poa_Artifact = Some ex_art\<rparr>
        ex_bom_row []
       = (Inr (ex_bom_row\<lparr>bom_artifact_id := Some 1\<rparr>, [billofmaterials_FieldArtifactID],
               And (IsNull billofmaterials_FieldPackageID) (NotNull billofmaterials_FieldArtifactID)),
          ex_store)"
    by code_simp
  show ?thesis
    using h1 h2
      included_reference_validation [of ex_store
        "\<lparr>poa_Package = None, poa_Artifact = Some ex_art\<rparr>" ex_includes42 ex_sbom]
    by blast
qed

subsection \<open>C7: a batch fails as a whole\<close>

text \<open>
  C7: when an item of a batch fails, the call returns that first error and no list of
  identifiers, whatever the other items did. For \<^verbatim>\<open>IngestDependencies\<close> and
  \<^verbatim>\<open>IngestOccurrences\<close>: if the log of the run holds a failure of item \<open>i\<close> with
  error \<open>err\<close> (the log ends there, so it is the first failure in the order of
  completion), the call's result is \<open>err\<close>; the input slices are long enough for the
  loop to hand out every item. For \<^verbatim>\<open>IngestHasSBOMs\<close>, which ingests one item after
  the other: if the items before \<open>h\<close> succeed and \<open>h\<close> fails with \<open>err\<close>, the call
  returns \<open>err\<close>, wrapped in the function's own message, whatever items follow.
\<close>

theorem batch_fail_fast:
  "((i, Inl err) \<in> set (IngestDependencies_trace sched c pkgs depPkgs mt dependencies)
      \<and> length dependencies \<le> length pkgs \<and> length dependencies \<le> length depPkgs
     \<longrightarrow> fst (IngestDependencies sched c pkgs depPkgs mt dependencies) = Inl err)
   \<and> ((j, Inl err') \<in> set (IngestOccurrences_trace sched' d subjects artifacts occurrences)
      \<and> length occurrences \<le> length artifacts
      \<and> length occurrences \<le> (if pos_Packages subjects \<noteq> [] then length (pos_Packages subjects)
                                  else length (pos_Sources subjects))
     \<longrightarrow> fst (IngestOccurrences sched' d subjects artifacts occurrences) = Inl err')
   \<and> (IngestHasSBOMs b subjects' hs1 incs = (Inr ms, b1)
      \<and> IngestHasSBOMs_subject subjects' (length hs1) = Inr subject
      \<and> index_slice incs (length hs1) = Inr inc
      \<and> IngestHasSbom b1 subject h inc = (Inl err'', b2)
     \<longrightarrow> IngestHasSBOMs b subjects' (hs1 @ h # hs2) incs =
           (on_err (\<lambda>e. GqlError (''IngestHasSBOMs failed with err: '' @ err_Error e))
              (Inl err''), b2))"
  using IngestDependencies_fail [of i err sched c pkgs depPkgs mt dependencies]
    IngestOccurrences_fail [of j err' sched' d subjects artifacts occurrences]
    IngestHasSBOMs_fail [of b subjects' hs1 incs ms b1 subject inc h err'' b2 hs2]
  by blast

theorem batch_fail_fast_witness:
  "(1, Inl (Wrap (NotFoundError ''package_version'') ''IngestDependency''))
     \<in> set (IngestDependencies_trace [0, 1, 2] ex_store [ex_pkg, ex_pkg_bad, ex_pkg2]
               [ex_pkg2, ex_pkg2, ex_pkg] ex_flags [ex_dep, ex_dep, ex_dep])
   \<and> length [ex_dep, ex_dep, ex_dep] \<le> length [ex_pkg, ex_pkg_bad, ex_pkg2]
   \<and> length [ex_dep, ex_dep, ex_dep] \<le> length [ex_pkg2, ex_pkg2, ex_pkg]
   \<and> fst (IngestDependencies [0, 1, 2] ex_store [ex_pkg, ex_pkg_bad, ex_pkg2]
            [ex_pkg2, ex_pkg2, ex_pkg] ex_flags [ex_dep, ex_dep, ex_dep])
       = Inl (Wrap (NotFoundError ''package_version'') ''IngestDependency'')
   \<and> (1, Inl (GqlError
         ''IngestOccurrence :: failed to get package version: ent: package_version not found''))
     \<in> set (IngestOccurrences_trace [1, 0] ex_store
               \<lparr>pos_Packages = [ex_pkg, ex_pkg_bad], pos_Sources = []\<rparr>
               [ex_art, ex_art] [ex_occ, ex_occ])
   \<and> fst (IngestOccurrences [1, 0] ex_store
            \<lparr>pos_Packages = [ex_pkg, ex_pkg_bad], pos_Sources = []\<rparr>
            [ex_art, ex_art] [ex_occ, ex_occ])
       = Inl (GqlError
           ''IngestOccurrence :: failed to get package version: ent: package_version not found'')
   \<and> IngestHasSBOMs ex_store ex_subjects3 [ex_sbom] [ex_includes, ex_includes, ex_includes]
       = (Inr [''1''], ex_store_sbom)
   \<and> IngestHasSBOMs_subject ex_subjects3 (length [ex_sbom])
       = Inr \<lparr>poa_Package = Some ex_pkg_bad, poa_Artifact = None\<rparr>
   \<and> index_slice [ex_includes, ex_includes, ex_includes] (length [ex_sbom]) = Inr ex_includes
   \<and> IngestHasSbom ex_store_sbom \<lparr>poa_Package = Some ex_pkg_bad, poa_Artifact = None\<rparr>
        ex_sbom ex_includes
       = (Inl (GqlError ''IngestHasSbom :: input: IngestHasSbom ::  ent: package_version not found''),
          ex_store_sbom)
   \<and> IngestHasSBOMs ex_store ex_subjects3 ([ex_sbom] @ ex_sbom # [ex_sbom])
        [ex_includes, ex_includes, ex_includes]
       = (Inl (GqlError
            ''IngestHasSBOMs failed with err: input: IngestHasSbom :: input: IngestHasSbom ::  ent: package_version not found''),
          ex_store_sbom)"
proof -
  have d1: "(1, Inl (Wrap (NotFoundError ''package_version'') ''IngestDependency''))
     \<in> set (IngestDependencies_trace [0, 1, 2] ex_store [ex_pkg, ex_pkg_bad, ex_pkg2]
               [ex_pkg2, ex_pkg2, ex_pkg] ex_flags [ex_dep, ex_dep, ex_dep])"
    by code_simp
  have d2: "length [ex_dep, ex_dep, ex_dep] \<le> length [ex_pkg, ex_pkg_bad, ex_pkg2]"
           "length [ex_dep, ex_dep, ex_dep] \<le> length [ex_pkg2, ex_pkg2, ex_pkg]"
    by simp_all
  have d3: "fst (IngestDependencies [0, 1, 2] ex_store [ex_pkg, ex_pkg_bad, ex_pkg2]
            [ex_pkg2, ex_pkg2, ex_pkg] ex_flags [ex_dep, ex_dep, ex_dep])
       = Inl (Wrap (NotFoundError ''package_version'') ''IngestDependency'')"
    by (rule batch_fail_fast [THEN conjunct1, THEN mp]) (use d1 d2 in blast)
  have o1: "(1, Inl (GqlError
         ''IngestOccurrence :: failed to get package version: ent: package_version not found''))
     \<in> set (IngestOccurrences_trace [1, 0] ex_store
               \<lparr>pos_Packages = [ex_pkg, ex_pkg_bad], pos_Sources = []\<rparr>
               [ex_art, ex_art] [ex_occ, ex_occ])"
    by code_simp
  have o2: "length [ex_occ, ex_occ] \<le> length [ex_art, ex_art]"
    "length [ex_occ, ex_occ] \<le>
       (if pos_Packages \<lparr>pos_Packages = [ex_pkg, ex_pkg_bad], pos_Sources = []\<rparr> \<noteq> []
        then length (pos_Packages \<lparr>pos_Packages = [ex_pkg, ex_pkg_bad], pos_Sources = []\<rparr>)
        else length (pos_Sources \<lparr>pos_Packages = [ex_pkg, ex_pkg_bad], pos_Sources = []\<rparr>))"
    by simp_all
  have o3: "fst (IngestOccurrences [1, 0] ex_store
            \<lparr>pos_Packages = [ex_pkg, ex_pkg_bad], pos_Sources = []\<rparr>
            [ex_art, ex_art] [ex_occ, ex_occ])
       = Inl (GqlError
           ''IngestOccurrence :: failed to get package version: ent: package_version not found'')"
    by (rule batch_fail_fast [THEN conjunct2, THEN conjunct1, THEN mp]) (use o1 o2 in blast)
  have "fst (IngestHasSBOMs ex_store ex_subjects3 [ex_sbom] [ex_includes, ex_includes, ex_includes])
          = Inr [''1'']"
    by code_simp
  then have s1: "IngestHasSBOMs ex_store ex_subjects3 [ex_sbom] [ex_includes, ex_includes, ex_includes]
       = (Inr [''1''], ex_store_sbom)"
    by (simp add: ex_store_sbom_def prod_eq_iff)
  have s2: "IngestHasSBOMs_subject ex_subjects3 (length [ex_sbom])
       = Inr \<lparr>poa_Package = Some ex_pkg_bad, poa_Artifact = None\<rparr>"
    by (simp add: IngestHasSBOMs_subject_def ex_subjects3_def index_slice_def)
  have s3: "index_slice [ex_includes, ex_includes, ex_includes] (length [ex_sbom]) = Inr ex_includes"
    by (simp add: index_slice_def)
  have "fst (IngestHasSbom ex_store_sbom \<lparr>poa_Package = Some ex_pkg_bad, poa_Artifact = None\<rparr>
               ex_sbom ex_includes)
       = Inl (GqlError ''IngestHasSbom :: input: IngestHasSbom ::  ent: package_version not found'')"
    by code_simp
  moreover have "snd (IngestHasSbom ex_store_sbom
                        \<lparr>poa_Package = Some ex_pkg_bad, poa_Artifact = None\<rparr> ex_sbom ex_includes)
       = ex_store_sbom"
    by (rule IngestHasSbom_rollback) (rule calculation)
  ultimately have s4: "IngestHasSbom ex_store_sbom
        \<lparr>poa_Package = Some ex_pkg_bad, poa_Artifact = None\<rparr> ex_sbom ex_includes
       = (Inl (GqlError ''IngestHasSbom :: input: IngestHasSbom ::  ent: package_version not found''),
          ex_store_sbom)"
    by (simp add: prod_eq_iff)
  have s5: "IngestHasSBOMs ex_store ex_subjects3 ([ex_sbom] @ ex_sbom # [ex_sbom])
        [ex_includes, ex_includes, ex_includes]
       = (on_err (\<lambda>e. GqlError (''IngestHasSBOMs failed with err: '' @ err_Error e))
            (Inl (GqlError
               ''IngestHasSbom :: input: IngestHasSbom ::  ent: package_version not found'')),
          ex_store_sbom)"
    by (rule batch_fail_fast [THEN conjunct2, THEN conjunct2, THEN mp]) (use s1 s2 s3 s4 in blast)
  have s6: "IngestHasSBOMs ex_store ex_subjects3 ([ex_sbom] @ ex_sbom # [ex_sbom])
        [ex_includes, ex_includes, ex_includes]
       = (Inl (GqlError
            ''IngestHasSBOMs failed with err: input: IngestHasSbom :: input: IngestHasSbom ::  ent: package_version not found''),
          ex_store_sbom)"
    using s5 by (simp add: on_err_def)
  show ?thesis
    using d1 d2 d3 o1 o3 s1 s2 s3 s4 s6 by blast
qed

subsection \<open>C8: the order of a batch's result\<close>

text \<open>
  C8: when a batch succeeds, the \<open>i\<close>-th identifier returned is the one produced for
  the \<open>i\<close>-th input item, in whatever order the items complete. For every schedule of
  the items, a successful \<^verbatim>\<open>IngestDependencies\<close> (likewise \<^verbatim>\<open>IngestOccurrences\<close>)
  returns one identifier per item; slot \<open>i\<close> holds what the log of the run records for
  item \<open>i\<close>; and that is the identifier a call of \<^verbatim>\<open>IngestDependency\<close> on the
  \<open>i\<close>-th inputs returned.
\<close>

theorem batch_order:
  "(schedule (length dependencies) sched
      \<and> IngestDependencies sched c pkgs depPkgs mt dependencies = (Inr ids, c')
     \<longrightarrow> length ids = length dependencies
        \<and> (\<forall>i<length dependencies.
              map_of (IngestDependencies_trace sched c pkgs depPkgs mt dependencies) i
                = Some (Inr (ids ! i)))
        \<and> (\<forall>i<length dependencies. \<exists>c1 c2.
              IngestDependency c1 (pkgs ! i) (depPkgs ! i) mt (dependencies ! i)
                = (Inr (ids ! i), c2)))
   \<and> (schedule (length occurrences) sched'
      \<and> IngestOccurrences sched' d subjects artifacts occurrences = (Inr ids', d')
     \<longrightarrow> length ids' = length occurrences
        \<and> (\<forall>i<length occurrences.
              map_of (IngestOccurrences_trace sched' d subjects artifacts occurrences) i
                = Some (Inr (ids' ! i)))
        \<and> (\<forall>i<length occurrences. \<exists>c1 c2.
              IngestOccurrence c1
                (if pos_Packages subjects \<noteq> []
                 then \<lparr>pos_Package = Some (pos_Packages subjects ! i), pos_Source = None\<rparr>
                 else \<lparr>pos_Package = None, pos_Source = Some (pos_Sources subjects ! i)\<rparr>)
                (artifacts ! i) (occurrences ! i) = (Inr (ids' ! i), c2)))"
  using IngestDependencies_order [of dependencies sched c pkgs depPkgs mt ids c']
    IngestOccurrences_order [of occurrences sched' d subjects artifacts ids' d']
  by blast

theorem batch_order_witness:
  "schedule (length [ex_dep, ex_dep]) [1, 0]
   \<and> fst (IngestDependencies [1, 0] ex_store [ex_pkg, ex_pkg2] [ex_pkg2, ex_pkg] ex_flags
            [ex_dep, ex_dep]) = Inr [''2'', ''1'']
   \<and> map_of (IngestDependencies_trace [1, 0] ex_store [ex_pkg, ex_pkg2] [ex_pkg2, ex_pkg]
               ex_flags [ex_dep, ex_dep]) 0 = Some (Inr ([''2'', ''1''] ! 0))
   \<and> map_of (IngestDependencies_trace [1, 0] ex_store [ex_pkg, ex_pkg2] [ex_pkg2, ex_pkg]
               ex_flags [ex_dep, ex_dep]) 1 = Some (Inr ([''2'', ''1''] ! 1))
   \<and> schedule (length [ex_occ, ex_occ]) [1, 0]
   \<and> fst (IngestOccurrences [1, 0] ex_store
            \<lparr>pos_Packages = [ex_pkg, ex_pkg2], pos_Sources = []\<rparr> [ex_art, ex_art]
            [ex_occ, ex_occ]) = Inr [''2'', ''1'']
   \<and> map_of (IngestOccurrences_trace [1, 0] ex_store
               \<lparr>pos_Packages = [ex_pkg, ex_pkg2], pos_Sources = []\<rparr> [ex_art, ex_art]
               [ex_occ, ex_occ]) 0 = Some (Inr ([''2'', ''1''] ! 0))
   \<and> map_of (IngestOccurrences_trace [1, 0] ex_store
               \<lparr>pos_Packages = [ex_pkg, ex_pkg2], pos_Sources = []\<rparr> [ex_art, ex_art]
               [ex_occ, ex_occ]) 1 = Some (Inr ([''2'', ''1''] ! 1))"
proof -
  have s: "schedule (length [ex_dep, ex_dep]) [1, 0]" "schedule (length [ex_occ, ex_occ]) [1, 0]"
    by (auto simp: schedule_def)
  have fd: "fst (IngestDependencies [1, 0] ex_store [ex_pkg, ex_pkg2] [ex_pkg2, ex_pkg] ex_flags
            [ex_dep, ex_dep]) = Inr [''2'', ''1'']"
    by code_simp
  then have d: "IngestDependencies [1, 0] ex_store [ex_pkg, ex_pkg2] [ex_pkg2, ex_pkg] ex_flags
            [ex_dep, ex_dep]
      = (Inr [''2'', ''1''],
         snd (IngestDependencies [1, 0] ex_store [ex_pkg, ex_pkg2] [ex_pkg2, ex_pkg] ex_flags
                [ex_dep, ex_dep]))"
    by (simp add: prod_eq_iff)
  have fo: "fst (IngestOccurrences [1, 0] ex_store
            \<lparr>pos_Packages = [ex_pkg, ex_pkg2], pos_Sources = []\<rparr> [ex_art, ex_art]
            [ex_occ, ex_occ]) = Inr [''2'', ''1'']"
    by code_simp
  then have oc: "IngestOccurrences [1, 0] ex_store
            \<lparr>pos_Packages = [ex_pkg, ex_pkg2], pos_Sources = []\<rparr> [ex_art, ex_art]
            [ex_occ, ex_occ]
      = (Inr [''2'', ''1''],
         snd (IngestOccurrences [1, 0] ex_store
            \<lparr>pos_Packages = [ex_pkg, ex_pkg2], pos_Sources = []\<rparr> [ex_art, ex_art]
            [ex_occ, ex_occ]))"
    by (simp add: prod_eq_iff)
  have D: "\<forall>i<length [ex_dep, ex_dep].
      map_of (IngestDependencies_trace [1, 0] ex_store [ex_pkg, ex_pkg2] [ex_pkg2, ex_pkg]
                ex_flags [ex_dep, ex_dep]) i = Some (Inr ([''2'', ''1''] ! i))"
    using batch_order [THEN conjunct1, THEN mp, OF conjI [OF s(1) d]] by blast
  have O: "\<forall>i<length [ex_occ, ex_occ].
      map_of (IngestOccurrences_trace [1, 0] ex_store
               \<lparr>pos_Packages = [ex_pkg, ex_pkg2], pos_Sources = []\<rparr> [ex_art, ex_art]
               [ex_occ, ex_occ]) i = Some (Inr ([''2'', ''1''] ! i))"
    using batch_order [THEN conjunct2, THEN mp, OF conjI [OF s(2) oc]] by blast
  have l: "(0::nat) < length [ex_dep, ex_dep]" "(1::nat) < length [ex_dep, ex_dep]"
          "(0::nat) < length [ex_occ, ex_occ]" "(1::nat) < length [ex_occ, ex_occ]"
    by simp_all
  show ?thesis
    using s fd fo D O l by blast
qed

subsection \<open>C9: the second read after a conflict\<close>



subsection \<open>C10: one subject kind for a batch\<close>



end
